(* ===== verification/Prelude.thy ===== *)
theory Prelude
  imports Main "HOL-Library.Word" "HOL-Library.AList"
begin

text \<open>
  Shared vocabulary of the development: machine integers and byte strings, Rust's
  \<open>Result\<close> and \<open>Option\<close> plumbing, operations that run against a state, \<open>for\<close> loops with
  an early return, and \<open>std::collections::HashMap\<close> as an association list with distinct
  keys.  The generic lemmas are collected in \<open>op_simps\<close> (running an operation),
  \<open>preserve_intros\<close> (an operation keeps an invariant) and \<open>map_simps\<close> (hash maps).
\<close>

named_theorems op_simps
named_theorems preserve_intros
named_theorems map_simps

section \<open>Types\<close>

type_synonym byte = "8 word"
type_synonym bytes = "8 word list"
type_synonym u16 = "16 word"
type_synonym u32 = "32 word"
type_synonym u64 = "64 word"
type_synonym i64 = "64 word"  \<comment> \<open>read with \<open>sint\<close>\<close>

text \<open>
  An error of the \<open>anyhow\<close> crate, kept as the term that built it: \<open>anyhow!(\<dots>)\<close> or
  \<open>bail!(\<dots>)\<close> (\<open>Anyhow\<close>), a \<open>.context(\<dots>)\<close> layer (\<open>Context\<close>) and a foreign error
  that \<open>?\<close> converted (\<open>Foreign\<close>, with a name for its source).  Where the code stores
  \<open>err.to_string()\<close> the model stores this term, so which error it is and which context was
  attached stay visible without modelling the crate's formatting.
\<close>

datatype anyhow = Anyhow string | Context string anyhow | Foreign string

text \<open>\<open>Display\<close> of such an error prints its outermost layer only.\<close>

fun anyhow_display :: "anyhow \<Rightarrow> string" where
  "anyhow_display (Anyhow msg) = msg"
| "anyhow_display (Context msg e) = msg"
| "anyhow_display (Foreign msg) = msg"

text \<open>Where the code calls \<open>to_string\<close> on an error, the error whose text it keeps.\<close>

datatype table_error = Full | NotPresent | WrongType | HasChildren

datatype cause = Of_anyhow anyhow | Of_table table_error

section \<open>Results\<close>

fun res_bind :: "'e + 'a \<Rightarrow> ('a \<Rightarrow> 'e + 'b) \<Rightarrow> 'e + 'b" where
  "res_bind (Inl e) f = Inl e"
| "res_bind (Inr a) f = f a"

fun res_map_err :: "('e \<Rightarrow> 'f) \<Rightarrow> 'e + 'a \<Rightarrow> 'f + 'a" where
  "res_map_err g (Inl e) = Inl (g e)"
| "res_map_err g (Inr a) = Inr a"

fun ok_or :: "'e \<Rightarrow> 'a option \<Rightarrow> 'e + 'a" where
  "ok_or e None = Inl e"
| "ok_or e (Some a) = Inr a"

fun is_ok :: "'e + 'a \<Rightarrow> bool" where
  "is_ok (Inl e) = False"
| "is_ok (Inr a) = True"

text \<open>Apply a fallible function to every element, up to the first error.\<close>

fun res_all :: "('a \<Rightarrow> 'e + 'b) \<Rightarrow> 'a list \<Rightarrow> 'e + 'b list" where
  "res_all f [] = Inr []"
| "res_all f (x # xs) = res_bind (f x) (\<lambda>y. res_bind (res_all f xs) (\<lambda>ys. Inr (y # ys)))"

lemma res_all_id [simp]: "res_all Inr xs = Inr xs"
  by (induction xs) simp_all

lemma res_bind_Inr_iff: "res_bind r f = Inr b \<longleftrightarrow> (\<exists>a. r = Inr a \<and> f a = Inr b)"
  by (cases r) auto

lemma res_map_err_Inr_iff [simp]: "res_map_err g r = Inr a \<longleftrightarrow> r = Inr a"
  by (cases r) auto

lemma ok_or_Inr_iff [simp]: "ok_or e r = Inr a \<longleftrightarrow> r = Some a"
  by (cases r) auto

lemma is_ok_iff: "is_ok r \<longleftrightarrow> (\<exists>a. r = Inr a)"
  by (cases r) auto

section \<open>Operations on a state\<close>

text \<open>
  A fallible operation returns its result and the state it leaves, also when it fails: the
  effects before an error are not rolled back in the source, so they are not here.
\<close>

type_synonym ('s, 'e, 'a) op = "'s \<Rightarrow> ('e + 'a) \<times> 's"

definition op_return :: "'a \<Rightarrow> ('s, 'e, 'a) op" where
  "op_return a s = (Inr a, s)"

definition op_fail :: "'e \<Rightarrow> ('s, 'e, 'a) op" where
  "op_fail e s = (Inl e, s)"

definition op_lift :: "'e + 'a \<Rightarrow> ('s, 'e, 'a) op" where
  "op_lift r s = (r, s)"

definition op_bind :: "('s, 'e, 'a) op \<Rightarrow> ('a \<Rightarrow> ('s, 'e, 'b) op) \<Rightarrow> ('s, 'e, 'b) op" where
  "op_bind m f s = (case m s of (Inl e, s') \<Rightarrow> (Inl e, s') | (Inr a, s') \<Rightarrow> f a s')"

definition op_map_err :: "('e \<Rightarrow> 'f) \<Rightarrow> ('s, 'e, 'a) op \<Rightarrow> ('s, 'f, 'a) op" where
  "op_map_err g m s = (case m s of (r, s') \<Rightarrow> (res_map_err g r, s'))"

text \<open>The body of a \<open>match\<close> on the result of a call, when both arms go on.\<close>

definition op_try :: "('s, 'e, 'a) op \<Rightarrow> ('e + 'a \<Rightarrow> ('s, 'f, 'b) op) \<Rightarrow> ('s, 'f, 'b) op" where
  "op_try m f s = (case m s of (r, s') \<Rightarrow> f r s')"

text \<open>\<open>for x in xs { f(x)?; }\<close>\<close>

fun op_for :: "('a \<Rightarrow> ('s, 'e, unit) op) \<Rightarrow> 'a list \<Rightarrow> ('s, 'e, unit) op" where
  "op_for f [] = op_return ()"
| "op_for f (x # xs) = op_bind (f x) (\<lambda>_. op_for f xs)"

lemma op_return_run [simp, op_simps]: "op_return a s = (Inr a, s)"
  by (simp add: op_return_def)

lemma op_fail_run [simp, op_simps]: "op_fail e s = (Inl e, s)"
  by (simp add: op_fail_def)

lemma op_lift_run [simp, op_simps]: "op_lift r s = (r, s)"
  by (simp add: op_lift_def)

lemma op_bind_ok [simp, op_simps]: "m s = (Inr a, s') \<Longrightarrow> op_bind m f s = f a s'"
  by (simp add: op_bind_def)

lemma op_bind_err [simp, op_simps]: "m s = (Inl e, s') \<Longrightarrow> op_bind m f s = (Inl e, s')"
  by (simp add: op_bind_def)

lemma op_map_err_run [simp, op_simps]: "m s = (r, s') \<Longrightarrow> op_map_err g m s = (res_map_err g r, s')"
  by (simp add: op_map_err_def)

lemma op_try_run [simp, op_simps]: "m s = (r, s') \<Longrightarrow> op_try m f s = f r s'"
  by (simp add: op_try_def)

lemma op_bind_Inr:
  "op_bind m f s = (Inr b, t) \<longleftrightarrow> (\<exists>a s'. m s = (Inr a, s') \<and> f a s' = (Inr b, t))"
  by (auto simp: op_bind_def split: prod.splits sum.splits)

lemma op_map_err_Inr [simp]: "op_map_err g m s = (Inr a, t) \<longleftrightarrow> m s = (Inr a, t)"
  by (auto simp: op_map_err_def split: prod.splits)

lemma op_for_append:
  "op_for f (xs @ ys) s = op_bind (op_for f xs) (\<lambda>_. op_for f ys) s"
  by (induction xs arbitrary: s) (auto simp: op_bind_def split: prod.splits sum.splits)

section \<open>Invariants kept by operations\<close>

definition op_preserves :: "('s \<Rightarrow> bool) \<Rightarrow> ('s, 'e, 'a) op \<Rightarrow> bool" where
  "op_preserves P m \<longleftrightarrow> (\<forall>s. P s \<longrightarrow> P (snd (m s)))"

lemma op_preservesI: "(\<And>s. P s \<Longrightarrow> P (snd (m s))) \<Longrightarrow> op_preserves P m"
  by (simp add: op_preserves_def)

lemma op_preservesD: "op_preserves P m \<Longrightarrow> P s \<Longrightarrow> m s = (r, t) \<Longrightarrow> P t"
  by (auto simp: op_preserves_def dest: spec [of _ s])

lemma op_preserves_return [preserve_intros]: "op_preserves P (op_return a)"
  by (simp add: op_preserves_def)

lemma op_preserves_fail [preserve_intros]: "op_preserves P (op_fail e)"
  by (simp add: op_preserves_def)

lemma op_preserves_lift [preserve_intros]: "op_preserves P (op_lift r)"
  by (simp add: op_preserves_def)

lemma op_preserves_bind [preserve_intros]:
  "op_preserves P m \<Longrightarrow> (\<And>a. op_preserves P (f a)) \<Longrightarrow> op_preserves P (op_bind m f)"
  by (fastforce simp: op_preserves_def op_bind_def split: prod.splits sum.splits)

lemma op_preserves_map_err [preserve_intros]:
  "op_preserves P m \<Longrightarrow> op_preserves P (op_map_err g m)"
  by (fastforce simp: op_preserves_def op_map_err_def split: prod.splits)

lemma op_preserves_try [preserve_intros]:
  "op_preserves P m \<Longrightarrow> (\<And>r. op_preserves P (f r)) \<Longrightarrow> op_preserves P (op_try m f)"
  by (fastforce simp: op_preserves_def op_try_def split: prod.splits)

lemma op_preserves_for [preserve_intros]:
  "(\<And>x. op_preserves P (f x)) \<Longrightarrow> op_preserves P (op_for f xs)"
  by (induction xs) (auto intro!: preserve_intros)

section \<open>Hash maps\<close>

text \<open>
  \<open>HashMap<K, V>\<close>: an association list with distinct keys.  The iteration order of the
  source's map is unspecified; here it is the order of the list, and no theorem depends on it
  beyond what holds for every order.
\<close>

type_synonym ('k, 'v) hashmap = "('k \<times> 'v) list"

definition hm_wf :: "('k, 'v) hashmap \<Rightarrow> bool" where
  "hm_wf m \<longleftrightarrow> distinct (map fst m)"

abbreviation hm_get :: "('k, 'v) hashmap \<Rightarrow> 'k \<Rightarrow> 'v option" where
  "hm_get \<equiv> map_of"

definition hm_insert :: "'k \<Rightarrow> 'v \<Rightarrow> ('k, 'v) hashmap \<Rightarrow> ('k, 'v) hashmap" where
  "hm_insert k v m = AList.update k v m"

definition hm_remove :: "'k \<Rightarrow> ('k, 'v) hashmap \<Rightarrow> ('k, 'v) hashmap" where
  "hm_remove k m = AList.delete k m"

definition hm_contains :: "('k, 'v) hashmap \<Rightarrow> 'k \<Rightarrow> bool" where
  "hm_contains m k = (hm_get m k \<noteq> None)"

definition hm_keys :: "('k, 'v) hashmap \<Rightarrow> 'k list" where
  "hm_keys m = map fst m"

text \<open>\<open>entry(k).or_default()\<close>: the value under \<open>k\<close>, after inserting \<open>d\<close> if there was none.\<close>

definition hm_entry_or :: "'k \<Rightarrow> 'v \<Rightarrow> ('k, 'v) hashmap \<Rightarrow> ('k, 'v) hashmap" where
  "hm_entry_or k d m = (if hm_contains m k then m else hm_insert k d m)"

text \<open>\<open>f(m.entry(k).or_default())\<close>: update the value under \<open>k\<close>, starting from \<open>d\<close> if there is none.\<close>

definition hm_entry_update :: "'k \<Rightarrow> 'v \<Rightarrow> ('v \<Rightarrow> 'v) \<Rightarrow> ('k, 'v) hashmap \<Rightarrow> ('k, 'v) hashmap" where
  "hm_entry_update k d f m = hm_insert k (f (case hm_get m k of None \<Rightarrow> d | Some v \<Rightarrow> v)) m"

lemma hm_wf_Nil [simp, map_simps]: "hm_wf []"
  by (simp add: hm_wf_def)

lemma hm_wf_insert [simp, map_simps]: "hm_wf m \<Longrightarrow> hm_wf (hm_insert k v m)"
  by (simp add: hm_wf_def hm_insert_def distinct_update)

lemma hm_wf_remove [simp, map_simps]: "hm_wf m \<Longrightarrow> hm_wf (hm_remove k m)"
  by (simp add: hm_wf_def hm_remove_def distinct_delete)

lemma hm_wf_entry_or [simp, map_simps]: "hm_wf m \<Longrightarrow> hm_wf (hm_entry_or k d m)"
  by (simp add: hm_entry_or_def)

lemma hm_wf_entry_update [simp, map_simps]: "hm_wf m \<Longrightarrow> hm_wf (hm_entry_update k d f m)"
  by (simp add: hm_entry_update_def)

lemma hm_get_insert [simp, map_simps]: "hm_get (hm_insert k v m) = (hm_get m)(k \<mapsto> v)"
  by (simp add: hm_insert_def update_conv')

lemma hm_get_remove [simp, map_simps]: "hm_get (hm_remove k m) = (hm_get m)(k := None)"
  by (simp add: hm_remove_def delete_conv')

lemma hm_get_entry_or [map_simps]:
  "hm_get (hm_entry_or k d m) = (if hm_get m k = None then (hm_get m)(k \<mapsto> d) else hm_get m)"
  by (simp add: hm_entry_or_def hm_contains_def)

lemma hm_get_entry_update [simp, map_simps]:
  "hm_get (hm_entry_update k d f m) =
     (hm_get m)(k \<mapsto> f (case hm_get m k of None \<Rightarrow> d | Some v \<Rightarrow> v))"
  by (simp add: hm_entry_update_def)

lemma hm_keys_set [simp, map_simps]: "set (hm_keys m) = dom (hm_get m)"
  by (simp add: hm_keys_def dom_map_of_conv_image_fst)

lemma hm_keys_distinct [simp, map_simps]: "hm_wf m \<Longrightarrow> distinct (hm_keys m)"
  by (simp add: hm_keys_def hm_wf_def)

lemma hm_get_Some_in: "hm_wf m \<Longrightarrow> hm_get m k = Some v \<longleftrightarrow> (k, v) \<in> set m"
  by (simp add: hm_wf_def)

lemma hm_fold_insert:
  "hm_get (fold (\<lambda>(k, v). hm_insert k v) kvs m) = hm_get m ++ map_of (rev kvs)"
  by (induction kvs arbitrary: m) (auto simp: map_add_def fun_eq_iff split: option.splits)

lemma hm_wf_fold_insert: "hm_wf m \<Longrightarrow> hm_wf (fold (\<lambda>(k, v). hm_insert k v) kvs m)"
  by (induction kvs arbitrary: m) auto

end
