(* ===== verification/KeyedStore.thy ===== *)
theory KeyedStore
  imports Prelude
begin

text \<open>
  The interface behind \<open>trait Bucket\<close> (wasi-keyvalue), \<open>trait Locker\<close> (wasi-vault) and the
  object operations of \<open>trait Container\<close> (wasi-blobstore): five operations on a keyed
  collection of byte strings, reached through a handle.  A trait object is modelled by the
  record of its methods, which run against the backend's state.  The locale \<open>keyed_store\<close>
  states what an in-memory provider promises about them relative to an abstract map; clients
  are verified inside it once and every provider interprets it.
\<close>

record ('b, 'w) store_ops =
  so_get :: "'b \<Rightarrow> string \<Rightarrow> ('w, anyhow, bytes option) op"
  so_set :: "'b \<Rightarrow> string \<Rightarrow> bytes \<Rightarrow> ('w, anyhow, unit) op"
  so_delete :: "'b \<Rightarrow> string \<Rightarrow> ('w, anyhow, unit) op"
  so_exists :: "'b \<Rightarrow> string \<Rightarrow> ('w, anyhow, bool) op"
  so_keys :: "'b \<Rightarrow> ('w, anyhow, string list) op"

section \<open>Programs over a store and their specification\<close>

datatype store_cmd = CGet string | CSet string bytes | CDelete string | CExists string | CKeys

datatype store_out = OValue "bytes option" | OUnit | OBool bool | OKeys "string list"

definition run_cmd :: "('b, 'w) store_ops \<Rightarrow> 'b \<Rightarrow> store_cmd \<Rightarrow> ('w, anyhow, store_out) op" where
  "run_cmd ops b c = (case c of
      CGet k \<Rightarrow> op_bind (so_get ops b k) (\<lambda>v. op_return (OValue v))
    | CSet k v \<Rightarrow> op_bind (so_set ops b k v) (\<lambda>_. op_return OUnit)
    | CDelete k \<Rightarrow> op_bind (so_delete ops b k) (\<lambda>_. op_return OUnit)
    | CExists k \<Rightarrow> op_bind (so_exists ops b k) (\<lambda>x. op_return (OBool x))
    | CKeys \<Rightarrow> op_bind (so_keys ops b) (\<lambda>ks. op_return (OKeys ks)))"

fun run_cmds :: "('b, 'w) store_ops \<Rightarrow> ('b \<times> store_cmd) list \<Rightarrow> ('w, anyhow, store_out list) op" where
  "run_cmds ops [] = op_return []"
| "run_cmds ops ((b, c) # cs) =
     op_bind (run_cmd ops b c) (\<lambda>out. op_bind (run_cmds ops cs) (\<lambda>outs. op_return (out # outs)))"

text \<open>The same commands on the abstract state: one partial map per collection.\<close>

type_synonym 'i spec_state = "'i \<Rightarrow> string \<Rightarrow> bytes option"

datatype spec_out = SValue "bytes option" | SUnit | SBool bool | SKeys "string set"

fun spec_cmd :: "'i \<Rightarrow> store_cmd \<Rightarrow> 'i spec_state \<Rightarrow> spec_out \<times> 'i spec_state" where
  "spec_cmd i (CGet k) m = (SValue (m i k), m)"
| "spec_cmd i (CSet k v) m = (SUnit, m(i := (m i)(k \<mapsto> v)))"
| "spec_cmd i (CDelete k) m = (SUnit, m(i := (m i)(k := None)))"
| "spec_cmd i (CExists k) m = (SBool (m i k \<noteq> None), m)"
| "spec_cmd i CKeys m = (SKeys (dom (m i)), m)"

fun spec_cmds :: "('i \<times> store_cmd) list \<Rightarrow> 'i spec_state \<Rightarrow> spec_out list \<times> 'i spec_state" where
  "spec_cmds [] m = ([], m)"
| "spec_cmds ((i, c) # cs) m =
     (case spec_cmd i c m of (out, m') \<Rightarrow>
      case spec_cmds cs m' of (outs, m'') \<Rightarrow> (out # outs, m''))"

text \<open>A list of keys stands for the set it enumerates, each key once.\<close>

fun out_matches :: "store_out \<Rightarrow> spec_out \<Rightarrow> bool" where
  "out_matches (OValue v) (SValue v') = (v = v')"
| "out_matches OUnit SUnit = True"
| "out_matches (OBool x) (SBool y) = (x = y)"
| "out_matches (OKeys ks) (SKeys K) = (distinct ks \<and> set ks = K)"
| "out_matches _ _ = False"

section \<open>The contract\<close>

locale keyed_store =
  fixes ops :: "('b, 'w) store_ops"
    and ident :: "'b \<Rightarrow> 'i"
    and view :: "'w \<Rightarrow> 'i \<Rightarrow> string \<Rightarrow> bytes option"
    and wf :: "'w \<Rightarrow> bool"
  assumes get_ok: "wf w \<Longrightarrow> so_get ops b k w = (Inr (view w (ident b) k), w)"
    and exists_ok: "wf w \<Longrightarrow> so_exists ops b k w = (Inr (view w (ident b) k \<noteq> None), w)"
    and keys_ok: "wf w \<Longrightarrow> \<exists>ks. so_keys ops b w = (Inr ks, w) \<and>
                     distinct ks \<and> set ks = dom (view w (ident b))"
    and set_ok: "wf w \<Longrightarrow> \<exists>w'. so_set ops b k v w = (Inr (), w') \<and> wf w' \<and>
                     view w' = (view w)(ident b := (view w (ident b))(k \<mapsto> v))"
    and delete_ok: "wf w \<Longrightarrow> \<exists>w'. so_delete ops b k w = (Inr (), w') \<and> wf w' \<and>
                     view w' = (view w)(ident b := (view w (ident b))(k := None))"
begin

lemma cmd_refines:
  assumes "wf w"
  shows "\<exists>out w'. run_cmd ops b c w = (Inr out, w') \<and> wf w' \<and>
           out_matches out (fst (spec_cmd (ident b) c (view w))) \<and>
           view w' = snd (spec_cmd (ident b) c (view w))"
proof (cases c)
  case (CSet k v)
  with set_ok [OF assms, of b k v] show ?thesis by (auto simp: run_cmd_def)
next
  case (CDelete k)
  with delete_ok [OF assms, of b k] show ?thesis by (auto simp: run_cmd_def)
next
  case CKeys
  with keys_ok [OF assms, of b] assms show ?thesis by (auto simp: run_cmd_def)
qed (use assms in \<open>simp_all add: run_cmd_def get_ok exists_ok\<close>)

text \<open>
  Any program of commands, through any handles, behaves as its specification: it never fails,
  its outputs match and the final state abstracts to the specified one.
\<close>

lemma cmds_refine:
  assumes "wf w"
  shows "\<exists>outs w'. run_cmds ops cs w = (Inr outs, w') \<and> wf w' \<and>
           list_all2 out_matches outs (fst (spec_cmds (map (apfst ident) cs) (view w))) \<and>
           view w' = snd (spec_cmds (map (apfst ident) cs) (view w))"
  using assms
proof (induction cs arbitrary: w)
  case Nil
  then show ?case by simp
next
  case (Cons bc cs)
  obtain b c where bc: "bc = (b, c)" by (cases bc)
  obtain out w1 where 1: "run_cmd ops b c w = (Inr out, w1)" "wf w1"
      "out_matches out (fst (spec_cmd (ident b) c (view w)))"
      "view w1 = snd (spec_cmd (ident b) c (view w))"
    using cmd_refines [OF Cons.prems] by blast
  obtain outs w2 where 2: "run_cmds ops cs w1 = (Inr outs, w2)" "wf w2"
      "list_all2 out_matches outs (fst (spec_cmds (map (apfst ident) cs) (view w1)))"
      "view w2 = snd (spec_cmds (map (apfst ident) cs) (view w1))"
    using Cons.IH [OF 1(2)] by blast
  from 1 2 show ?case by (auto simp: bc split: prod.splits)
qed

lemma get_after_set:
  assumes "wf w" and "so_set ops b k v w = (Inr (), w')" and "ident b' = ident b"
  shows "so_get ops b' k w' = (Inr (Some v), w')"
  using set_ok [OF assms(1), of b k v] assms by (auto simp: get_ok)

lemma get_other_after_set:
  assumes "wf w" and "so_set ops b k v w = (Inr (), w')"
    and "ident b' \<noteq> ident b \<or> k' \<noteq> k"
  shows "fst (so_get ops b' k' w') = fst (so_get ops b' k' w)"
  using set_ok [OF assms(1), of b k v] assms by (auto simp: get_ok)

text \<open>A loop of deletions over a list of keys (\<open>delete_many\<close>, \<open>delete_objects\<close>, \<open>clear\<close>).\<close>

lemma delete_loop:
  assumes "wf w"
  shows "\<exists>w'. op_for (so_delete ops b) ks w = (Inr (), w') \<and> wf w' \<and>
           view w' = (view w)(ident b := (\<lambda>k. if k \<in> set ks then None else view w (ident b) k))"
  using assms
proof (induction ks arbitrary: w)
  case Nil
  then show ?case by (auto simp: fun_eq_iff)
next
  case (Cons k ks)
  obtain w1 where 1: "so_delete ops b k w = (Inr (), w1)" "wf w1"
      "view w1 = (view w)(ident b := (view w (ident b))(k := None))"
    using delete_ok [OF Cons.prems, of b k] by blast
  obtain w2 where 2: "op_for (so_delete ops b) ks w1 = (Inr (), w2)" "wf w2"
      "view w2 = (view w1)(ident b := (\<lambda>x. if x \<in> set ks then None else view w1 (ident b) x))"
    using Cons.IH [OF 1(2)] by blast
  have "view w2 = (view w)(ident b := (\<lambda>x. if x \<in> set (k # ks) then None else view w (ident b) x))"
    by (simp add: 2(3)) (simp add: 1(3) fun_eq_iff)
  moreover have "op_for (so_delete ops b) (k # ks) w = (Inr (), w2)"
    by (simp add: 1(1) 2(1))
  ultimately show ?case using 2(2) by blast
qed

text \<open>A loop of writes over key-value pairs (\<open>set_many\<close>).\<close>

lemma set_loop:
  assumes "wf w"
  shows "\<exists>w'. op_for (\<lambda>(k, v). so_set ops b k v) kvs w = (Inr (), w') \<and> wf w' \<and>
           view w' = (view w)(ident b := view w (ident b) ++ map_of (rev kvs))"
  using assms
proof (induction kvs arbitrary: w)
  case Nil
  then show ?case by (auto simp: fun_eq_iff)
next
  case (Cons kv kvs)
  obtain k v where kv: "kv = (k, v)" by (cases kv)
  obtain w1 where 1: "so_set ops b k v w = (Inr (), w1)" "wf w1"
      "view w1 = (view w)(ident b := (view w (ident b))(k \<mapsto> v))"
    using set_ok [OF Cons.prems, of b k v] by blast
  obtain w2 where 2: "op_for (\<lambda>(k, v). so_set ops b k v) kvs w1 = (Inr (), w2)" "wf w2"
      "view w2 = (view w1)(ident b := view w1 (ident b) ++ map_of (rev kvs))"
    using Cons.IH [OF 1(2)] by blast
  have "view w2 = (view w)(ident b := view w (ident b) ++ map_of (rev (kv # kvs)))"
    by (simp add: kv 1(3) 2(3))
  moreover have "op_for (\<lambda>(k, v). so_set ops b k v) (kv # kvs) w = (Inr (), w2)"
    by (simp add: kv 1(1) 2(1))
  ultimately show ?case using 2(2) by blast
qed

end


end
