(* ===== verification/KeyValueStore.thy ===== *)
theory KeyValueStore
  imports KeyedStore
begin

text \<open>
  wasi-keyvalue, \<open>src/host/default_impl.rs\<close>: the in-memory backend \<open>KeyValueDefault\<close>.  The
  store is \<open>Arc<RwLock<HashMap<String, HashMap<String, Vec<u8>>>>>\<close>, shared by every bucket
  handle; a handle \<open>InMemBucket\<close> is its bucket's name and that shared store, so the state here
  is the store and a handle is the name.
\<close>

type_synonym kv_store = "(string, (string, bytes) hashmap) hashmap"

record in_mem_bucket =
  bk_name :: string

definition kv_connect_with :: "kv_store" where
  "kv_connect_with = []"

definition open_bucket :: "string \<Rightarrow> (kv_store, anyhow, in_mem_bucket) op" where
  "open_bucket identifier store =
     (let bucket = \<lparr>bk_name = identifier\<rparr>;
          store' = hm_entry_or identifier [] store
      in (Inr bucket, store'))"

definition bucket_name :: "in_mem_bucket \<Rightarrow> string" where
  "bucket_name b = bk_name b"

definition bucket_get :: "in_mem_bucket \<Rightarrow> string \<Rightarrow> (kv_store, anyhow, bytes option) op" where
  "bucket_get b key store =
     (Inr (case hm_get store (bk_name b) of None \<Rightarrow> None | Some bucket \<Rightarrow> hm_get bucket key), store)"

definition bucket_set :: "in_mem_bucket \<Rightarrow> string \<Rightarrow> bytes \<Rightarrow> (kv_store, anyhow, unit) op" where
  "bucket_set b key val store =
     (Inr (), hm_entry_update (bk_name b) [] (hm_insert key val) store)"

definition bucket_delete :: "in_mem_bucket \<Rightarrow> string \<Rightarrow> (kv_store, anyhow, unit) op" where
  "bucket_delete b key store =
     (Inr (), case hm_get store (bk_name b) of
        None \<Rightarrow> store
      | Some bucket \<Rightarrow> hm_insert (bk_name b) (hm_remove key bucket) store)"

definition bucket_exists :: "in_mem_bucket \<Rightarrow> string \<Rightarrow> (kv_store, anyhow, bool) op" where
  "bucket_exists b key store =
     (Inr (case hm_get store (bk_name b) of None \<Rightarrow> False | Some bucket \<Rightarrow> hm_contains bucket key), store)"

definition bucket_keys :: "in_mem_bucket \<Rightarrow> (kv_store, anyhow, string list) op" where
  "bucket_keys b store =
     (Inr (case hm_get store (bk_name b) of None \<Rightarrow> [] | Some bucket \<Rightarrow> hm_keys bucket), store)"

definition in_mem_ops :: "(in_mem_bucket, kv_store) store_ops" where
  "in_mem_ops = \<lparr>so_get = bucket_get, so_set = bucket_set, so_delete = bucket_delete,
     so_exists = bucket_exists, so_keys = bucket_keys\<rparr>"

section \<open>Abstraction and invariant\<close>

definition kv_view :: "kv_store \<Rightarrow> string spec_state" where
  "kv_view store name key =
     (case hm_get store name of None \<Rightarrow> None | Some bucket \<Rightarrow> hm_get bucket key)"

definition kv_wf :: "kv_store \<Rightarrow> bool" where
  "kv_wf store \<longleftrightarrow> hm_wf store \<and> (\<forall>name bucket. hm_get store name = Some bucket \<longrightarrow> hm_wf bucket)"

lemma kv_wf_connect: "kv_wf kv_connect_with"
  by (simp add: kv_wf_def kv_connect_with_def)

lemma kv_wf_open: "kv_wf s \<Longrightarrow> kv_wf (snd (open_bucket i s))"
  by (auto simp: kv_wf_def open_bucket_def hm_get_entry_or split: if_splits)

lemma kv_view_open: "kv_view (snd (open_bucket i s)) = kv_view s"
  by (auto simp: kv_view_def open_bucket_def hm_get_entry_or fun_eq_iff split: option.splits)

lemma kv_set_wf: "kv_wf s \<Longrightarrow> kv_wf (hm_entry_update n [] (hm_insert k v) s)"
  by (auto simp: kv_wf_def split: option.splits if_splits)

lemma kv_set_view:
  "kv_view (hm_entry_update n [] (hm_insert k v) s) = (kv_view s)(n := (kv_view s n)(k \<mapsto> v))"
  by (auto simp: kv_view_def fun_eq_iff split: option.splits)

interpretation kv: keyed_store in_mem_ops bk_name kv_view kv_wf
proof
  fix b k v and w :: kv_store
  assume wf: "kv_wf w"
  show "so_get in_mem_ops b k w = (Inr (kv_view w (bk_name b) k), w)"
    by (simp add: in_mem_ops_def bucket_get_def kv_view_def)
  show "so_exists in_mem_ops b k w = (Inr (kv_view w (bk_name b) k \<noteq> None), w)"
    by (simp add: in_mem_ops_def bucket_exists_def kv_view_def hm_contains_def split: option.splits)
  show "\<exists>ks. so_keys in_mem_ops b w = (Inr ks, w) \<and> distinct ks \<and> set ks = dom (kv_view w (bk_name b))"
    using wf by (auto simp: in_mem_ops_def bucket_keys_def kv_view_def kv_wf_def dom_def split: option.splits)
  show "\<exists>w'. so_set in_mem_ops b k v w = (Inr (), w') \<and> kv_wf w' \<and>
          kv_view w' = (kv_view w)(bk_name b := (kv_view w (bk_name b))(k \<mapsto> v))"
    using wf by (simp add: in_mem_ops_def bucket_set_def kv_set_wf kv_set_view)
  show "\<exists>w'. so_delete in_mem_ops b k w = (Inr (), w') \<and> kv_wf w' \<and>
          kv_view w' = (kv_view w)(bk_name b := (kv_view w (bk_name b))(k := None))"
    using wf by (auto simp: in_mem_ops_def bucket_delete_def kv_wf_def kv_view_def fun_eq_iff
        split: option.splits if_splits)
qed

end
