(* ===== verification/ResourceTable.thy ===== *)
theory ResourceTable
  imports Prelude
begin

text \<open>
  The host's side of a guest resource.  Every \<open>Wasi*CtxView\<close> pairs a backend context with
  wasmtime's \<open>ResourceTable\<close>, which maps the guest's integer handles to host values.  The table
  is code of the \<open>wasmtime\<close> crate: it is a parameter of every handler, a record of its three
  operations, and \<open>table_laws\<close> states what its documentation promises about them.

  A table holds values of any type and \<open>table.get::<T>(&h)\<close> fails on a value of another type.
  Here each host declares the type of entries it puts in the table and a projection per type.
  \<open>table.delete\<close> takes the entry out first and looks at its type then: a value that is no entry of
  the host is gone, and the call fails with \<open>WrongType\<close>; that is the result \<open>None\<close>.
\<close>

record ('t, 'e) table_ops =
  t_push :: "'e \<Rightarrow> 't \<Rightarrow> table_error + (nat \<times> 't)"
  t_get :: "nat \<Rightarrow> 't \<Rightarrow> table_error + 'e"
  t_put :: "nat \<Rightarrow> 'e \<Rightarrow> 't \<Rightarrow> 't"   \<comment> \<open>a write through \<open>get_mut\<close>\<close>
  t_delete :: "nat \<Rightarrow> 't \<Rightarrow> table_error + ('e option \<times> 't)"

definition table_laws :: "('t, 'e) table_ops \<Rightarrow> bool" where
  "table_laws T \<longleftrightarrow>
     (\<forall>e t h t'. t_push T e t = Inr (h, t') \<longrightarrow>
        t_get T h t = Inl NotPresent \<and> t_get T h t' = Inr e \<and>
        (\<forall>k. k \<noteq> h \<longrightarrow> t_get T k t' = t_get T k t)) \<and>
     (\<forall>h t x t'. t_delete T h t = Inr (x, t') \<longrightarrow>
        t_get T h t = ok_or WrongType x \<and> t_get T h t' = Inl NotPresent \<and>
        (\<forall>k. k \<noteq> h \<longrightarrow> t_get T k t' = t_get T k t)) \<and>
     (\<forall>h e e' t. t_get T h t = Inr e' \<longrightarrow>
        t_get T h (t_put T h e t) = Inr e \<and>
        (\<forall>k. k \<noteq> h \<longrightarrow> t_get T k (t_put T h e t) = t_get T k t))"

lemma table_push_get:
  assumes "table_laws T" and "t_push T e t = Inr (h, t')"
  shows "t_get T h t' = Inr e" and "t_get T h t = Inl NotPresent"
    and "k \<noteq> h \<Longrightarrow> t_get T k t' = t_get T k t"
  using assms unfolding table_laws_def by blast+

lemma table_push_keeps:
  assumes "table_laws T" and "t_push T e t = Inr (h, t')" and "t_get T k t = Inr x"
  shows "k \<noteq> h" and "t_get T k t' = Inr x"
proof -
  show "k \<noteq> h" using table_push_get(2) [OF assms(1,2)] assms(3) by auto
  then show "t_get T k t' = Inr x" using table_push_get(3) [OF assms(1,2)] assms(3) by simp
qed

lemma table_delete_get:
  assumes "table_laws T" and "t_delete T h t = Inr (x, t')"
  shows "t_get T h t = ok_or WrongType x" and "t_get T h t' = Inl NotPresent"
    and "k \<noteq> h \<Longrightarrow> t_get T k t' = t_get T k t"
  using assms unfolding table_laws_def by blast+

lemma table_put_get:
  assumes "table_laws T" and "t_get T h t = Inr e'"
  shows "t_get T h (t_put T h e t) = Inr e"
    and "k \<noteq> h \<Longrightarrow> t_get T k (t_put T h e t) = t_get T k t"
  using assms unfolding table_laws_def by blast+

text \<open>A table error converted to \<open>anyhow::Error\<close>.\<close>

fun table_anyhow :: "table_error \<Rightarrow> anyhow" where
  "table_anyhow Full = Foreign ''ResourceTableError::Full''"
| "table_anyhow NotPresent = Foreign ''ResourceTableError::NotPresent''"
| "table_anyhow WrongType = Foreign ''ResourceTableError::WrongType''"
| "table_anyhow HasChildren = Foreign ''ResourceTableError::HasChildren''"

section \<open>A context view and operations on its two halves\<close>

record ('w, 't) ctx_view =
  cv_ctx :: 'w
  cv_table :: 't

text \<open>A call into the backend: it runs on the context and leaves the table alone.\<close>

definition on_ctx :: "('w, 'e, 'a) op \<Rightarrow> (('w, 't) ctx_view, 'e, 'a) op" where
  "on_ctx m v = (case m (cv_ctx v) of (r, w) \<Rightarrow> (r, v\<lparr>cv_ctx := w\<rparr>))"

definition push_entry ::
  "('t, 'e) table_ops \<Rightarrow> 'e \<Rightarrow> (('w, 't) ctx_view, table_error, nat) op" where
  "push_entry T e v = (case t_push T e (cv_table v) of
      Inl err \<Rightarrow> (Inl err, v)
    | Inr (h, t) \<Rightarrow> (Inr h, v\<lparr>cv_table := t\<rparr>))"

definition get_entry ::
  "('t, 'e) table_ops \<Rightarrow> ('e \<Rightarrow> 'a option) \<Rightarrow> nat \<Rightarrow> (('w, 't) ctx_view, table_error, 'a) op" where
  "get_entry T proj h v = (case t_get T h (cv_table v) of
      Inl err \<Rightarrow> (Inl err, v)
    | Inr e \<Rightarrow> (case proj e of None \<Rightarrow> (Inl WrongType, v) | Some a \<Rightarrow> (Inr a, v)))"

text \<open>\<open>*table.get_mut(&h)? = \<dots>\<close>: update the entry in place.\<close>

definition update_entry ::
  "('t, 'e) table_ops \<Rightarrow> ('e \<Rightarrow> 'a option) \<Rightarrow> ('a \<Rightarrow> 'e) \<Rightarrow> nat \<Rightarrow> (('w, 't) ctx_view, table_error, unit) op" where
  "update_entry T proj f h v = (case get_entry T proj h v of
      (Inl err, v') \<Rightarrow> (Inl err, v')
    | (Inr a, v') \<Rightarrow> (Inr (), v'\<lparr>cv_table := t_put T h (f a) (cv_table v')\<rparr>))"

text \<open>\<open>table.delete(rep).map(|_| ())\<close>\<close>

definition delete_entry ::
  "('t, 'e) table_ops \<Rightarrow> nat \<Rightarrow> (('w, 't) ctx_view, table_error, unit) op" where
  "delete_entry T h v = (case t_delete T h (cv_table v) of
      Inl err \<Rightarrow> (Inl err, v)
    | Inr (None, t) \<Rightarrow> (Inl WrongType, v\<lparr>cv_table := t\<rparr>)
    | Inr (Some e, t) \<Rightarrow> (Inr (), v\<lparr>cv_table := t\<rparr>))"

lemma cv_ctx_id [simp]: "v\<lparr>cv_ctx := cv_ctx v\<rparr> = v"
  by (cases v) simp

lemma on_ctx_run [simp, op_simps]:
  "m (cv_ctx v) = (r, w) \<Longrightarrow> on_ctx m v = (r, v\<lparr>cv_ctx := w\<rparr>)"
  by (simp add: on_ctx_def)

lemma push_entry_ok [op_simps]:
  "t_push T e (cv_table v) = Inr (h, t) \<Longrightarrow> push_entry T e v = (Inr h, v\<lparr>cv_table := t\<rparr>)"
  by (simp add: push_entry_def)

lemma get_entry_ok [op_simps]:
  "t_get T h (cv_table v) = Inr e \<Longrightarrow> proj e = Some a \<Longrightarrow> get_entry T proj h v = (Inr a, v)"
  by (simp add: get_entry_def)

lemma get_entry_bad: "t_get T h (cv_table v) = Inl e \<Longrightarrow> get_entry T proj h v = (Inl e, v)"
  by (simp add: get_entry_def)

lemma get_entry_state [simp]: "snd (get_entry T proj h v) = v"
  by (simp add: get_entry_def split: sum.splits option.splits)

lemma get_entry_Inr:
  "get_entry T proj h v = (Inr a, v') \<longleftrightarrow>
     v' = v \<and> (\<exists>e. t_get T h (cv_table v) = Inr e \<and> proj e = Some a)"
  by (auto simp: get_entry_def split: sum.splits option.splits)

lemma push_entry_Inr:
  "push_entry T e v = (Inr h, v') \<longleftrightarrow>
     (\<exists>t. t_push T e (cv_table v) = Inr (h, t) \<and> v' = v\<lparr>cv_table := t\<rparr>)"
  by (auto simp: push_entry_def split: sum.splits prod.splits)

lemma on_ctx_Inr:
  "on_ctx m v = (Inr a, v') \<longleftrightarrow> (\<exists>w. m (cv_ctx v) = (Inr a, w) \<and> v' = v\<lparr>cv_ctx := w\<rparr>)"
  by (auto simp: on_ctx_def split: prod.splits)

text \<open>A loop of backend calls.\<close>

lemma op_for_on_ctx:
  assumes "\<And>x. f x = op_map_err g (on_ctx (f' x))"
    and "op_for f' xs (cv_ctx v) = (Inr (), w)"
  shows "op_for f xs v = (Inr (), v\<lparr>cv_ctx := w\<rparr>)"
  using assms(2)
proof (induction xs arbitrary: v)
  case Nil
  then show ?case by (cases v) auto
next
  case (Cons x xs)
  then obtain w1 where 1: "f' x (cv_ctx v) = (Inr (), w1)" "op_for f' xs w1 = (Inr (), w)"
    by (auto simp: op_bind_Inr)
  then have "f x v = (Inr (), v\<lparr>cv_ctx := w1\<rparr>)" by (simp add: assms(1))
  with 1 Cons.IH [of "v\<lparr>cv_ctx := w1\<rparr>"] show ?case by simp
qed

text \<open>Every table operation leaves the backend alone; backend invariants lift through.\<close>

lemma push_entry_ctx [simp]: "cv_ctx (snd (push_entry T e v)) = cv_ctx v"
  by (auto simp: push_entry_def split: sum.splits prod.splits)

lemma delete_entry_ctx [simp]: "cv_ctx (snd (delete_entry T h v)) = cv_ctx v"
  by (auto simp: delete_entry_def split: sum.splits prod.splits option.splits)

lemma update_entry_ctx [simp]: "cv_ctx (snd (update_entry T proj f h v)) = cv_ctx v"
  by (auto simp: update_entry_def get_entry_def split: sum.splits option.splits)

lemma on_ctx_preserves [preserve_intros]:
  "op_preserves P m \<Longrightarrow> op_preserves (\<lambda>v. P (cv_ctx v)) (on_ctx m)"
  by (fastforce simp: op_preserves_def on_ctx_def split: prod.splits)

lemma push_entry_preserves [preserve_intros]: "op_preserves (\<lambda>v. P (cv_ctx v)) (push_entry T e)"
  by (simp add: op_preserves_def)

lemma get_entry_preserves [preserve_intros]: "op_preserves P (get_entry T proj h)"
  by (simp add: op_preserves_def)

lemma delete_entry_preserves [preserve_intros]: "op_preserves (\<lambda>v. P (cv_ctx v)) (delete_entry T h)"
  by (simp add: op_preserves_def)

lemma update_entry_preserves [preserve_intros]:
  "op_preserves (\<lambda>v. P (cv_ctx v)) (update_entry T proj f h)"
  by (simp add: op_preserves_def)

section \<open>A concrete table\<close>

text \<open>
  A table that satisfies the laws, for the witnesses: a list of slots, a handle is an index, a
  push appends and a delete empties its slot.
\<close>

definition slot_get :: "nat \<Rightarrow> 'e option list \<Rightarrow> table_error + 'e" where
  "slot_get h t = (if h < length t then ok_or NotPresent (t ! h) else Inl NotPresent)"

definition slot_table :: "('e option list, 'e) table_ops" where
  "slot_table = \<lparr>
     t_push = (\<lambda>e t. Inr (length t, t @ [Some e])),
     t_get = slot_get,
     t_put = (\<lambda>h e t. t[h := Some e]),
     t_delete = (\<lambda>h t. res_bind (slot_get h t) (\<lambda>e. Inr (Some e, t[h := None]))) \<rparr>"

lemma slot_table_laws: "table_laws slot_table"
  by (auto simp: table_laws_def slot_table_def slot_get_def nth_append nth_list_update
        res_bind_Inr_iff split: if_splits)

end
