(* ===== verification/BigEndian.thy ===== *)
theory BigEndian
  imports Prelude
begin

text \<open>
  Big-endian integers: \<open>i64::from_be_bytes\<close> and \<open>to_be_bytes\<close>, and the eight-byte buffer that
  \<open>increment\<close> fills from a stored value.
\<close>

fun be_digits :: "nat \<Rightarrow> nat \<Rightarrow> bytes" where
  "be_digits 0 n = []"
| "be_digits (Suc k) n = be_digits k (n div 256) @ [of_nat (n mod 256)]"

definition be_value :: "bytes \<Rightarrow> nat" where
  "be_value bs = foldl (\<lambda>acc b. 256 * acc + unat b) 0 bs"

definition i64_from_be_bytes :: "bytes \<Rightarrow> i64" where
  "i64_from_be_bytes bs = of_nat (be_value bs)"

definition i64_to_be_bytes :: "i64 \<Rightarrow> bytes" where
  "i64_to_be_bytes w = be_digits 8 (unat w)"

text \<open>\<open>let mut buf = [0u8; 8]; buf[..len].copy_from_slice(&slice[..len])\<close>\<close>

definition fill_buf8 :: "bytes \<Rightarrow> bytes" where
  "fill_buf8 bs = (let len = min 8 (length bs) in take len bs @ replicate (8 - len) 0)"

lemma be_value_snoc [simp]: "be_value (bs @ [b]) = 256 * be_value bs + unat b"
  by (simp add: be_value_def)

lemma be_value_Nil [simp]: "be_value [] = 0"
  by (simp add: be_value_def)

lemma be_value_append: "be_value (xs @ ys) = be_value xs * 256 ^ length ys + be_value ys"
  by (induction ys rule: rev_induct) (simp_all flip: append_assoc add: algebra_simps)

lemma be_value_replicate0 [simp]: "be_value (replicate n 0) = 0"
  by (induction n) (simp_all add: be_value_def)

lemma length_be_digits [simp]: "length (be_digits k n) = k"
  by (induction k arbitrary: n) auto

lemma be_value_digits: "be_value (be_digits k n) = n mod 256 ^ k"
proof (induction k arbitrary: n)
  case 0
  then show ?case by simp
next
  case (Suc k)
  have "unat (of_nat (n mod 256) :: byte) = n mod 256"
    by (simp add: unat_of_nat)
  with Suc show ?case
    by (simp add: mod_mult2_eq [of n 256 "256 ^ k"])
qed

lemma length_i64_to_be [simp]: "length (i64_to_be_bytes w) = 8"
  by (simp add: i64_to_be_bytes_def)

lemma i64_be_roundtrip [simp]: "i64_from_be_bytes (i64_to_be_bytes w) = w"
proof -
  have "unat w < 2 ^ LENGTH(64)" by (rule unsigned_less)
  then have "unat w < 256 ^ 8" by simp
  then show ?thesis
    by (simp add: i64_from_be_bytes_def i64_to_be_bytes_def be_value_digits)
qed

lemma fill_buf8_full [simp]: "length bs = 8 \<Longrightarrow> fill_buf8 bs = bs"
  by (simp add: fill_buf8_def)

lemma fill_buf8_short:
  "length bs \<le> 8 \<Longrightarrow> be_value (fill_buf8 bs) = be_value bs * 256 ^ (8 - length bs)"
  by (simp add: fill_buf8_def be_value_append Let_def min_def)

lemma fill_buf8_long: "8 \<le> length bs \<Longrightarrow> fill_buf8 bs = take 8 bs"
  by (simp add: fill_buf8_def)

end
