(* ===== verification/KeyValueHost.thy ===== *)
theory KeyValueHost
  imports KeyValueStore ResourceTable BigEndian
begin

text \<open>
  wasi-keyvalue, \<open>src/host/\<close>: the handlers of the \<open>store\<close>, \<open>atomics\<close> and \<open>batch\<close> interfaces
  (\<open>store_impl.rs\<close>, \<open>atomics_impl.rs\<close>, \<open>batch_impl.rs\<close>).  A handler resolves the guest's handle
  in the resource table, clones the bucket proxy and calls the backend through \<open>trait Bucket\<close>
  (the record \<open>store_ops\<close>); it is verified in the locale \<open>keyed_store\<close>, for every backend that
  keeps the contract, and instantiated with the in-memory backend.
\<close>

section \<open>Errors, handles and conversions\<close>

datatype kv_error = KvNoSuchStore | KvAccessDenied | KvOther cause

record cas_handle =
  cas_key :: string
  cas_current :: "bytes option"

datatype 'b kv_entry = EBucket 'b | ECas cas_handle

fun as_bucket :: "'b kv_entry \<Rightarrow> 'b option" where
  "as_bucket (EBucket b) = Some b"
| "as_bucket (ECas c) = None"

fun as_cas :: "'b kv_entry \<Rightarrow> cas_handle option" where
  "as_cas (EBucket b) = None"
| "as_cas (ECas c) = Some c"

definition kv_from_anyhow :: "anyhow \<Rightarrow> kv_error" where
  "kv_from_anyhow err = KvOther (Of_anyhow err)"

definition kv_from_table :: "table_error \<Rightarrow> kv_error" where
  "kv_from_table err = KvOther (Of_table err)"

text \<open>\<open>bucket.op(\<dots>).await.context(msg)?\<close> and \<open>bucket.op(\<dots>).await?\<close>\<close>

definition kv_call :: "('w, anyhow, 'a) op \<Rightarrow> (('w, 't) ctx_view, kv_error, 'a) op" where
  "kv_call m = op_map_err kv_from_anyhow (on_ctx m)"

definition kv_call_ctx :: "string \<Rightarrow> ('w, anyhow, 'a) op \<Rightarrow> (('w, 't) ctx_view, kv_error, 'a) op" where
  "kv_call_ctx msg m = op_map_err (\<lambda>e. kv_from_anyhow (Context msg e)) (on_ctx m)"

section \<open>The store interface\<close>

definition get_bucket ::
  "('t, 'b kv_entry) table_ops \<Rightarrow> nat \<Rightarrow> (('w, 't) ctx_view, kv_error, 'b) op" where
  "get_bucket T self = op_map_err (\<lambda>_. KvNoSuchStore) (get_entry T as_bucket self)"

definition host_open ::
  "('t, 'b kv_entry) table_ops \<Rightarrow> (string \<Rightarrow> ('w, anyhow, 'b) op) \<Rightarrow> string
    \<Rightarrow> (('w, 't) ctx_view, kv_error, nat) op" where
  "host_open T opn identifier =
     op_bind (kv_call (opn identifier)) (\<lambda>bucket.
     op_map_err kv_from_table (push_entry T (EBucket bucket)))"

definition host_get ::
  "('t, 'b kv_entry) table_ops \<Rightarrow> ('b, 'w) store_ops \<Rightarrow> nat \<Rightarrow> string
    \<Rightarrow> (('w, 't) ctx_view, kv_error, bytes option) op" where
  "host_get T ops self key =
     op_bind (get_bucket T self) (\<lambda>bucket.
     kv_call_ctx ''issue getting value'' (so_get ops bucket key))"

definition host_set ::
  "('t, 'b kv_entry) table_ops \<Rightarrow> ('b, 'w) store_ops \<Rightarrow> nat \<Rightarrow> string \<Rightarrow> bytes
    \<Rightarrow> (('w, 't) ctx_view, kv_error, unit) op" where
  "host_set T ops self key val =
     op_bind (get_bucket T self) (\<lambda>bucket.
     kv_call_ctx ''issue setting value'' (so_set ops bucket key val))"

definition host_delete ::
  "('t, 'b kv_entry) table_ops \<Rightarrow> ('b, 'w) store_ops \<Rightarrow> nat \<Rightarrow> string
    \<Rightarrow> (('w, 't) ctx_view, kv_error, unit) op" where
  "host_delete T ops self key =
     op_bind (get_bucket T self) (\<lambda>bucket.
     kv_call_ctx ''issue deleting value'' (so_delete ops bucket key))"

definition host_exists ::
  "('t, 'b kv_entry) table_ops \<Rightarrow> ('b, 'w) store_ops \<Rightarrow> nat \<Rightarrow> string
    \<Rightarrow> (('w, 't) ctx_view, kv_error, bool) op" where
  "host_exists T ops self key =
     op_bind (get_bucket T self) (\<lambda>bucket.
     op_bind (kv_call_ctx ''issue getting value'' (so_get ops bucket key)) (\<lambda>val.
     op_return (val \<noteq> None)))"

record key_response =
  kr_keys :: "string list"
  kr_cursor :: "string option"

definition host_list_keys ::
  "('t, 'b kv_entry) table_ops \<Rightarrow> ('b, 'w) store_ops \<Rightarrow> nat \<Rightarrow> string option
    \<Rightarrow> (('w, 't) ctx_view, kv_error, key_response) op" where
  "host_list_keys T ops self cursor =
     op_bind (get_bucket T self) (\<lambda>bucket.
     op_bind (kv_call_ctx ''issue getting value'' (so_keys ops bucket)) (\<lambda>keys.
     op_return \<lparr>kr_keys = keys, kr_cursor = cursor\<rparr>))"

definition host_drop_bucket ::
  "('t, 'b kv_entry) table_ops \<Rightarrow> nat \<Rightarrow> (('w, 't) ctx_view, cause, unit) op" where
  "host_drop_bucket T rep = op_map_err Of_table (delete_entry T rep)"

section \<open>The batch interface\<close>

fun get_many_loop ::
  "('b, 'w) store_ops \<Rightarrow> 'b \<Rightarrow> string list \<Rightarrow> (string \<times> bytes) option list
    \<Rightarrow> (('w, 't) ctx_view, kv_error, (string \<times> bytes) option list) op" where
  "get_many_loop ops bucket [] many = op_return many"
| "get_many_loop ops bucket (key # keys) many =
     op_bind (kv_call (so_get ops bucket key)) (\<lambda>r.
     case r of
       Some val \<Rightarrow> get_many_loop ops bucket keys (many @ [Some (key, val)])
     | None \<Rightarrow> get_many_loop ops bucket keys many)"

definition host_get_many ::
  "('t, 'b kv_entry) table_ops \<Rightarrow> ('b, 'w) store_ops \<Rightarrow> nat \<Rightarrow> string list
    \<Rightarrow> (('w, 't) ctx_view, kv_error, (string \<times> bytes) option list) op" where
  "host_get_many T ops self keys =
     op_bind (get_bucket T self) (\<lambda>bucket. get_many_loop ops bucket keys [])"

definition host_set_many ::
  "('t, 'b kv_entry) table_ops \<Rightarrow> ('b, 'w) store_ops \<Rightarrow> nat \<Rightarrow> (string \<times> bytes) list
    \<Rightarrow> (('w, 't) ctx_view, kv_error, unit) op" where
  "host_set_many T ops self key_values =
     op_bind (get_bucket T self) (\<lambda>bucket.
     op_for (\<lambda>(key, val). kv_call (so_set ops bucket key val)) key_values)"

definition host_delete_many ::
  "('t, 'b kv_entry) table_ops \<Rightarrow> ('b, 'w) store_ops \<Rightarrow> nat \<Rightarrow> string list
    \<Rightarrow> (('w, 't) ctx_view, kv_error, unit) op" where
  "host_delete_many T ops self keys =
     op_bind (get_bucket T self) (\<lambda>bucket.
     op_for (\<lambda>key. op_map_err
         (\<lambda>e. kv_from_anyhow (Anyhow (''issue deleting value: '' @ anyhow_display e)))
         (on_ctx (so_delete ops bucket key))) keys)"

section \<open>The atomics interface\<close>

text \<open>
  The value read is scaled into an eight-byte buffer; the addition wraps (release builds have
  no overflow checks; a debug build panics where the sum leaves the range of \<open>i64\<close>).
\<close>

definition incremented :: "bytes \<Rightarrow> i64 \<Rightarrow> i64" where
  "incremented val delta = i64_from_be_bytes (fill_buf8 val) + delta"

definition host_increment ::
  "('t, 'b kv_entry) table_ops \<Rightarrow> ('b, 'w) store_ops \<Rightarrow> nat \<Rightarrow> string \<Rightarrow> i64
    \<Rightarrow> (('w, 't) ctx_view, kv_error, i64) op" where
  "host_increment T ops self key delta =
     op_bind (get_bucket T self) (\<lambda>bucket.
     op_try (on_ctx (so_get ops bucket key)) (\<lambda>r.
     case r of
       Inr (Some val) \<Rightarrow>
         (let inc = incremented val delta
          in op_bind
               (op_map_err
                 (\<lambda>e. kv_from_anyhow (Anyhow (''issue saving increment: '' @ anyhow_display e)))
                 (on_ctx (so_set ops bucket key (i64_to_be_bytes inc))))
               (\<lambda>_. op_return inc))
     | _ \<Rightarrow> op_fail (kv_from_anyhow (Anyhow (''no value for '' @ key)))))"

definition cas_swap :: "nat \<Rightarrow> bytes \<Rightarrow> (('w, 't) ctx_view, anyhow, unit) op" where
  "cas_swap self val = op_fail (Anyhow ''not implemented'')"

definition cas_new ::
  "('t, 'b kv_entry) table_ops \<Rightarrow> ('b, 'w) store_ops \<Rightarrow> nat \<Rightarrow> string
    \<Rightarrow> (('w, 't) ctx_view, kv_error, nat) op" where
  "cas_new T ops self key =
     op_bind (get_bucket T self) (\<lambda>bucket.
     op_bind (kv_call_ctx ''issue getting key'' (so_get ops bucket key)) (\<lambda>current.
     op_map_err kv_from_table (push_entry T (ECas \<lparr>cas_key = key, cas_current = current\<rparr>))))"

definition cas_current_of ::
  "('t, 'b kv_entry) table_ops \<Rightarrow> nat \<Rightarrow> (('w, 't) ctx_view, kv_error, bytes option) op" where
  "cas_current_of T self =
     op_bind (op_map_err (\<lambda>_. KvNoSuchStore) (get_entry T as_cas self)) (\<lambda>cas.
     op_return (cas_current cas))"

definition cas_drop ::
  "('t, 'b kv_entry) table_ops \<Rightarrow> nat \<Rightarrow> (('w, 't) ctx_view, cause, unit) op" where
  "cas_drop T rep = op_map_err Of_table (delete_entry T rep)"

lemmas kv_call_defs = kv_call_def kv_call_ctx_def

section \<open>Guest calls\<close>

text \<open>The calls a guest makes on bucket handles, and what it sees of each.\<close>

datatype guest_call =
    KGet nat string
  | KSet nat string bytes
  | KDelete nat string
  | KExists nat string
  | KList nat "string option"
  | KGetMany nat "string list"
  | KSetMany nat "(string \<times> bytes) list"
  | KDeleteMany nat "string list"
  | KIncrement nat string i64

datatype guest_out =
    GoValue "bytes option"
  | GoUnit
  | GoBool bool
  | GoKeys "string list" "string option"
  | GoMany "(string \<times> bytes) option list"
  | GoInt i64

definition op_fmap :: "('a \<Rightarrow> 'b) \<Rightarrow> ('s, 'e, 'a) op \<Rightarrow> ('s, 'e, 'b) op" where
  "op_fmap f m = op_bind m (\<lambda>a. op_return (f a))"

fun guest_step ::
  "('t, 'b kv_entry) table_ops \<Rightarrow> ('b, 'w) store_ops \<Rightarrow> guest_call
    \<Rightarrow> (('w, 't) ctx_view, kv_error, guest_out) op" where
  "guest_step T ops (KGet h k) = op_fmap GoValue (host_get T ops h k)"
| "guest_step T ops (KSet h k x) = op_fmap (\<lambda>_. GoUnit) (host_set T ops h k x)"
| "guest_step T ops (KDelete h k) = op_fmap (\<lambda>_. GoUnit) (host_delete T ops h k)"
| "guest_step T ops (KExists h k) = op_fmap GoBool (host_exists T ops h k)"
| "guest_step T ops (KList h c) =
     op_fmap (\<lambda>r. GoKeys (kr_keys r) (kr_cursor r)) (host_list_keys T ops h c)"
| "guest_step T ops (KGetMany h ks) = op_fmap GoMany (host_get_many T ops h ks)"
| "guest_step T ops (KSetMany h kvs) = op_fmap (\<lambda>_. GoUnit) (host_set_many T ops h kvs)"
| "guest_step T ops (KDeleteMany h ks) = op_fmap (\<lambda>_. GoUnit) (host_delete_many T ops h ks)"
| "guest_step T ops (KIncrement h k d) = op_fmap GoInt (host_increment T ops h k d)"

text \<open>A guest goes on after an error, so a run collects the result of every call.\<close>

fun guest_run ::
  "('t, 'b kv_entry) table_ops \<Rightarrow> ('b, 'w) store_ops \<Rightarrow> guest_call list
    \<Rightarrow> ('w, 't) ctx_view \<Rightarrow> (kv_error + guest_out) list \<times> ('w, 't) ctx_view" where
  "guest_run T ops [] v = ([], v)"
| "guest_run T ops (c # cs) v =
     (case guest_step T ops c v of (r, v1) \<Rightarrow>
      case guest_run T ops cs v1 of (rs, v2) \<Rightarrow> (r # rs, v2))"

section \<open>Specification of the guest calls\<close>

text \<open>
  Which collection a handle names, and what each call does to the abstract collections
  (\<open>spec_state\<close>).  Keys are enumerated in some order.
\<close>

definition handle_of ::
  "('t, 'b kv_entry) table_ops \<Rightarrow> ('b \<Rightarrow> 'i) \<Rightarrow> 't \<Rightarrow> nat \<Rightarrow> 'i option" where
  "handle_of T ident t h = (case t_get T h t of Inr (EBucket b) \<Rightarrow> Some (ident b) | _ \<Rightarrow> None)"

fun call_handle :: "guest_call \<Rightarrow> nat" where
  "call_handle (KGet h k) = h"
| "call_handle (KSet h k x) = h"
| "call_handle (KDelete h k) = h"
| "call_handle (KExists h k) = h"
| "call_handle (KList h c) = h"
| "call_handle (KGetMany h ks) = h"
| "call_handle (KSetMany h kvs) = h"
| "call_handle (KDeleteMany h ks) = h"
| "call_handle (KIncrement h k d) = h"

definition present :: "(string \<Rightarrow> bytes option) \<Rightarrow> string list \<Rightarrow> (string \<times> bytes) option list" where
  "present m ks = [Some (k, the (m k)). k \<leftarrow> ks, m k \<noteq> None]"

fun call_effect :: "guest_call \<Rightarrow> (string \<Rightarrow> bytes option) \<Rightarrow> (string \<Rightarrow> bytes option)" where
  "call_effect (KSet h k x) m = m(k \<mapsto> x)"
| "call_effect (KDelete h k) m = m(k := None)"
| "call_effect (KSetMany h kvs) m = m ++ map_of (rev kvs)"
| "call_effect (KDeleteMany h ks) m = (\<lambda>k. if k \<in> set ks then None else m k)"
| "call_effect (KIncrement h k d) m =
     (case m k of None \<Rightarrow> m | Some x \<Rightarrow> m(k \<mapsto> i64_to_be_bytes (incremented x d)))"
| "call_effect _ m = m"

fun call_result :: "guest_call \<Rightarrow> (string \<Rightarrow> bytes option) \<Rightarrow> kv_error + guest_out \<Rightarrow> bool" where
  "call_result (KGet h k) m r = (r = Inr (GoValue (m k)))"
| "call_result (KExists h k) m r = (r = Inr (GoBool (m k \<noteq> None)))"
| "call_result (KList h c) m r = (\<exists>ks. r = Inr (GoKeys ks c) \<and> distinct ks \<and> set ks = dom m)"
| "call_result (KGetMany h ks) m r = (r = Inr (GoMany (present m ks)))"
| "call_result (KIncrement h k d) m r =
     (r = (case m k of
        None \<Rightarrow> Inl (kv_from_anyhow (Anyhow (''no value for '' @ k)))
      | Some x \<Rightarrow> Inr (GoInt (incremented x d))))"
| "call_result _ m r = (r = Inr GoUnit)"

text \<open>
  The transitions of the specification: a call on a handle that names no bucket fails with
  \<open>NoSuchStore\<close> and changes nothing; any other acts on its bucket alone.
\<close>

inductive spec_step ::
  "(nat \<Rightarrow> 'i option) \<Rightarrow> guest_call \<Rightarrow> 'i spec_state \<Rightarrow> kv_error + guest_out \<Rightarrow> 'i spec_state \<Rightarrow> bool"
  for H where
  no_store: "H (call_handle c) = None \<Longrightarrow> spec_step H c m (Inl KvNoSuchStore) m"
| on_store: "H (call_handle c) = Some i \<Longrightarrow> call_result c (m i) r
    \<Longrightarrow> spec_step H c m r (m(i := call_effect c (m i)))"

inductive spec_run ::
  "(nat \<Rightarrow> 'i option) \<Rightarrow> guest_call list \<Rightarrow> 'i spec_state \<Rightarrow> (kv_error + guest_out) list
    \<Rightarrow> 'i spec_state \<Rightarrow> bool"
  for H where
  run_nil: "spec_run H [] m [] m"
| run_cons: "spec_step H c m r m' \<Longrightarrow> spec_run H cs m' rs m''
    \<Longrightarrow> spec_run H (c # cs) m (r # rs) m''"

text \<open>The partial sums that a sequence of increments returns.\<close>

fun running :: "i64 \<Rightarrow> i64 list \<Rightarrow> i64 list" where
  "running x [] = []"
| "running x (d # ds) = (x + d) # running (x + d) ds"

inductive_simps spec_run_Nil [simp]: "spec_run H [] m rs m'"
inductive_simps spec_run_Cons: "spec_run H (c # cs) m rs m'"

section \<open>The handlers meet their specification over any conforming backend\<close>

lemma present_Cons:
  "present m (k # ks) = (case m k of None \<Rightarrow> present m ks | Some x \<Rightarrow> Some (k, x) # present m ks)"
  by (auto simp: present_def split: option.splits)

lemma get_bucket_ok:
  "t_get T h (cv_table v) = Inr (EBucket b) \<Longrightarrow> get_bucket T h v = (Inr b, v)"
  by (simp add: get_bucket_def get_entry_def)

lemma get_bucket_none:
  "handle_of T ident (cv_table v) h = None \<Longrightarrow> get_bucket T h v = (Inl KvNoSuchStore, v)"
  by (auto simp: handle_of_def get_bucket_def get_entry_def op_map_err_def
      split: sum.splits kv_entry.splits)

lemma handle_of_Some:
  "handle_of T ident t h = Some i \<longleftrightarrow> (\<exists>b. t_get T h t = Inr (EBucket b) \<and> ident b = i)"
  by (auto simp: handle_of_def split: sum.splits kv_entry.splits)

lemma guest_step_no_store:
  assumes "handle_of T ident (cv_table v) (call_handle c) = None"
  shows "guest_step T ops c v = (Inl KvNoSuchStore, v)"
  using get_bucket_none [OF assms]
  by (cases c) (simp_all add: op_fmap_def host_get_def host_set_def host_delete_def host_exists_def
      host_list_keys_def host_get_many_def host_set_many_def host_delete_many_def host_increment_def)

context keyed_store
begin

lemma get_many_ok:
  assumes "wf (cv_ctx v)"
  shows "get_many_loop ops b ks many v = (Inr (many @ present (view (cv_ctx v) (ident b)) ks), v)"
proof (induction ks arbitrary: many)
  case Nil
  then show ?case by (simp add: present_def)
next
  case (Cons k ks)
  then show ?case
    by (simp add: kv_call_def get_ok [OF assms] present_Cons split: option.splits)
qed

lemma view_keep: "(view w)(i := view w i) = view w"
  by simp

lemma guest_step_reads:
  assumes "wf (cv_ctx v)" and "t_get T h (cv_table v) = Inr (EBucket b)"
  shows "guest_step T ops (KGet h k) v = (Inr (GoValue (view (cv_ctx v) (ident b) k)), v)"
    and "guest_step T ops (KExists h k) v = (Inr (GoBool (view (cv_ctx v) (ident b) k \<noteq> None)), v)"
    and "guest_step T ops (KGetMany h ks) v = (Inr (GoMany (present (view (cv_ctx v) (ident b)) ks)), v)"
    and "\<exists>keys. guest_step T ops (KList h c) v = (Inr (GoKeys keys c), v) \<and>
           distinct keys \<and> set keys = dom (view (cv_ctx v) (ident b))"
proof -
  note bucket = get_bucket_ok [OF assms(2)] and get = get_ok [OF assms(1), of b]
  show "guest_step T ops (KGet h k) v = (Inr (GoValue (view (cv_ctx v) (ident b) k)), v)"
    by (simp add: host_get_def kv_call_ctx_def op_fmap_def bucket get)
  show "guest_step T ops (KExists h k) v = (Inr (GoBool (view (cv_ctx v) (ident b) k \<noteq> None)), v)"
    by (simp add: host_exists_def kv_call_ctx_def op_fmap_def bucket get)
  show "guest_step T ops (KGetMany h ks) v = (Inr (GoMany (present (view (cv_ctx v) (ident b)) ks)), v)"
    by (simp add: host_get_many_def op_fmap_def bucket get_many_ok [OF assms(1)])
  obtain keys where "so_keys ops b (cv_ctx v) = (Inr keys, cv_ctx v)" "distinct keys"
      "set keys = dom (view (cv_ctx v) (ident b))"
    using keys_ok [OF assms(1), of b] by blast
  then show "\<exists>keys. guest_step T ops (KList h c) v = (Inr (GoKeys keys c), v) \<and>
           distinct keys \<and> set keys = dom (view (cv_ctx v) (ident b))"
    by (simp add: host_list_keys_def kv_call_ctx_def op_fmap_def bucket)
qed

text \<open>What a call that may write does: it succeeds, and one collection of the view changes.\<close>

definition writes ::
  "(('w, 't) ctx_view, kv_error, guest_out) op \<Rightarrow> ('w, 't) ctx_view \<Rightarrow> 'b
    \<Rightarrow> guest_out \<Rightarrow> (string \<Rightarrow> bytes option) \<Rightarrow> bool" where
  "writes m v b out f \<longleftrightarrow>
     (\<exists>w. m v = (Inr out, v\<lparr>cv_ctx := w\<rparr>) \<and> wf w \<and> view w = (view (cv_ctx v))(ident b := f))"

lemma writesI:
  "m v = (Inr out, v\<lparr>cv_ctx := w\<rparr>) \<Longrightarrow> wf w \<Longrightarrow> view w = (view (cv_ctx v))(ident b := f)
    \<Longrightarrow> writes m v b out f"
  by (auto simp: writes_def)

lemma guest_step_writes:
  assumes "wf (cv_ctx v)" and "t_get T h (cv_table v) = Inr (EBucket b)"
  defines "m \<equiv> view (cv_ctx v) (ident b)"
  shows "writes (guest_step T ops (KSet h k x)) v b GoUnit (m(k \<mapsto> x))"
    and "writes (guest_step T ops (KDelete h k)) v b GoUnit (m(k := None))"
    and "writes (guest_step T ops (KSetMany h kvs)) v b GoUnit (m ++ map_of (rev kvs))"
    and "writes (guest_step T ops (KDeleteMany h ks)) v b GoUnit (\<lambda>k. if k \<in> set ks then None else m k)"
    and "m k = Some y \<Longrightarrow> writes (guest_step T ops (KIncrement h k d)) v b (GoInt (incremented y d))
           (m(k \<mapsto> i64_to_be_bytes (incremented y d)))"
proof -
  note bucket = get_bucket_ok [OF assms(2)]
  show "writes (guest_step T ops (KSet h k x)) v b GoUnit (m(k \<mapsto> x))"
    using set_ok [OF assms(1), of b k x]
    by (auto simp: writes_def host_set_def kv_call_ctx_def op_fmap_def bucket m_def)
  show "writes (guest_step T ops (KDelete h k)) v b GoUnit (m(k := None))"
    using delete_ok [OF assms(1), of b k]
    by (auto simp: writes_def host_delete_def kv_call_ctx_def op_fmap_def bucket m_def)
  obtain w where w: "op_for (\<lambda>(k, v). so_set ops b k v) kvs (cv_ctx v) = (Inr (), w)" "wf w"
      "view w = (view (cv_ctx v))(ident b := m ++ map_of (rev kvs))"
    using set_loop [OF assms(1), of b kvs] unfolding m_def by blast
  have "op_for (\<lambda>(key, val). kv_call (so_set ops b key val)) kvs v = (Inr (), v\<lparr>cv_ctx := w\<rparr>)"
    by (rule op_for_on_ctx [OF _ w(1)]) (auto simp: kv_call_def)
  then show "writes (guest_step T ops (KSetMany h kvs)) v b GoUnit (m ++ map_of (rev kvs))"
    by (intro writesI [OF _ w(2,3)]) (simp add: host_set_many_def op_fmap_def bucket)
  obtain u where u: "op_for (so_delete ops b) ks (cv_ctx v) = (Inr (), u)" "wf u"
      "view u = (view (cv_ctx v))(ident b := (\<lambda>k. if k \<in> set ks then None else m k))"
    using delete_loop [OF assms(1), of b ks] unfolding m_def by blast
  have "op_for (\<lambda>key. op_map_err
         (\<lambda>e. kv_from_anyhow (Anyhow (''issue deleting value: '' @ anyhow_display e)))
         (on_ctx (so_delete ops b key))) ks v = (Inr (), v\<lparr>cv_ctx := u\<rparr>)"
    by (rule op_for_on_ctx [OF _ u(1)]) simp
  then show "writes (guest_step T ops (KDeleteMany h ks)) v b GoUnit
      (\<lambda>k. if k \<in> set ks then None else m k)"
    by (intro writesI [OF _ u(2,3)]) (simp add: host_delete_many_def op_fmap_def bucket)
  assume "m k = Some y"
  then show "writes (guest_step T ops (KIncrement h k d)) v b (GoInt (incremented y d))
           (m(k \<mapsto> i64_to_be_bytes (incremented y d)))"
    using set_ok [OF assms(1), of b k "i64_to_be_bytes (incremented y d)"]
    by (auto simp: writes_def host_increment_def op_fmap_def bucket m_def Let_def get_ok [OF assms(1)])
qed

lemma guest_step_ok:
  assumes "wf (cv_ctx v)" and "t_get T (call_handle c) (cv_table v) = Inr (EBucket b)"
  defines "m \<equiv> view (cv_ctx v) (ident b)"
  shows "\<exists>r w. guest_step T ops c v = (r, v\<lparr>cv_ctx := w\<rparr>) \<and> wf w \<and> call_result c m r \<and>
           view w = (view (cv_ctx v))(ident b := call_effect c m)"
proof -
  note reads = guest_step_reads [OF assms(1)] and writes = guest_step_writes [OF assms(1)]
  have keep: "\<exists>r w. guest_step T ops c v = (r, v\<lparr>cv_ctx := w\<rparr>) \<and> wf w \<and> call_result c m r \<and>
           view w = (view (cv_ctx v))(ident b := call_effect c m)"
    if "guest_step T ops c v = (r, v)" "call_result c m r" "call_effect c m = m" for r
    using that assms by (intro exI [of _ r] exI [of _ "cv_ctx v"]) simp
  have change: "\<exists>r w. guest_step T ops c v = (r, v\<lparr>cv_ctx := w\<rparr>) \<and> wf w \<and> call_result c m r \<and>
           view w = (view (cv_ctx v))(ident b := call_effect c m)"
    if "writes (guest_step T ops c) v b out (call_effect c m)" "call_result c m (Inr out)" for out
    using that by (auto simp: writes_def)
  show ?thesis
  proof (cases c)
    case (KGet h k)
    show ?thesis
      by (rule keep) (use assms reads(1) [of T h b k] KGet in simp_all)
  next
    case (KExists h k)
    show ?thesis
      by (rule keep) (use assms reads(2) [of T h b k] KExists in simp_all)
  next
    case (KGetMany h ks)
    show ?thesis
      by (rule keep) (use assms reads(3) [of T h b ks] KGetMany in simp_all)
  next
    case (KList h cur)
    with reads(4) [of T h b cur] assms obtain keys where keys:
      "guest_step T ops (KList h cur) v = (Inr (GoKeys keys cur), v)"
      "distinct keys" "set keys = dom m" by auto
    show ?thesis
      by (rule keep) (use keys KList in auto)
  next
    case (KSet h k x)
    show ?thesis
      by (rule change) (use assms writes(1) [of T h b k x] KSet in simp_all)
  next
    case (KDelete h k)
    show ?thesis
      by (rule change) (use assms writes(2) [of T h b k] KDelete in simp_all)
  next
    case (KSetMany h kvs)
    show ?thesis
      by (rule change) (use assms writes(3) [of T h b kvs] KSetMany in simp_all)
  next
    case (KDeleteMany h ks)
    show ?thesis
      by (rule change) (use assms writes(4) [of T h b ks] KDeleteMany in simp_all)
  next
    case (KIncrement h k d)
    show ?thesis
    proof (cases "m k")
      case None
      have "guest_step T ops c v = (Inl (kv_from_anyhow (Anyhow (''no value for '' @ k))), v)"
        using None assms KIncrement
        by (simp add: host_increment_def op_fmap_def get_bucket_ok get_ok)
      with None KIncrement show ?thesis by (intro keep) simp_all
    next
      case (Some y)
      show ?thesis
        by (rule change) (use assms writes(5) [of T h b k y d] Some KIncrement in simp_all)
    qed
  qed
qed

lemma guest_step_refines:
  assumes "wf (cv_ctx v)"
  shows "\<exists>r w. guest_step T ops c v = (r, v\<lparr>cv_ctx := w\<rparr>) \<and> wf w \<and>
           spec_step (handle_of T ident (cv_table v)) c (view (cv_ctx v)) r (view w)"
proof (cases "handle_of T ident (cv_table v) (call_handle c)")
  case None
  then show ?thesis
    using assms guest_step_no_store [OF None] by (intro exI [of _ "cv_ctx v"] exI) (auto intro: no_store)
next
  case (Some i)
  then obtain b where b: "t_get T (call_handle c) (cv_table v) = Inr (EBucket b)" "ident b = i"
    by (auto simp: handle_of_Some)
  with guest_step_ok [OF assms b(1)] on_store [of "handle_of T ident (cv_table v)" c, OF Some]
  show ?thesis by fastforce
qed

lemma guest_run_refines:
  assumes "wf (cv_ctx v)"
  shows "\<exists>rs w. guest_run T ops cs v = (rs, v\<lparr>cv_ctx := w\<rparr>) \<and> wf w \<and>
           spec_run (handle_of T ident (cv_table v)) cs (view (cv_ctx v)) rs (view w)"
  using assms
proof (induction cs arbitrary: v)
  case Nil
  then show ?case by (auto intro!: exI [of _ "cv_ctx v"])
next
  case (Cons c cs)
  obtain r w where 1: "guest_step T ops c v = (r, v\<lparr>cv_ctx := w\<rparr>)" "wf w"
      "spec_step (handle_of T ident (cv_table v)) c (view (cv_ctx v)) r (view w)"
    using guest_step_refines [OF Cons.prems] by blast
  obtain rs u where 2: "guest_run T ops cs (v\<lparr>cv_ctx := w\<rparr>) = (rs, v\<lparr>cv_ctx := u\<rparr>)" "wf u"
      "spec_run (handle_of T ident (cv_table v)) cs (view w) rs (view u)"
    using Cons.IH [of "v\<lparr>cv_ctx := w\<rparr>"] 1(2) by auto
  show ?case
    using 1 2 by (intro exI [of _ "r # rs"] exI [of _ u]) (auto intro: run_cons)
qed

lemma counter_run:
  assumes "wf (cv_ctx v)" and "t_get T h (cv_table v) = Inr (EBucket b)"
    and "view (cv_ctx v) (ident b) k = Some (i64_to_be_bytes x)"
  shows "\<exists>w. guest_run T ops (map (KIncrement h k) ds) v =
             (map (\<lambda>y. Inr (GoInt y)) (running x ds), v\<lparr>cv_ctx := w\<rparr>) \<and> wf w \<and>
           view w = (view (cv_ctx v))(ident b := (view (cv_ctx v) (ident b))
             (k \<mapsto> i64_to_be_bytes (x + sum_list ds)))"
  using assms
proof (induction ds arbitrary: v x)
  case Nil
  then show ?case by (intro exI [of _ "cv_ctx v"]) (simp add: fun_upd_idem)
next
  case (Cons d ds)
  let ?w0 = "view (cv_ctx v)"
  obtain w1 where 1: "guest_step T ops (KIncrement h k d) v = (Inr (GoInt (x + d)), v\<lparr>cv_ctx := w1\<rparr>)"
      "wf w1" "view w1 = ?w0(ident b := (?w0 (ident b))(k \<mapsto> i64_to_be_bytes (x + d)))"
    using guest_step_writes(5) [OF Cons.prems(1,2), of k "i64_to_be_bytes x" d] Cons.prems(3)
    by (auto simp: writes_def incremented_def)
  have ctx: "cv_ctx (v\<lparr>cv_ctx := w1\<rparr>) = w1" "(v\<lparr>cv_ctx := w1\<rparr>)\<lparr>cv_ctx := w\<rparr> = v\<lparr>cv_ctx := w\<rparr>" for w
    by simp_all
  have "wf (cv_ctx (v\<lparr>cv_ctx := w1\<rparr>))" "t_get T h (cv_table (v\<lparr>cv_ctx := w1\<rparr>)) = Inr (EBucket b)"
      "view (cv_ctx (v\<lparr>cv_ctx := w1\<rparr>)) (ident b) k = Some (i64_to_be_bytes (x + d))"
    using Cons.prems 1 by simp_all
  note ih = Cons.IH [OF this, unfolded ctx]
  obtain w2 where 2: "guest_run T ops (map (KIncrement h k) ds) (v\<lparr>cv_ctx := w1\<rparr>) =
             (map (\<lambda>y. Inr (GoInt y)) (running (x + d) ds), v\<lparr>cv_ctx := w2\<rparr>)" "wf w2"
           "view w2 = (view w1)(ident b := (view w1 (ident b))
             (k \<mapsto> i64_to_be_bytes (x + d + sum_list ds)))"
    using ih by blast
  have "view w2 = ?w0(ident b := (?w0 (ident b))(k \<mapsto> i64_to_be_bytes (x + sum_list (d # ds))))"
    by (simp add: 2(3) 1(3) add.assoc)
  moreover have "guest_run T ops (map (KIncrement h k) (d # ds)) v =
      (map (\<lambda>y. Inr (GoInt y)) (running x (d # ds)), v\<lparr>cv_ctx := w2\<rparr>)"
    by (simp del: guest_step.simps add: 1(1) 2(1))
  ultimately show ?case using 2(2) by blast
qed

end

lemma host_open_spec:
  assumes "table_laws T" and "kv_wf (cv_ctx v)"
    and "host_open T open_bucket name v = (Inr h, v')"
  shows "handle_of T bk_name (cv_table v) h = None \<and>
    handle_of T bk_name (cv_table v') = (handle_of T bk_name (cv_table v))(h \<mapsto> name) \<and>
    kv_view (cv_ctx v') = kv_view (cv_ctx v) \<and> kv_wf (cv_ctx v')"
proof -
  let ?b = "\<lparr>bk_name = name\<rparr>" and ?w = "snd (open_bucket name (cv_ctx v))"
  have "open_bucket name (cv_ctx v) = (Inr ?b, ?w)" by (simp add: open_bucket_def Let_def)
  then obtain t where t: "t_push T (EBucket ?b) (cv_table v) = Inr (h, t)"
      and v': "v' = v\<lparr>cv_ctx := ?w, cv_table := t\<rparr>"
    using assms(3) by (auto simp: host_open_def kv_call_def op_bind_Inr on_ctx_Inr push_entry_Inr)
  note table = table_push_get [OF assms(1) t]
  have "handle_of T bk_name (cv_table v) h = None" by (simp add: handle_of_def table(2))
  moreover have "handle_of T bk_name (cv_table v') = (handle_of T bk_name (cv_table v))(h \<mapsto> name)"
    by (auto simp: fun_eq_iff handle_of_def v' table(1) table(3))
  moreover have "kv_view (cv_ctx v') = kv_view (cv_ctx v)" by (simp add: v' kv_view_open)
  moreover have "kv_wf (cv_ctx v')" using assms(2) by (simp add: v' kv_wf_open)
  ultimately show ?thesis by blast
qed

section \<open>Properties of the in-memory key-value host\<close>

text \<open>
  C1: Refinement.  Any sequence of guest calls (reads, writes, batches and increments) made
  through any mixture of valid and stale handles against the in-memory backend behaves as the
  specification: each bucket is a partial map from keys to values, a handle selects its bucket,
  a stale handle gets \<open>NoSuchStore\<close> and changes nothing, every result is the specified one, the
  resource table is untouched, and the store keeps its invariant.
\<close>

theorem kv_guest_run_refines:
  assumes "kv_wf (cv_ctx v)"
  shows "\<exists>rs w. guest_run T in_mem_ops cs v = (rs, v\<lparr>cv_ctx := w\<rparr>) \<and> kv_wf w \<and>
           spec_run (handle_of T bk_name (cv_table v)) cs (kv_view (cv_ctx v)) rs (kv_view w)"
  using assms by (rule kv.guest_run_refines)

theorem kv_guest_run_refines_witness:
  "let v = \<lparr>cv_ctx = kv_connect_with, cv_table = [Some (EBucket \<lparr>bk_name = ''a''\<rparr>)]\<rparr>;
       cs = [KSet 0 ''k'' [1], KGet 0 ''k'', KGet 5 ''k'', KIncrement 0 ''x'' 1]
   in kv_wf (cv_ctx v) \<and> (\<exists>rs w. guest_run slot_table in_mem_ops cs v = (rs, v\<lparr>cv_ctx := w\<rparr>) \<and> kv_wf w \<and>
        spec_run (handle_of slot_table bk_name (cv_table v)) cs (kv_view (cv_ctx v)) rs (kv_view w))"
  unfolding Let_def
  by (intro conjI kv_guest_run_refines) (simp_all add: kv_wf_connect)

text \<open>
  Opening a bucket.  A successful \<open>open\<close> yields a handle that was not in use, which names the
  requested bucket; no other handle changes its bucket, no stored value changes, and the store
  keeps its invariant (an existing bucket is shared, not reset).
\<close>

theorem host_open_fresh:
  assumes "table_laws T" and "kv_wf (cv_ctx v)"
    and "host_open T open_bucket name v = (Inr h, v')"
  shows "handle_of T bk_name (cv_table v) h = None \<and>
    handle_of T bk_name (cv_table v') = (handle_of T bk_name (cv_table v))(h \<mapsto> name) \<and>
    kv_view (cv_ctx v') = kv_view (cv_ctx v) \<and> kv_wf (cv_ctx v')"
  using assms by (rule host_open_spec)

theorem host_open_fresh_witness:
  "let v = \<lparr>cv_ctx = kv_connect_with, cv_table = []\<rparr>;
       v' = \<lparr>cv_ctx = [(''a'', [])], cv_table = [Some (EBucket \<lparr>bk_name = ''a''\<rparr>)]\<rparr>
   in host_open slot_table open_bucket ''a'' v = (Inr 0, v') \<and>
      handle_of slot_table bk_name (cv_table v') 0 = Some ''a''"
proof -
  let ?v = "\<lparr>cv_ctx = kv_connect_with, cv_table = []\<rparr>"
  let ?v' = "\<lparr>cv_ctx = [(''a'', [])], cv_table = [Some (EBucket \<lparr>bk_name = ''a''\<rparr>)]\<rparr>"
  have run: "host_open slot_table open_bucket ''a'' ?v = (Inr 0, ?v')"
    by (simp add: host_open_def kv_call_def open_bucket_def slot_table_def push_entry_def
        kv_connect_with_def hm_entry_or_def hm_contains_def hm_insert_def Let_def)
  show ?thesis
    using run host_open_fresh [OF slot_table_laws _ run] by (simp add: Let_def kv_wf_connect)
qed

text \<open>
  C11: Counters.  When the key holds an eight-byte big-endian integer \<open>x\<close>, any sequence of
  \<open>increment\<close> calls returns the running sums (modulo \<open>2 ^ 64\<close>) and leaves the encoding of \<open>x\<close> plus the
  sum of the deltas under that key, every other key and bucket unchanged.
\<close>

theorem kv_counter:
  assumes "kv_wf (cv_ctx v)" and "t_get T h (cv_table v) = Inr (EBucket b)"
    and "kv_view (cv_ctx v) (bk_name b) k = Some (i64_to_be_bytes x)"
  shows "\<exists>w. guest_run T in_mem_ops (map (KIncrement h k) ds) v =
             (map (\<lambda>y. Inr (GoInt y)) (running x ds), v\<lparr>cv_ctx := w\<rparr>) \<and> kv_wf w \<and>
           kv_view w = (kv_view (cv_ctx v))(bk_name b := (kv_view (cv_ctx v) (bk_name b))
             (k \<mapsto> i64_to_be_bytes (x + sum_list ds)))"
  using assms by (rule kv.counter_run)

theorem kv_counter_witness:
  "let v = \<lparr>cv_ctx = [(''a'', [(''n'', i64_to_be_bytes 40)])],
            cv_table = [Some (EBucket \<lparr>bk_name = ''a''\<rparr>)]\<rparr>
   in \<exists>w. guest_run slot_table in_mem_ops (map (KIncrement 0 ''n'') [1, 2, - 1]) v =
            ([Inr (GoInt 41), Inr (GoInt 43), Inr (GoInt 42)], v\<lparr>cv_ctx := w\<rparr>)"
proof -
  let ?v = "\<lparr>cv_ctx = [(''a'', [(''n'', i64_to_be_bytes 40)])],
            cv_table = [Some (EBucket \<lparr>bk_name = ''a''\<rparr>)]\<rparr>"
  have "kv_wf (cv_ctx ?v)" by (simp add: kv_wf_def hm_wf_def)
  moreover have "t_get slot_table 0 (cv_table ?v) = Inr (EBucket \<lparr>bk_name = ''a''\<rparr>)"
    by (simp add: slot_table_def slot_get_def)
  moreover have "kv_view (cv_ctx ?v) (bk_name \<lparr>bk_name = ''a''\<rparr>) ''n'' = Some (i64_to_be_bytes 40)"
    by (simp add: kv_view_def)
  ultimately show ?thesis
    using kv_counter [of ?v slot_table 0 "\<lparr>bk_name = ''a''\<rparr>" "''n''" 40 "[1, 2, - 1]"]
    by (auto simp: Let_def)
qed

end
