(* ===== verification/KeyValueRace.thy ===== *)
theory KeyValueRace
  imports KeyValueHost
begin

text \<open>
  wasi-keyvalue, \<open>src/host/atomics_impl.rs\<close>: \<open>increment\<close> under concurrency.  The handler reads the
  value through \<open>bucket.get(..).await\<close>, which takes and releases the store's read lock, and
  writes the sum through \<open>bucket.set(..).await\<close>, which takes the write lock anew.  Any number of
  increments of one key interleave at that point, as steps of tasks that share the store.
\<close>

datatype inc_phase = Ready | Loaded bytes | Returned i64 | Failed kv_error

record inc_task =
  it_delta :: i64
  it_phase :: inc_phase

type_synonym inc_state = "kv_store \<times> inc_task list"

definition set_phase :: "inc_task list \<Rightarrow> nat \<Rightarrow> inc_phase \<Rightarrow> inc_task list" where
  "set_phase ts i p = ts[i := (ts ! i)\<lparr>it_phase := p\<rparr>]"

inductive inc_step :: "in_mem_bucket \<Rightarrow> string \<Rightarrow> inc_state \<Rightarrow> inc_state \<Rightarrow> bool"
  for bucket key where
  load: "i < length ts \<Longrightarrow> it_phase (ts ! i) = Ready \<Longrightarrow>
     bucket_get bucket key st = (Inr (Some val), st') \<Longrightarrow>
     inc_step bucket key (st, ts) (st', set_phase ts i (Loaded val))"
| miss: "i < length ts \<Longrightarrow> it_phase (ts ! i) = Ready \<Longrightarrow>
     bucket_get bucket key st = (Inr None, st') \<Longrightarrow>
     inc_step bucket key (st, ts)
       (st', set_phase ts i (Failed (kv_from_anyhow (Anyhow (''no value for '' @ key)))))"
| save: "i < length ts \<Longrightarrow> it_phase (ts ! i) = Loaded val \<Longrightarrow>
     inc = incremented val (it_delta (ts ! i)) \<Longrightarrow>
     bucket_set bucket key (i64_to_be_bytes inc) st = (Inr (), st') \<Longrightarrow>
     inc_step bucket key (st, ts) (st', set_phase ts i (Returned inc))"

inductive inc_run :: "in_mem_bucket \<Rightarrow> string \<Rightarrow> inc_state \<Rightarrow> inc_state \<Rightarrow> bool" for bucket key where
  refl: "inc_run bucket key s s"
| step: "inc_run bucket key s s' \<Longrightarrow> inc_step bucket key s' s'' \<Longrightarrow> inc_run bucket key s s''"

definition start_tasks :: "i64 list \<Rightarrow> inc_task list" where
  "start_tasks ds = map (\<lambda>d. \<lparr>it_delta = d, it_phase = Ready\<rparr>) ds"

definition is_returned :: "inc_phase \<Rightarrow> bool" where
  "is_returned p = (case p of Returned v \<Rightarrow> True | _ \<Rightarrow> False)"

definition finished :: "inc_task list \<Rightarrow> nat set" where
  "finished ts = {i. i < length ts \<and> is_returned (it_phase (ts ! i))}"

definition sum_of :: "inc_task list \<Rightarrow> nat set \<Rightarrow> i64" where
  "sum_of ts S = (\<Sum>i \<in> S. it_delta (ts ! i))"

text \<open>What a task knows: the value it read or returned accounts for finished increments only.\<close>

fun phase_ok :: "i64 \<Rightarrow> inc_task list \<Rightarrow> nat \<Rightarrow> inc_phase \<Rightarrow> bool" where
  "phase_ok x ts i Ready = True"
| "phase_ok x ts i (Loaded val) =
     (\<exists>S \<subseteq> finished ts. val = i64_to_be_bytes (x + sum_of ts S))"
| "phase_ok x ts i (Returned v) = (\<exists>S \<subseteq> finished ts. i \<in> S \<and> v = x + sum_of ts S)"
| "phase_ok x ts i (Failed e) = False"

definition inc_inv :: "in_mem_bucket \<Rightarrow> string \<Rightarrow> i64 \<Rightarrow> i64 list \<Rightarrow> inc_state \<Rightarrow> bool" where
  "inc_inv bucket key x ds s \<longleftrightarrow>
     (case s of (st, ts) \<Rightarrow>
        map it_delta ts = ds \<and>
        (\<exists>S \<subseteq> finished ts. kv_view st (bk_name bucket) key = Some (i64_to_be_bytes (x + sum_of ts S)) \<and>
             (finished ts \<noteq> {} \<longrightarrow> S \<noteq> {})) \<and>
        (\<forall>i < length ts. phase_ok x ts i (it_phase (ts ! i))))"

section \<open>The invariant of every interleaving\<close>

lemma set_phase_length [simp]: "length (set_phase ts i p) = length ts"
  by (simp add: set_phase_def)

lemma set_phase_deltas [simp]: "map it_delta (set_phase ts i p) = map it_delta ts"
  by (cases "i < length ts") (simp_all add: set_phase_def map_update list_update_beyond list_update_same_conv)

lemma set_phase_delta [simp]: "j < length ts \<Longrightarrow> it_delta (set_phase ts i p ! j) = it_delta (ts ! j)"
  by (metis nth_map set_phase_deltas set_phase_length)

lemma set_phase_phase [simp]:
  "j < length ts \<Longrightarrow> it_phase (set_phase ts i p ! j) = (if i = j then p else it_phase (ts ! j))"
  by (simp add: set_phase_def nth_list_update)

lemma finished_bound: "i \<in> finished ts \<Longrightarrow> i < length ts"
  by (simp add: finished_def)

lemma finite_finished [simp]: "finite (finished ts)"
  by (rule finite_subset [of _ "{..<length ts}"]) (auto simp: finished_def)

lemma finished_set_phase:
  assumes "i < length ts" and "\<not> is_returned (it_phase (ts ! i))"
  shows "finished (set_phase ts i p) = (if is_returned p then insert i (finished ts) else finished ts)"
  using assms by (auto simp: finished_def split: if_splits)

lemma sum_of_set_phase: "S \<subseteq> {..<length ts} \<Longrightarrow> sum_of (set_phase ts i p) S = sum_of ts S"
  unfolding sum_of_def by (rule sum.cong) auto

lemma sum_of_finished: "S \<subseteq> finished ts \<Longrightarrow> sum_of (set_phase ts i p) S = sum_of ts S"
  by (rule sum_of_set_phase) (auto dest: finished_bound)

lemma phase_ok_mono:
  assumes "phase_ok x ts j q" and "finished ts \<subseteq> finished (set_phase ts i p)"
  shows "phase_ok x (set_phase ts i p) j q"
  using assms by (cases q) (simp_all, (metis order_trans sum_of_finished)+)


lemma inc_inv_start:
  assumes "kv_view st (bk_name bucket) key = Some (i64_to_be_bytes x)"
  shows "inc_inv bucket key x ds (st, start_tasks ds)"
proof -
  have "finished (start_tasks ds) = {}"
    by (simp add: finished_def start_tasks_def is_returned_def)
  with assms show ?thesis
    by (auto simp: inc_inv_def start_tasks_def comp_def sum_of_def)
qed

lemma inc_invD:
  assumes "inc_inv bucket key x ds (st, ts)"
  shows "map it_delta ts = ds"
    and "\<exists>S \<subseteq> finished ts. kv_view st (bk_name bucket) key = Some (i64_to_be_bytes (x + sum_of ts S)) \<and>
           (finished ts \<noteq> {} \<longrightarrow> S \<noteq> {})"
    and "i < length ts \<Longrightarrow> phase_ok x ts i (it_phase (ts ! i))"
  using assms by (simp_all add: inc_inv_def)

text \<open>One task changes phase: the invariant needs the new value and the new phase only.\<close>

lemma inc_inv_phase:
  assumes inv: "inc_inv bucket key x ds (st, ts)" and i: "i < length ts"
    and mono: "finished ts \<subseteq> finished (set_phase ts i p)"
    and S: "S \<subseteq> finished (set_phase ts i p)" "finished (set_phase ts i p) \<noteq> {} \<longrightarrow> S \<noteq> {}"
    and val: "kv_view st' (bk_name bucket) key = Some (i64_to_be_bytes (x + sum_of (set_phase ts i p) S))"
    and p: "phase_ok x (set_phase ts i p) i p"
  shows "inc_inv bucket key x ds (st', set_phase ts i p)"
proof -
  have "phase_ok x (set_phase ts i p) j (it_phase (set_phase ts i p ! j))" if "j < length ts" for j
    using that p inc_invD(3) [OF inv, of j] phase_ok_mono [OF _ mono] by auto
  then show ?thesis
    using inc_invD(1) [OF inv] S val unfolding inc_inv_def by auto
qed

lemma inc_inv_step:
  assumes "inc_inv bucket key x ds s" and "inc_step bucket key s s'"
  shows "inc_inv bucket key x ds s'"
  using assms(2,1)
proof (cases rule: inc_step.cases)
  case (load i ts st val st')
  let ?ts = "set_phase ts i (Loaded val)"
  have inv: "inc_inv bucket key x ds (st, ts)" using assms(1) load by simp
  obtain S where S: "S \<subseteq> finished ts" "finished ts \<noteq> {} \<longrightarrow> S \<noteq> {}"
      "kv_view st (bk_name bucket) key = Some (i64_to_be_bytes (x + sum_of ts S))"
    using inc_invD(2) [OF inv] by blast
  have st: "st' = st" and val: "val = i64_to_be_bytes (x + sum_of ts S)"
    using load S(3) by (auto simp: bucket_get_def kv_view_def)
  have fin: "finished ?ts = finished ts"
    using load by (simp add: finished_set_phase is_returned_def)
  have ok: "phase_ok x ?ts i (Loaded val)"
    using S(1) val sum_of_finished [OF S(1)] fin by auto
  have "inc_inv bucket key x ds (st', ?ts)"
    by (rule inc_inv_phase [OF inv load(3), of _ S])
      (use S(1,2) fin st ok in \<open>simp_all add: S(3) sum_of_finished [OF S(1)]\<close>)
  then show ?thesis using load by simp
next
  case (miss i ts st st')
  have "inc_inv bucket key x ds (st, ts)" using assms(1) miss by simp
  from inc_invD(2) [OF this] miss show ?thesis by (auto simp: bucket_get_def kv_view_def)
next
  case (save i ts val inc st st')
  let ?ts = "set_phase ts i (Returned inc)"
  have inv: "inc_inv bucket key x ds (st, ts)" using assms(1) save by simp
  obtain S where S: "S \<subseteq> finished ts" "val = i64_to_be_bytes (x + sum_of ts S)"
    using inc_invD(3) [OF inv save(3)] save by auto
  have i: "i \<notin> finished ts" using save by (simp add: finished_def is_returned_def)
  have fin: "finished ?ts = insert i (finished ts)"
    using save by (simp add: finished_set_phase is_returned_def)
  have "i \<notin> S" using S(1) i by blast
  moreover have "finite S" by (rule finite_subset [OF S(1) finite_finished])
  ultimately have "sum_of ?ts (insert i S) = it_delta (ts ! i) + sum_of ts S"
    using sum_of_finished [OF S(1), of i "Returned inc"] save(3) by (simp add: sum_of_def)
  then have inc: "inc = x + sum_of ?ts (insert i S)"
    using save S(2) by (simp add: incremented_def add.assoc add.commute)
  have sub: "insert i S \<subseteq> finished ?ts" using S(1) fin by auto
  have view: "kv_view st' (bk_name bucket) key = Some (i64_to_be_bytes inc)"
    using save by (auto simp: bucket_set_def kv_set_view)
  have ok: "phase_ok x ?ts i (Returned inc)" using sub inc by (simp only: phase_ok.simps) blast
  have "inc_inv bucket key x ds (st', ?ts)"
  proof (rule inc_inv_phase [OF inv save(3), of _ "insert i S"])
    show "finished ts \<subseteq> finished ?ts" unfolding fin by blast
    show "insert i S \<subseteq> finished ?ts" by (rule sub)
    show "finished ?ts \<noteq> {} \<longrightarrow> insert i S \<noteq> {}" by simp
    show "kv_view st' (bk_name bucket) key = Some (i64_to_be_bytes (x + sum_of ?ts (insert i S)))"
      using view unfolding inc [symmetric] .
    show "phase_ok x ?ts i (Returned inc)" by (rule ok)
  qed
  then show ?thesis using save by simp
qed

lemma inc_inv_run:
  "inc_run bucket key s s' \<Longrightarrow> inc_inv bucket key x ds s \<Longrightarrow> inc_inv bucket key x ds s'"
  by (induction rule: inc_run.induct) (blast intro: inc_inv_step)+

section \<open>Properties\<close>

text \<open>
  C25: Safety of concurrent increments.  From a key that holds \<open>x\<close>, under every interleaving of
  increments with deltas \<open>ds\<close>, the key keeps an eight-byte counter whose value is \<open>x\<close> plus the
  deltas of some of the finished increments; an increment that returned accounts for its own
  delta, and none fails.
\<close>

theorem inc_interleaving_safe:
  assumes "kv_view st (bk_name bucket) key = Some (i64_to_be_bytes x)"
    and "inc_run bucket key (st, start_tasks ds) (st', ts)"
  shows "map it_delta ts = ds \<and>
    (\<exists>S \<subseteq> finished ts. kv_view st' (bk_name bucket) key = Some (i64_to_be_bytes (x + sum_of ts S)) \<and>
       (finished ts \<noteq> {} \<longrightarrow> S \<noteq> {})) \<and>
    (\<forall>i < length ts. (\<forall>e. it_phase (ts ! i) \<noteq> Failed e) \<and>
       (\<forall>v. it_phase (ts ! i) = Returned v \<longrightarrow>
          (\<exists>S \<subseteq> finished ts. i \<in> S \<and> v = x + sum_of ts S)))"
proof -
  have inv: "inc_inv bucket key x ds (st', ts)"
    using inc_inv_run [OF assms(2) inc_inv_start [OF assms(1)]] .
  have "(\<forall>e. it_phase (ts ! i) \<noteq> Failed e) \<and>
      (\<forall>v. it_phase (ts ! i) = Returned v \<longrightarrow> (\<exists>S \<subseteq> finished ts. i \<in> S \<and> v = x + sum_of ts S))"
    if "i < length ts" for i
    using inc_invD(3) [OF inv that] by (cases "it_phase (ts ! i)") simp_all
  then show ?thesis by (intro conjI allI impI inc_invD(1,2) [OF inv]) simp_all
qed

text \<open>The schedule in which two increments both load before either stores.\<close>

definition racy_store :: "i64 \<Rightarrow> kv_store" where
  "racy_store x = [(''b'', [(''n'', i64_to_be_bytes x)])]"

lemma racy_get:
  "bucket_get \<lparr>bk_name = ''b''\<rparr> ''n'' (racy_store x) = (Inr (Some (i64_to_be_bytes x)), racy_store x)"
  by (simp add: bucket_get_def racy_store_def)

lemma racy_set:
  "bucket_set \<lparr>bk_name = ''b''\<rparr> ''n'' (i64_to_be_bytes y) (racy_store x) = (Inr (), racy_store y)"
  by (simp add: bucket_set_def racy_store_def hm_entry_update_def hm_insert_def)

lemma racy_run:
  "inc_run \<lparr>bk_name = ''b''\<rparr> ''n'' (racy_store x, start_tasks [d1, d2])
     (racy_store (x + d2),
      [\<lparr>it_delta = d1, it_phase = Returned (x + d1)\<rparr>, \<lparr>it_delta = d2, it_phase = Returned (x + d2)\<rparr>])"
proof -
  let ?b = "\<lparr>bk_name = ''b''\<rparr>" and ?x = "i64_to_be_bytes x"
  let ?t = "\<lambda>p q. [\<lparr>it_delta = d1, it_phase = p\<rparr>, \<lparr>it_delta = d2, it_phase = q\<rparr>]"
  have 1: "inc_step ?b ''n'' (racy_store x, ?t Ready Ready) (racy_store x, ?t (Loaded ?x) Ready)"
    using inc_step.load [of 0 "?t Ready Ready" ?b "''n''" _ ?x, OF _ _ racy_get] by (simp add: set_phase_def)
  have 2: "inc_step ?b ''n'' (racy_store x, ?t (Loaded ?x) Ready) (racy_store x, ?t (Loaded ?x) (Loaded ?x))"
    using inc_step.load [of 1 "?t (Loaded ?x) Ready" ?b "''n''" _ ?x, OF _ _ racy_get]
    by (simp add: set_phase_def)
  have 3: "inc_step ?b ''n'' (racy_store x, ?t (Loaded ?x) (Loaded ?x))
      (racy_store (x + d1), ?t (Returned (x + d1)) (Loaded ?x))"
    using inc_step.save [of 0 "?t (Loaded ?x) (Loaded ?x)" ?x "x + d1" ?b "''n''", OF _ _ _ racy_set]
    by (simp add: set_phase_def incremented_def)
  have 4: "inc_step ?b ''n'' (racy_store (x + d1), ?t (Returned (x + d1)) (Loaded ?x))
      (racy_store (x + d2), ?t (Returned (x + d1)) (Returned (x + d2)))"
    using inc_step.save [of 1 "?t (Returned (x + d1)) (Loaded ?x)" ?x "x + d2" ?b "''n''", OF _ _ _ racy_set]
    by (simp add: set_phase_def incremented_def)
  have "start_tasks [d1, d2] = ?t Ready Ready" by (simp add: start_tasks_def)
  moreover note inc_run.step [OF inc_run.step [OF inc_run.step [OF inc_run.step [OF inc_run.refl 1] 2] 3] 4]
  ultimately show ?thesis by simp
qed

theorem inc_interleaving_safe_witness:
  "let ts = [\<lparr>it_delta = 1, it_phase = Returned 6\<rparr>, \<lparr>it_delta = 2, it_phase = Returned 7\<rparr>]
   in inc_run \<lparr>bk_name = ''b''\<rparr> ''n'' (racy_store 5, start_tasks [1, 2]) (racy_store 7, ts) \<and>
     (\<exists>S \<subseteq> finished ts. kv_view (racy_store 7) ''b'' ''n'' = Some (i64_to_be_bytes (5 + sum_of ts S)))"
proof -
  have view: "kv_view (racy_store 5) (bk_name \<lparr>bk_name = ''b''\<rparr>) ''n'' = Some (i64_to_be_bytes 5)"
    by (simp add: kv_view_def racy_store_def)
  have run: "inc_run \<lparr>bk_name = ''b''\<rparr> ''n'' (racy_store 5, start_tasks [1, 2]) (racy_store 7,
      [\<lparr>it_delta = 1, it_phase = Returned 6\<rparr>, \<lparr>it_delta = 2, it_phase = Returned 7\<rparr>])"
    using racy_run [of 5 1 2] by simp
  note safe = inc_interleaving_safe [OF view run, THEN conjunct2, THEN conjunct1]
  show ?thesis unfolding Let_def
    by (intro conjI run) (use safe in \<open>simp only: in_mem_bucket.simps, blast\<close>)
qed

text \<open>
  C28: Lost update.  The documentation promises that \<open>increment\<close> is atomic; it is not.  For every
  initial value and deltas there is an interleaving of two increments in which both report
  success and the final value accounts for the second only.
\<close>

theorem inc_lost_update:
  "\<exists>ts. inc_run \<lparr>bk_name = ''b''\<rparr> ''n'' (racy_store x, start_tasks [d1, d2]) (racy_store (x + d2), ts) \<and>
     map it_phase ts = [Returned (x + d1), Returned (x + d2)]"
  using racy_run by fastforce

end
