(* ===== verification/KeyValueCache.thy ===== *)
theory KeyValueCache
  imports KeyValueHost
begin

text \<open>
  wasi-keyvalue, \<open>src/guest/cache.rs\<close>: the guest's cache over a bucket, with an optional time to
  live kept in an envelope (\<open>Cacheable\<close>) around the value.

  Outside the source are serde_json (the envelope's encoding) and chrono (clock arithmetic);
  they are the record \<open>cache_env\<close>, and \<open>cache_env_laws\<close> states what the code relies on.
  Instants are integers, nanoseconds since the epoch, and \<open>Utc::now()\<close> is an argument for each
  place that reads the clock.  \<open>ts_seconds\<close> keeps the whole seconds of an instant.
\<close>

section \<open>The bucket as the guest sees it\<close>

record ('h, 's) guest_store =
  gs_open :: "string \<Rightarrow> ('s, kv_error, 'h) op"
  gs_get :: "'h \<Rightarrow> string \<Rightarrow> ('s, kv_error, bytes option) op"
  gs_set :: "'h \<Rightarrow> string \<Rightarrow> bytes \<Rightarrow> ('s, kv_error, unit) op"
  gs_delete :: "'h \<Rightarrow> string \<Rightarrow> ('s, kv_error, unit) op"

text \<open>The imports of the guest are the handlers of the host.\<close>

definition linked_store ::
  "('t, in_mem_bucket kv_entry) table_ops \<Rightarrow> (nat, (kv_store, 't) ctx_view) guest_store" where
  "linked_store T = \<lparr>gs_open = host_open T open_bucket, gs_get = host_get T in_mem_ops,
     gs_set = host_set T in_mem_ops, gs_delete = host_delete T in_mem_ops\<rparr>"

section \<open>The envelope\<close>

record cacheable =
  ca_value :: bytes
  ca_expires_at :: int

record cache_env =
  ce_deadline :: "int \<Rightarrow> i64 \<Rightarrow> int option"
    \<comment> \<open>\<open>now + Duration::seconds(secs)\<close>, \<open>None\<close> where chrono panics\<close>
  ce_encode :: "bytes \<times> int \<Rightarrow> anyhow + bytes"  \<comment> \<open>\<open>serde_json::to_vec\<close> of value and seconds\<close>
  ce_decode :: "bytes \<Rightarrow> (bytes \<times> int) option"  \<comment> \<open>\<open>serde_json::from_slice\<close>\<close>
  ce_show :: "kv_error \<Rightarrow> string"  \<comment> \<open>the bindings' \<open>Display\<close> of an error\<close>

definition nanos :: int where "nanos = 10 ^ 9"

datatype cache_fault = CacheErr anyhow | CachePanic

definition cacheable_new :: "cache_env \<Rightarrow> int \<Rightarrow> bytes \<Rightarrow> i64 \<Rightarrow> cache_fault + cacheable" where
  "cacheable_new E now val expires_in = ok_or CachePanic (map_option
     (\<lambda>t. \<lparr>ca_value = val, ca_expires_at = t\<rparr>) (ce_deadline E now expires_in))"

definition is_expired :: "int \<Rightarrow> cacheable \<Rightarrow> bool" where
  "is_expired now c \<longleftrightarrow> now \<ge> ca_expires_at c"

definition cacheable_from :: "cache_env \<Rightarrow> bytes \<Rightarrow> cacheable option" where
  "cacheable_from E bs = map_option
     (\<lambda>(val, secs). \<lparr>ca_value = val, ca_expires_at = secs * nanos\<rparr>) (ce_decode E bs)"

definition cacheable_into :: "cache_env \<Rightarrow> cacheable \<Rightarrow> cache_fault + bytes" where
  "cacheable_into E c = res_map_err (\<lambda>e. CacheErr (Context ''issue serializing Cacheable'' e))
     (ce_encode E (ca_value c, ca_expires_at c div nanos))"

definition cache_env_laws :: "cache_env \<Rightarrow> bool" where
  "cache_env_laws E \<longleftrightarrow>
     (\<forall>now secs t val. ce_deadline E now secs = Some t \<longrightarrow>
        t = now + sint secs * nanos \<and>
        (\<exists>bs. ce_encode E (val, t div nanos) = Inr bs \<and> ce_decode E bs = Some (val, t div nanos)))"

section \<open>Operations\<close>

record 'h cache =
  cache_bucket :: 'h

definition cache_call ::
  "cache_env \<Rightarrow> string \<Rightarrow> ('s, kv_error, 'a) op \<Rightarrow> ('s, cache_fault, 'a) op" where
  "cache_call E msg = op_map_err (\<lambda>e. CacheErr (Context msg (Foreign (ce_show E e))))"

definition cache_open ::
  "cache_env \<Rightarrow> ('h, 's) guest_store \<Rightarrow> string \<Rightarrow> ('s, cache_fault, 'h cache) op" where
  "cache_open E G name =
     op_bind (cache_call E ''opening bucket'' (gs_open G name)) (\<lambda>b. op_return \<lparr>cache_bucket = b\<rparr>)"

definition cache_get ::
  "cache_env \<Rightarrow> ('h, 's) guest_store \<Rightarrow> 'h cache \<Rightarrow> string \<Rightarrow> int
    \<Rightarrow> ('s, cache_fault, bytes option) op" where
  "cache_get E G c key now =
     op_bind (cache_call E ''reading state'' (gs_get G (cache_bucket c) key)) (\<lambda>r.
     case r of
       None \<Rightarrow> op_return None
     | Some entry \<Rightarrow>
         (case cacheable_from E entry of
            None \<Rightarrow> op_return (Some entry)
          | Some ttl_val \<Rightarrow>
              if is_expired now ttl_val then
                op_bind (cache_call E ''deleting expired state'' (gs_delete G (cache_bucket c) key))
                  (\<lambda>_. op_return None)
              else op_return (Some (ca_value ttl_val))))"

text \<open>
  \<open>ttl_secs\<close> is read as a signed number of seconds.  The clock is read when the envelope is made
  (\<open>now1\<close>) and again when the previous value is looked up (\<open>now2\<close>).
\<close>

definition cache_wrap :: "cache_env \<Rightarrow> int \<Rightarrow> bytes \<Rightarrow> u64 option \<Rightarrow> cache_fault + bytes" where
  "cache_wrap E now val ttl_secs = (case ttl_secs of
      None \<Rightarrow> Inr val
    | Some secs \<Rightarrow> res_bind (cacheable_new E now val secs) (cacheable_into E))"

definition cache_set ::
  "cache_env \<Rightarrow> ('h, 's) guest_store \<Rightarrow> 'h cache \<Rightarrow> string \<Rightarrow> bytes \<Rightarrow> u64 option \<Rightarrow> int \<Rightarrow> int
    \<Rightarrow> ('s, cache_fault, bytes option) op" where
  "cache_set E G c key val ttl_secs now1 now2 =
     op_bind (op_lift (cache_wrap E now1 val ttl_secs)) (\<lambda>bs.
     op_bind (cache_get E G c key now2) (\<lambda>previous.
     op_bind (cache_call E ''setting state with ttl'' (gs_set G (cache_bucket c) key bs)) (\<lambda>_.
     op_return previous)))"

definition cache_delete ::
  "cache_env \<Rightarrow> ('h, 's) guest_store \<Rightarrow> 'h cache \<Rightarrow> string \<Rightarrow> ('s, cache_fault, unit) op" where
  "cache_delete E G c key = cache_call E ''deleting entry'' (gs_delete G (cache_bucket c) key)"

section \<open>What a cache holds\<close>

text \<open>
  What a stored byte string means at an instant: nothing once it is expired; an envelope's value;
  or itself, when it is no envelope.
\<close>

definition live_value :: "cache_env \<Rightarrow> int \<Rightarrow> bytes option \<Rightarrow> bytes option" where
  "live_value E now stored = (case stored of None \<Rightarrow> None
     | Some bs \<Rightarrow> (case ce_decode E bs of None \<Rightarrow> Some bs
         | Some (val, secs) \<Rightarrow> if now < secs * nanos then Some val else None))"

definition dead :: "cache_env \<Rightarrow> int \<Rightarrow> bytes option \<Rightarrow> bool" where
  "dead E now stored \<longleftrightarrow> stored \<noteq> None \<and> live_value E now stored = None"

text \<open>A cache's bucket, and the state in which the linked host runs.\<close>

definition bucket_of ::
  "('t, in_mem_bucket kv_entry) table_ops \<Rightarrow> (kv_store, 't) ctx_view \<Rightarrow> nat cache \<Rightarrow> string option" where
  "bucket_of T v c = handle_of T bk_name (cv_table v) (cache_bucket c)"

definition stored_at :: "(kv_store, 't) ctx_view \<Rightarrow> string \<Rightarrow> string \<Rightarrow> bytes option" where
  "stored_at v name key = kv_view (cv_ctx v) name key"

definition kv_wf_view :: "(kv_store, 't) ctx_view \<Rightarrow> bool" where
  "kv_wf_view v \<longleftrightarrow> kv_wf (cv_ctx v)"

lemma linked_read:
  assumes "kv_wf_view v" and "bucket_of T v c = Some name"
  shows "gs_get (linked_store T) (cache_bucket c) key v = (Inr (stored_at v name key), v)"
proof -
  obtain b where b: "t_get T (cache_bucket c) (cv_table v) = Inr (EBucket b)" "bk_name b = name"
    using assms(2) by (auto simp: bucket_of_def handle_of_Some)
  with kv.guest_step_reads(1) [of v T "cache_bucket c" b key] assms(1)
  show ?thesis
    by (auto simp: linked_store_def stored_at_def kv_wf_view_def op_fmap_def op_bind_Inr)
qed

definition stores ::
  "('t, in_mem_bucket kv_entry) table_ops \<Rightarrow> (kv_store, 't) ctx_view \<Rightarrow> string \<Rightarrow> string
    \<Rightarrow> bytes option \<Rightarrow> (kv_store, 't) ctx_view \<Rightarrow> bool" where
  "stores T v name key x v' \<longleftrightarrow> kv_wf_view v' \<and> cv_table v' = cv_table v \<and>
     stored_at v' = (stored_at v)(name := (stored_at v name)(key := x))"

lemma linked_write:
  assumes "kv_wf_view v" and "bucket_of T v c = Some name"
  shows "\<exists>v'. gs_set (linked_store T) (cache_bucket c) key val v = (Inr (), v') \<and>
           stores T v name key (Some val) v'"
    and "\<exists>v'. gs_delete (linked_store T) (cache_bucket c) key v = (Inr (), v') \<and>
           stores T v name key None v'"
proof -
  obtain b where b: "t_get T (cache_bucket c) (cv_table v) = Inr (EBucket b)" "bk_name b = name"
    using assms(2) by (auto simp: bucket_of_def handle_of_Some)
  note w = kv.guest_step_writes [of v T "cache_bucket c" b] 
  show "\<exists>v'. gs_set (linked_store T) (cache_bucket c) key val v = (Inr (), v') \<and>
           stores T v name key (Some val) v'"
    using w(1) [of key val] b assms(1)
    by (auto simp: kv.writes_def linked_store_def stores_def stored_at_def [abs_def] kv_wf_view_def
        op_fmap_def op_bind_Inr)
  show "\<exists>v'. gs_delete (linked_store T) (cache_bucket c) key v = (Inr (), v') \<and>
           stores T v name key None v'"
    using w(2) [of key] b assms(1)
    by (auto simp: kv.writes_def linked_store_def stores_def stored_at_def [abs_def] kv_wf_view_def
        op_fmap_def op_bind_Inr)
qed

lemma cacheable_from_live:
  "live_value E now (Some bs) = (case cacheable_from E bs of None \<Rightarrow> Some bs
     | Some c \<Rightarrow> if is_expired now c then None else Some (ca_value c))"
  by (auto simp: live_value_def cacheable_from_def is_expired_def split: option.splits)

lemma stores_same: "kv_wf_view v \<Longrightarrow> stores T v name key (stored_at v name key) v"
  by (simp add: stores_def)

lemma stores_stores: "stores T v name key x v1 \<Longrightarrow> stores T v1 name key y v2 \<Longrightarrow> stores T v name key y v2"
  by (simp add: stores_def)

lemma stores_bucket_of: "stores T v name key x v' \<Longrightarrow> bucket_of T v' c = bucket_of T v c"
  by (simp add: stores_def bucket_of_def)

lemma cache_get_run:
  assumes "kv_wf_view v" and "bucket_of T v c = Some name"
  shows "\<exists>v'. cache_get E (linked_store T) c key now v = (Inr (live_value E now (stored_at v name key)), v') \<and>
    stores T v name key (if dead E now (stored_at v name key) then None else stored_at v name key) v'"
proof (cases "dead E now (stored_at v name key)")
  case True
  then obtain bs where bs: "stored_at v name key = Some bs" "live_value E now (Some bs) = None"
    by (auto simp: dead_def)
  then obtain x where x: "cacheable_from E bs = Some x" "is_expired now x"
    by (auto simp: cacheable_from_live split: option.splits if_splits)
  obtain v' where v': "gs_delete (linked_store T) (cache_bucket c) key v = (Inr (), v')"
      "stores T v name key None v'"
    using linked_write(2) [OF assms] by blast
  with True bs x show ?thesis
    by (simp add: cache_get_def cache_call_def linked_read [OF assms])
next
  case False
  then have "cache_get E (linked_store T) c key now v = (Inr (live_value E now (stored_at v name key)), v)"
    by (cases "stored_at v name key")
      (auto simp: cache_get_def cache_call_def linked_read [OF assms] dead_def live_value_def [of _ _ None]
        cacheable_from_live split: option.splits if_splits)
  with False assms(1) show ?thesis by (auto intro: stores_same)
qed

lemma cache_set_run:
  assumes "kv_wf_view v" and "bucket_of T v c = Some name" and "cache_wrap E now1 val ttl = Inr bs"
  shows "\<exists>v'. cache_set E (linked_store T) c key val ttl now1 now2 v =
      (Inr (live_value E now2 (stored_at v name key)), v') \<and> stores T v name key (Some bs) v'"
proof -
  obtain v1 x where v1: "cache_get E (linked_store T) c key now2 v =
      (Inr (live_value E now2 (stored_at v name key)), v1)" "stores T v name key x v1"
    using cache_get_run [OF assms(1,2)] by blast
  then have "kv_wf_view v1" "bucket_of T v1 c = Some name"
    using assms(2) by (simp_all add: stores_def stores_bucket_of [OF v1(2)])
  from linked_write(1) [OF this, of key bs] obtain v2 where
      v2: "gs_set (linked_store T) (cache_bucket c) key bs v1 = (Inr (), v2)"
      "stores T v1 name key (Some bs) v2" by blast
  have "cache_set E (linked_store T) c key val ttl now1 now2 v =
      (Inr (live_value E now2 (stored_at v name key)), v2)"
    by (simp add: cache_set_def cache_call_def assms(3) v1(1) v2(1))
  with stores_stores [OF v1(2) v2(2)] show ?thesis by blast
qed

lemma cache_wrap_ttl:
  assumes "cache_env_laws E" and "cache_wrap E now val (Some secs) = Inr bs"
  shows "ce_decode E bs = Some (val, (now + sint secs * nanos) div nanos)"
proof -
  obtain t where t: "ce_deadline E now secs = Some t" "ce_encode E (val, t div nanos) = Inr bs"
    using assms(2) by (auto simp: cache_wrap_def cacheable_new_def cacheable_into_def res_bind_Inr_iff)
  obtain bs' where "t = now + sint secs * nanos" "ce_encode E (val, t div nanos) = Inr bs'"
      "ce_decode E bs' = Some (val, t div nanos)"
    using assms(1) t(1) unfolding cache_env_laws_def by blast
  with t show ?thesis by simp
qed

section \<open>The contract that clients of a cache rely on\<close>

text \<open>
  Values put with a time to live: an entry is a value and the second at which it expires.  The
  contract says when a get hits, what a put leaves, and that nothing else changes.
\<close>

locale ttl_cache =
  fixes copen :: "string \<Rightarrow> ('s, cache_fault, 'c) op"
    and cget :: "'c \<Rightarrow> string \<Rightarrow> int \<Rightarrow> ('s, cache_fault, bytes option) op"
    and cput :: "'c \<Rightarrow> string \<Rightarrow> bytes \<Rightarrow> u64 \<Rightarrow> int \<Rightarrow> int \<Rightarrow> ('s, cache_fault, bytes option) op"
    and names :: "'s \<Rightarrow> 'c \<Rightarrow> string option"
    and entry :: "'s \<Rightarrow> string \<Rightarrow> string \<Rightarrow> (bytes \<times> int) option"
    and ok :: "'s \<Rightarrow> bool"
  assumes open_law: "ok s \<Longrightarrow> copen b s = (Inr c, s') \<Longrightarrow>
      ok s' \<and> names s' c = Some b \<and> entry s' = entry s"
    and hit_law: "ok s \<Longrightarrow> names s c = Some b \<Longrightarrow> entry s b k = Some (x, t) \<Longrightarrow> now < t * nanos \<Longrightarrow>
      cget c k now s = (Inr (Some x), s)"
    and stale_law: "ok s \<Longrightarrow> names s c = Some b \<Longrightarrow> entry s b k = Some (x, t) \<Longrightarrow> \<not> now < t * nanos \<Longrightarrow>
      \<exists>s'. cget c k now s = (Inr None, s') \<and> ok s' \<and> entry s' = (entry s)(b := (entry s b)(k := None))"
    and keep_law: "ok s \<Longrightarrow> names s c = Some b \<Longrightarrow> cget c k now s = (r, s') \<Longrightarrow> ok s'"
    and put_law: "ok s \<Longrightarrow> names s c = Some b \<Longrightarrow> cput c k x ttl n1 n2 s = (Inr p, s') \<Longrightarrow>
      ok s' \<and> entry s' = (entry s)(b := (entry s b)(k \<mapsto> (x, (n1 + sint ttl * nanos) div nanos)))"
begin

text \<open>A put followed by a get through a fresh handle, before and after the deadline.\<close>

lemma put_open_get:
  assumes "ok s" and "names s c = Some b" and "cput c k x ttl n1 n2 s = (Inr p, s1)"
    and "copen b s1 = (Inr c', s2)"
  shows "now < (n1 + sint ttl * nanos) div nanos * nanos \<Longrightarrow> cget c' k now s2 = (Inr (Some x), s2)"
    and "\<not> now < (n1 + sint ttl * nanos) div nanos * nanos \<Longrightarrow> \<exists>s3. cget c' k now s2 = (Inr None, s3)"
proof -
  have s1: "ok s1" "entry s1 b k = Some (x, (n1 + sint ttl * nanos) div nanos)"
    using put_law [OF assms(1-3)] by auto
  have s2: "ok s2" "names s2 c' = Some b" "entry s2 b k = Some (x, (n1 + sint ttl * nanos) div nanos)"
    using open_law [OF s1(1) assms(4)] s1(2) by auto
  show "now < (n1 + sint ttl * nanos) div nanos * nanos \<Longrightarrow> cget c' k now s2 = (Inr (Some x), s2)"
    using hit_law [OF s2] .
  show "\<not> now < (n1 + sint ttl * nanos) div nanos * nanos \<Longrightarrow> \<exists>s3. cget c' k now s2 = (Inr None, s3)"
    using stale_law [OF s2] by blast
qed

end

definition kv_cache_entry ::
  "cache_env \<Rightarrow> (kv_store, 't) ctx_view \<Rightarrow> string \<Rightarrow> string \<Rightarrow> (bytes \<times> int) option" where
  "kv_cache_entry E v name key = Option.bind (stored_at v name key) (ce_decode E)"

lemma stores_entry:
  "stores T v name key x v' \<Longrightarrow> kv_cache_entry E v' =
     (kv_cache_entry E v)(name := (kv_cache_entry E v name)(key := Option.bind x (ce_decode E)))"
  by (auto simp: stores_def kv_cache_entry_def fun_eq_iff)

lemma kv_cache_is_ttl_cache:
  fixes T :: "('t, in_mem_bucket kv_entry) table_ops"
  assumes T: "table_laws T" and E: "cache_env_laws E"
  shows "ttl_cache (cache_open E (linked_store T)) (cache_get E (linked_store T))
    (\<lambda>c k x ttl. cache_set E (linked_store T) c k x (Some ttl)) (bucket_of T) (kv_cache_entry E) kv_wf_view"
proof
  fix v v' :: "(kv_store, 't) ctx_view" and name c
  assume wf: "kv_wf_view v" and run: "cache_open E (linked_store T) name v = (Inr c, v')"
  obtain v1 h where "host_open T open_bucket name v = (Inr h, v')" "c = \<lparr>cache_bucket = h\<rparr>"
    using run by (auto simp: cache_open_def cache_call_def linked_store_def op_bind_Inr)
  with host_open_spec [OF T, of v name h v'] wf
  show "kv_wf_view v' \<and> bucket_of T v' c = Some name \<and> kv_cache_entry E v' = kv_cache_entry E v"
    by (simp add: kv_wf_view_def bucket_of_def kv_cache_entry_def [abs_def] stored_at_def)
next
  fix v :: "(kv_store, 't) ctx_view" and c name key x t now
  assume wf: "kv_wf_view v" "bucket_of T v c = Some name" and e: "kv_cache_entry E v name key = Some (x, t)"
  then obtain bs where bs: "stored_at v name key = Some bs" "ce_decode E bs = Some (x, t)"
    by (auto simp: kv_cache_entry_def bind_eq_Some_conv)
  note env = cacheable_from_def [of E bs, unfolded bs(2), simplified]
  {
    assume "now < t * nanos"
    then show "cache_get E (linked_store T) c key now v = (Inr (Some x), v)"
      by (simp add: cache_get_def cache_call_def linked_read [OF wf] bs env is_expired_def)
  next
    assume "\<not> now < t * nanos"
    then have "dead E now (Some bs)" by (simp add: dead_def live_value_def bs)
    then show "\<exists>v'. cache_get E (linked_store T) c key now v = (Inr None, v') \<and> kv_wf_view v' \<and>
        kv_cache_entry E v' = (kv_cache_entry E v)(name := (kv_cache_entry E v name)(key := None))"
      using cache_get_run [OF wf, of E key now] stores_entry [of T v name key None _ E]
      by (auto simp: bs dead_def stores_def)
  }
next
  fix v v' :: "(kv_store, 't) ctx_view" and c name key now r
  assume wf: "kv_wf_view v" "bucket_of T v c = Some name"
    and "cache_get E (linked_store T) c key now v = (r, v')"
  then show "kv_wf_view v'" using cache_get_run [OF wf, of E key now] by (auto simp: stores_def)
next
  fix v v' :: "(kv_store, 't) ctx_view" and c name key x ttl n1 n2 p
  assume wf: "kv_wf_view v" "bucket_of T v c = Some name"
    and run: "cache_set E (linked_store T) c key x (Some ttl) n1 n2 v = (Inr p, v')"
  then obtain bs where bs: "cache_wrap E n1 x (Some ttl) = Inr bs"
    by (auto simp: cache_set_def op_bind_Inr)
  from cache_set_run [OF wf bs, of key n2] run have "stores T v name key (Some bs) v'" by auto
  with stores_entry [OF this, of E] cache_wrap_ttl [OF E bs]
  show "kv_wf_view v' \<and> kv_cache_entry E v' = (kv_cache_entry E v)
      (name := (kv_cache_entry E v name)(key \<mapsto> (x, (n1 + sint ttl * nanos) div nanos)))"
    by (simp add: stores_def)
qed

section \<open>An environment for the witnesses\<close>

text \<open>
  A codec that satisfies the laws: a tag, the sign and the unary magnitude of the seconds, then
  the value.  Deadlines never leave chrono's range.
\<close>

definition unary_encode :: "bytes \<times> int \<Rightarrow> bytes" where
  "unary_encode e = (case e of (val, t) \<Rightarrow>
     7 # (if t < 0 then 1 else 0) # replicate (nat \<bar>t\<bar>) 1 @ 0 # val)"

fun unary_decode :: "bytes \<Rightarrow> (bytes \<times> int) option" where
  "unary_decode (tag # sg # rest) =
     (if tag \<noteq> 7 then None
      else (case dropWhile (\<lambda>b. b = 1) rest of
          [] \<Rightarrow> None
        | _ # val \<Rightarrow>
            (let n = int (length (takeWhile (\<lambda>b. b = 1) rest))
             in Some (val, if sg = 1 then - n else n))))"
| "unary_decode _ = None"

lemma unary_roundtrip: "unary_decode (unary_encode (val, t)) = Some (val, t)"
proof -
  have 1: "dropWhile (\<lambda>b. b = 1) (replicate n 1 @ 0 # val) = 0 # val"
    and 2: "takeWhile (\<lambda>b. b = 1) (replicate n 1 @ 0 # val) = replicate n 1" for n
    by (induction n) auto
  show ?thesis by (simp add: unary_encode_def 1 2 Let_def)
qed

definition unary_env :: cache_env where
  "unary_env = \<lparr>ce_deadline = (\<lambda>now secs. Some (now + sint secs * nanos)),
     ce_encode = (\<lambda>e. Inr (unary_encode e)), ce_decode = unary_decode, ce_show = (\<lambda>_. ''error'')\<rparr>"

lemma unary_env_laws: "cache_env_laws unary_env"
  by (simp add: cache_env_laws_def unary_env_def unary_roundtrip)

interpretation kvc: ttl_cache "cache_open unary_env (linked_store slot_table)"
    "cache_get unary_env (linked_store slot_table)"
    "\<lambda>c k x ttl. cache_set unary_env (linked_store slot_table) c k x (Some ttl)"
    "bucket_of slot_table" "kv_cache_entry unary_env" kv_wf_view
  by (rule kv_cache_is_ttl_cache [OF slot_table_laws unary_env_laws])

section \<open>Properties\<close>

text \<open>
  Reading the cache.  On a cache over the in-memory host, \<open>get\<close> never fails; it returns what
  the stored bytes mean at the instant of the call (the value inside a live envelope, the bytes
  themselves when they are no envelope, nothing when the key is absent or expired), and its
  only effect is to delete a key whose envelope has expired.
\<close>

theorem kv_cache_get:
  assumes "kv_wf_view v" and "bucket_of T v c = Some name"
  shows "\<exists>v'. cache_get E (linked_store T) c key now v = (Inr (live_value E now (stored_at v name key)), v') \<and>
    kv_wf_view v' \<and> cv_table v' = cv_table v \<and>
    stored_at v' = (stored_at v)(name := (stored_at v name)
      (key := if dead E now (stored_at v name key) then None else stored_at v name key))"
  using cache_get_run [OF assms, of E key now] by (auto simp: stores_def)

text \<open>A host with one bucket that holds one envelope, expiring at second 60, and one plain value.\<close>

definition demo_view :: "(kv_store, in_mem_bucket kv_entry option list) ctx_view" where
  "demo_view = \<lparr>cv_ctx = [(''c'', [(''e'', unary_encode ([1, 2], 60)), (''p'', [9])])],
     cv_table = [Some (EBucket \<lparr>bk_name = ''c''\<rparr>)]\<rparr>"

lemma demo_view_ok:
  "kv_wf_view demo_view" "bucket_of slot_table demo_view \<lparr>cache_bucket = 0\<rparr> = Some ''c''"
  by (simp_all add: demo_view_def kv_wf_view_def kv_wf_def hm_wf_def bucket_of_def handle_of_def
      slot_table_def slot_get_def)

lemma demo_stored:
  "stored_at demo_view ''c'' ''e'' = Some (unary_encode ([1, 2], 60))"
  "stored_at demo_view ''c'' ''p'' = Some [9]"
  by (simp_all add: demo_view_def stored_at_def kv_view_def)

lemma demo_live:
  "live_value unary_env now (Some (unary_encode ([1, 2], 60))) =
     (if now < 60 * nanos then Some [1, 2] else None)"
  "live_value unary_env now (Some [9]) = Some [9]"
  by (simp_all add: live_value_def unary_env_def unary_roundtrip)

theorem kv_cache_get_witness:
  "fst (cache_get unary_env (linked_store slot_table) \<lparr>cache_bucket = 0\<rparr> ''e'' 5 demo_view) = Inr (Some [1, 2]) \<and>
   fst (cache_get unary_env (linked_store slot_table) \<lparr>cache_bucket = 0\<rparr> ''e'' (61 * nanos) demo_view) = Inr None"
  using kv_cache_get [OF demo_view_ok, of unary_env "''e''" 5]
    kv_cache_get [OF demo_view_ok, of unary_env "''e''" "61 * nanos"]
  by (auto simp: demo_stored demo_live nanos_def)

text \<open>
  C15: Writing the cache.  When a \<open>set\<close> succeeds, it returns what the key meant before; a later
  \<open>get\<close> at instant \<open>now\<close> returns the value exactly until the whole second in which the time to live
  ends, and without a time to live it returns what the bytes mean (the value itself unless it
  parses as an envelope); no other key or bucket changes.
\<close>

theorem kv_cache_set_get:
  assumes "cache_env_laws E" and "kv_wf_view v" and "bucket_of T v c = Some name"
    and "cache_set E (linked_store T) c key val ttl now1 now2 v = (Inr previous, v')"
  shows "previous = live_value E now2 (stored_at v name key) \<and>
    fst (cache_get E (linked_store T) c key now v') = Inr (case ttl of
        None \<Rightarrow> live_value E now (Some val)
      | Some secs \<Rightarrow> if now < (now1 + sint secs * nanos) div nanos * nanos then Some val else None) \<and>
    (\<forall>n k. n \<noteq> name \<or> k \<noteq> key \<longrightarrow> stored_at v' n k = stored_at v n k)"
proof -
  obtain bs where bs: "cache_wrap E now1 val ttl = Inr bs"
    using assms(4) by (auto simp: cache_set_def op_bind_Inr)
  have st: "previous = live_value E now2 (stored_at v name key)" "stores T v name key (Some bs) v'"
    using cache_set_run [OF assms(2,3) bs, of key now2] assms(4) by auto
  then have v': "kv_wf_view v'" "bucket_of T v' c = Some name" "stored_at v' name key = Some bs"
    using assms(3) by (simp_all add: stores_bucket_of [OF st(2)]) (simp_all add: stores_def)
  have "fst (cache_get E (linked_store T) c key now v') = Inr (live_value E now (Some bs))"
    using cache_get_run [OF v'(1,2), of E key now] v'(3) by auto
  moreover have "live_value E now (Some bs) = (case ttl of
        None \<Rightarrow> live_value E now (Some val)
      | Some secs \<Rightarrow> if now < (now1 + sint secs * nanos) div nanos * nanos then Some val else None)"
    using bs cache_wrap_ttl [OF assms(1)]
    by (cases ttl) (simp_all add: cache_wrap_def [of _ _ _ None] live_value_def)
  ultimately show ?thesis using st by (auto simp: stores_def)
qed

theorem kv_cache_set_get_witness:
  "\<exists>p v'. cache_set unary_env (linked_store slot_table) \<lparr>cache_bucket = 0\<rparr> ''e'' [5] (Some 60) 0 5 demo_view = (Inr p, v') \<and>
     p = Some [1, 2] \<and>
     fst (cache_get unary_env (linked_store slot_table) \<lparr>cache_bucket = 0\<rparr> ''e'' 7 v') = Inr (Some [5])"
proof -
  have "cache_wrap unary_env 0 [5] (Some 60) = Inr (unary_encode ([5], 60))"
    by (simp add: cache_wrap_def unary_env_def cacheable_new_def cacheable_into_def nanos_def)
  from cache_set_run [OF demo_view_ok this, of "''e''" 5] obtain v' where
    run: "cache_set unary_env (linked_store slot_table) \<lparr>cache_bucket = 0\<rparr> ''e'' [5] (Some 60) 0 5 demo_view =
      (Inr (live_value unary_env 5 (stored_at demo_view ''c'' ''e'')), v')" by blast
  have "fst (cache_get unary_env (linked_store slot_table) \<lparr>cache_bucket = 0\<rparr> ''e'' 7 v') = Inr (Some [5])"
    using kv_cache_set_get [OF unary_env_laws demo_view_ok run, of 7] by (simp add: nanos_def)
  moreover have "live_value unary_env 5 (stored_at demo_view ''c'' ''e'') = Some [1, 2]"
    by (simp add: demo_stored demo_live nanos_def)
  ultimately show ?thesis using run by auto
qed

end
