(* ===== verification/Messaging.thy ===== *)
theory Messaging
  imports ResourceTable
begin

text \<open>
  wasi-messaging: the in-memory backend \<open>MessagingDefault\<close> (\<open>src/host/default_impl.rs\<close>), the
  handlers of the \<open>types\<close>, \<open>producer\<close> and \<open>request-reply\<close> interfaces (\<open>types_impl.rs\<close>,
  \<open>producer_impl.rs\<close>, \<open>request_reply_impl.rs\<close>), the conversions of \<open>resource.rs\<close> and the server
  (\<open>server.rs\<close>).

  tokio's broadcast channel is a parameter: \<open>sender\<close> publishes a message in the context's state
  or reports an error.  A trait object \<open>Arc<dyn Message>\<close> is an in-memory message or one of
  another provider, given by what its methods return.
\<close>

section \<open>Messages\<close>

type_synonym metadata = "(string, string) hashmap"

record reply =
  rp_client_name :: string
  rp_topic :: string

record in_mem_message =
  mg_topic :: string
  mg_payload :: bytes
  mg_metadata :: "metadata option"
  mg_description :: "string option"
  mg_reply :: "reply option"

datatype dyn_message = InMem in_mem_message | OtherProvider in_mem_message

fun message_of :: "dyn_message \<Rightarrow> in_mem_message" where
  "message_of (InMem m) = m"
| "message_of (OtherProvider m) = m"

definition message_from :: "bytes \<Rightarrow> in_mem_message" where
  "message_from data = \<lparr>mg_topic = [], mg_payload = data, mg_metadata = None,
     mg_description = None, mg_reply = None\<rparr>"

definition message_length :: "in_mem_message \<Rightarrow> nat" where
  "message_length m = length (mg_payload m)"

text \<open>\<open>message.as_any().downcast_ref::<InMemMessage>()\<close>, or the error of the \<open>else\<close> branch.\<close>

fun downcast :: "dyn_message \<Rightarrow> anyhow + in_mem_message" where
  "downcast (InMem m) = Inr m"
| "downcast (OtherProvider m) = Inl (Anyhow ''invalid message type'')"

text \<open>\<open>metadata.unwrap_or_default()\<close>\<close>

definition metadata_or_default :: "in_mem_message \<Rightarrow> metadata" where
  "metadata_or_default m = (case mg_metadata m of None \<Rightarrow> [] | Some md \<Rightarrow> md)"

definition new_message :: "bytes \<Rightarrow> anyhow + dyn_message" where
  "new_message data = Inr (InMem (message_from data))"

definition set_content_type :: "dyn_message \<Rightarrow> string \<Rightarrow> anyhow + dyn_message" where
  "set_content_type message content_type = res_bind (downcast message) (\<lambda>inmem.
     Inr (InMem (inmem\<lparr>mg_metadata :=
       Some (hm_insert ''content-type'' content_type (metadata_or_default inmem))\<rparr>)))"

definition set_payload :: "dyn_message \<Rightarrow> bytes \<Rightarrow> anyhow + dyn_message" where
  "set_payload message data = res_bind (downcast message) (\<lambda>inmem. Inr (InMem (inmem\<lparr>mg_payload := data\<rparr>)))"

definition add_metadata :: "dyn_message \<Rightarrow> string \<Rightarrow> string \<Rightarrow> anyhow + dyn_message" where
  "add_metadata message key val = res_bind (downcast message) (\<lambda>inmem.
     Inr (InMem (inmem\<lparr>mg_metadata := Some (hm_insert key val (metadata_or_default inmem))\<rparr>)))"

definition set_metadata :: "dyn_message \<Rightarrow> metadata \<Rightarrow> anyhow + dyn_message" where
  "set_metadata message md = res_bind (downcast message) (\<lambda>inmem. Inr (InMem (inmem\<lparr>mg_metadata := Some md\<rparr>)))"

definition remove_metadata :: "dyn_message \<Rightarrow> string \<Rightarrow> anyhow + dyn_message" where
  "remove_metadata message key = res_bind (downcast message) (\<lambda>inmem.
     Inr (InMem (inmem\<lparr>mg_metadata := map_option (hm_remove key) (mg_metadata inmem)\<rparr>)))"

text \<open>Between the interface's list of pairs and the hash map.\<close>

definition metadata_into_wit :: "metadata \<Rightarrow> (string \<times> string) list" where
  "metadata_into_wit md = md"

definition metadata_from_wit :: "(string \<times> string) list \<Rightarrow> metadata" where
  "metadata_from_wit l = fold (\<lambda>(k, v). hm_insert k v) l []"

section \<open>The client\<close>

type_synonym 'w sender = "dyn_message \<Rightarrow> ('w, string, unit) op"

definition send_error :: "string \<Rightarrow> anyhow" where
  "send_error e = Anyhow (''send error: '' @ e)"

definition client_send :: "'w sender \<Rightarrow> string \<Rightarrow> dyn_message \<Rightarrow> ('w, anyhow, unit) op" where
  "client_send sender topic message =
     op_bind (op_lift (downcast message)) (\<lambda>inmem.
     op_map_err send_error (sender (InMem (inmem\<lparr>mg_topic := topic\<rparr>))))"

definition ack_message :: in_mem_message where
  "ack_message = \<lparr>mg_topic = ''response'', mg_payload = map of_char ''ACK'', mg_metadata = None,
     mg_description = Some ''default response'', mg_reply = None\<rparr>"

definition client_request :: "'w sender \<Rightarrow> string \<Rightarrow> dyn_message \<Rightarrow> ('w, anyhow, dyn_message) op" where
  "client_request sender topic message =
     op_bind (op_lift (downcast message)) (\<lambda>inmem.
     op_bind (op_map_err send_error (sender (InMem (inmem\<lparr>mg_topic := topic\<rparr>)))) (\<lambda>_.
     op_return (InMem ack_message)))"

text \<open>A subscription drops the items that report that the receiver lagged behind.\<close>

definition subscription :: "(nat + dyn_message) list \<Rightarrow> dyn_message list" where
  "subscription items = List.map_filter (\<lambda>res. case res of Inl lagged \<Rightarrow> None | Inr m \<Rightarrow> Some m) items"

section \<open>The handlers\<close>

datatype msg_error = MsgTimeout | MsgConnection string | MsgPermissionDenied string | MsgOther cause

record request_options =
  ro_timeout_ms :: "u64 option"
  ro_expected_replies :: "u32 option"

text \<open>
  What a host table holds.  The handlers look for a \<open>MessageProxy\<close>; an \<open>Arc<dyn Message>\<close> that is
  pushed without its proxy is an entry of another type.
\<close>

datatype msg_entry =
    MClient
  | MProxy dyn_message
  | MArc dyn_message
  | MOptions request_options

fun as_proxy :: "msg_entry \<Rightarrow> dyn_message option" where
  "as_proxy (MProxy m) = Some m"
| "as_proxy _ = None"

fun as_client :: "msg_entry \<Rightarrow> unit option" where
  "as_client MClient = Some ()"
| "as_client _ = None"

fun as_options :: "msg_entry \<Rightarrow> request_options option" where
  "as_options (MOptions r) = Some r"
| "as_options _ = None"

type_synonym ('w, 't, 'a) msg_call = "(('w, 't) ctx_view, msg_error, 'a) op"
type_synonym ('w, 't, 'a) msg_trap = "(('w, 't) ctx_view, anyhow, 'a) op"
type_synonym 't msg_table = "('t, msg_entry) table_ops"

definition msg_from_anyhow :: "anyhow \<Rightarrow> msg_error" where
  "msg_from_anyhow e = MsgOther (Of_anyhow e)"

definition msg_from_table :: "table_error \<Rightarrow> msg_error" where
  "msg_from_table e = MsgOther (Of_table e)"

definition msg_push :: "'t msg_table \<Rightarrow> msg_entry \<Rightarrow> ('w, 't, nat) msg_trap" where
  "msg_push T e = op_map_err table_anyhow (push_entry T e)"

definition find_message :: "'t msg_table \<Rightarrow> nat \<Rightarrow> ('w, 't, dyn_message) msg_trap" where
  "find_message T self = op_map_err table_anyhow (get_entry T as_proxy self)"

definition get_client :: "'t msg_table \<Rightarrow> nat \<Rightarrow> ('w, 't, unit) msg_call" where
  "get_client T self = op_map_err msg_from_table (get_entry T as_client self)"

definition get_message :: "'t msg_table \<Rightarrow> nat \<Rightarrow> ('w, 't, dyn_message) msg_call" where
  "get_message T self = op_map_err msg_from_table (get_entry T as_proxy self)"

definition msg_connect :: "'t msg_table \<Rightarrow> ('w, 't, nat) msg_call" where
  "msg_connect T = op_map_err msg_from_table (push_entry T MClient)"

definition msg_disconnect :: "nat \<Rightarrow> ('w, 't, unit) msg_call" where
  "msg_disconnect c = op_return ()"

definition msg_new :: "'t msg_table \<Rightarrow> bytes \<Rightarrow> ('w, 't, nat) msg_trap" where
  "msg_new T data = op_bind (op_lift (new_message data)) (\<lambda>m. msg_push T (MProxy m))"

definition msg_topic :: "'t msg_table \<Rightarrow> nat \<Rightarrow> ('w, 't, string option) msg_trap" where
  "msg_topic T self = op_bind (find_message T self) (\<lambda>m.
     let topic = mg_topic (message_of m) in op_return (if topic = [] then None else Some topic))"

definition msg_content_type :: "'t msg_table \<Rightarrow> nat \<Rightarrow> ('w, 't, string option) msg_trap" where
  "msg_content_type T self = op_bind (find_message T self) (\<lambda>m.
     op_return (case mg_metadata (message_of m) of
         None \<Rightarrow> None
       | Some md \<Rightarrow> hm_get md ''content-type''))"

definition msg_data :: "'t msg_table \<Rightarrow> nat \<Rightarrow> ('w, 't, bytes) msg_trap" where
  "msg_data T self = op_bind (find_message T self) (\<lambda>m. op_return (mg_payload (message_of m)))"

definition msg_metadata :: "'t msg_table \<Rightarrow> nat \<Rightarrow> ('w, 't, (string \<times> string) list option) msg_trap" where
  "msg_metadata T self = op_bind (find_message T self) (\<lambda>m.
     op_return (map_option metadata_into_wit (mg_metadata (message_of m))))"

text \<open>
  The five setters have one shape: look the message up, have the backend build an updated
  \<open>Arc<dyn Message>\<close>, push that as an entry of its own and drop its handle.
\<close>

definition push_updated ::
  "'t msg_table \<Rightarrow> nat \<Rightarrow> (dyn_message \<Rightarrow> anyhow + dyn_message) \<Rightarrow> ('w, 't, unit) msg_trap" where
  "push_updated T self f =
     op_bind (find_message T self) (\<lambda>message.
     op_bind (op_lift (f message)) (\<lambda>updated_message.
     op_bind (msg_push T (MArc updated_message)) (\<lambda>_. op_return ())))"

definition msg_set_content_type :: "'t msg_table \<Rightarrow> nat \<Rightarrow> string \<Rightarrow> ('w, 't, unit) msg_trap" where
  "msg_set_content_type T self content_type = push_updated T self (\<lambda>m. set_content_type m content_type)"

definition msg_set_data :: "'t msg_table \<Rightarrow> nat \<Rightarrow> bytes \<Rightarrow> ('w, 't, unit) msg_trap" where
  "msg_set_data T self data = push_updated T self (\<lambda>m. set_payload m data)"

definition msg_add_metadata :: "'t msg_table \<Rightarrow> nat \<Rightarrow> string \<Rightarrow> string \<Rightarrow> ('w, 't, unit) msg_trap" where
  "msg_add_metadata T self key val = push_updated T self (\<lambda>m. add_metadata m key val)"

definition msg_set_metadata :: "'t msg_table \<Rightarrow> nat \<Rightarrow> (string \<times> string) list \<Rightarrow> ('w, 't, unit) msg_trap" where
  "msg_set_metadata T self meta = push_updated T self (\<lambda>m. set_metadata m (metadata_from_wit meta))"

definition msg_remove_metadata :: "'t msg_table \<Rightarrow> nat \<Rightarrow> string \<Rightarrow> ('w, 't, unit) msg_trap" where
  "msg_remove_metadata T self key = push_updated T self (\<lambda>m. remove_metadata m key)"

definition msg_drop :: "'t msg_table \<Rightarrow> nat \<Rightarrow> ('w, 't, unit) msg_trap" where
  "msg_drop T rep = op_map_err table_anyhow (delete_entry T rep)"

definition producer_send :: "'t msg_table \<Rightarrow> 'w sender \<Rightarrow> nat \<Rightarrow> string \<Rightarrow> nat \<Rightarrow> ('w, 't, unit) msg_call" where
  "producer_send T sender c topic message =
     op_bind (get_client T c) (\<lambda>_.
     op_bind (get_message T message) (\<lambda>msg.
     op_map_err msg_from_anyhow (on_ctx (client_send sender topic msg))))"

definition find_options :: "'t msg_table \<Rightarrow> nat option \<Rightarrow> ('w, 't, request_options option) msg_call" where
  "find_options T options = (case options of
      None \<Rightarrow> op_return None
    | Some h \<Rightarrow> op_bind (op_map_err (\<lambda>e. msg_from_anyhow (table_anyhow e)) (get_entry T as_options h))
        (\<lambda>r. op_return (Some r)))"

definition msg_request ::
  "'t msg_table \<Rightarrow> 'w sender \<Rightarrow> nat \<Rightarrow> string \<Rightarrow> nat \<Rightarrow> nat option \<Rightarrow> ('w, 't, nat list) msg_call" where
  "msg_request T sender c topic message options =
     op_bind (get_client T c) (\<lambda>_.
     op_bind (get_message T message) (\<lambda>request.
     op_bind (find_options T options) (\<lambda>_.
     op_bind (op_map_err msg_from_anyhow (on_ctx (client_request sender topic request))) (\<lambda>reply.
     op_bind (op_map_err msg_from_table (push_entry T (MProxy reply))) (\<lambda>h.
     op_return [h])))))"

definition msg_reply :: "'t msg_table \<Rightarrow> 'w sender \<Rightarrow> nat \<Rightarrow> nat \<Rightarrow> ('w, 't, unit) msg_call" where
  "msg_reply T sender reply_to message =
     op_bind (get_message T reply_to) (\<lambda>to.
     case mg_reply (message_of to) of
       None \<Rightarrow> op_return ()
     | Some reply \<Rightarrow>
         op_bind (get_message T message) (\<lambda>msg.
         op_map_err msg_from_anyhow (on_ctx (client_send sender (rp_topic reply) msg))))"

definition options_new :: "'t msg_table \<Rightarrow> ('w, 't, nat) msg_trap" where
  "options_new T = msg_push T (MOptions \<lparr>ro_timeout_ms = None, ro_expected_replies = None\<rparr>)"

definition options_set_timeout :: "'t msg_table \<Rightarrow> nat \<Rightarrow> u32 \<Rightarrow> ('w, 't, unit) msg_trap" where
  "options_set_timeout T self timeout_ms = op_map_err table_anyhow
     (update_entry T as_options (\<lambda>r. MOptions (r\<lparr>ro_timeout_ms := Some (ucast timeout_ms)\<rparr>)) self)"

definition options_set_expected :: "'t msg_table \<Rightarrow> nat \<Rightarrow> u32 \<Rightarrow> ('w, 't, unit) msg_trap" where
  "options_set_expected T self expected = op_map_err table_anyhow
     (update_entry T as_options (\<lambda>r. MOptions (r\<lparr>ro_expected_replies := Some expected\<rparr>)) self)"

section \<open>The server\<close>

text \<open>
  A message is pushed into the table of a fresh store and the guest is called with its handle;
  the guest, with its instantiation, is an argument.
\<close>

definition server_handle ::
  "'t msg_table \<Rightarrow> (nat \<Rightarrow> ('w, 't, unit) msg_trap) \<Rightarrow> dyn_message \<Rightarrow> ('w, 't, unit) msg_trap" where
  "server_handle T guest message =
     op_bind (op_map_err (\<lambda>e. Anyhow (''failed to push message: '' @ anyhow_display (table_anyhow e)))
         (push_entry T (MProxy message))) (\<lambda>msg_res.
     op_map_err (Context ''issue sending message'') (guest msg_res))"

section \<open>Lemmas\<close>

lemma metadata_from_wit_get: "hm_get (metadata_from_wit l) = map_of (rev l)"
  by (simp add: metadata_from_wit_def hm_fold_insert)

lemma find_message_ok: "t_get T h (cv_table v) = Inr (MProxy m) \<Longrightarrow> find_message T h v = (Inr m, v)"
  by (simp add: find_message_def get_entry_def)

lemma get_message_ok: "t_get T h (cv_table v) = Inr (MProxy m) \<Longrightarrow> get_message T h v = (Inr m, v)"
  by (simp add: get_message_def get_entry_def)

lemma get_client_ok: "t_get T c (cv_table v) = Inr MClient \<Longrightarrow> get_client T c v = (Inr (), v)"
  by (simp add: get_client_def get_entry_def)

lemma push_updated_Inr:
  "push_updated T h f v = (Inr (), v') \<longleftrightarrow>
    (\<exists>m u k t. t_get T h (cv_table v) = Inr (MProxy m) \<and> f m = Inr u \<and>
       t_push T (MArc u) (cv_table v) = Inr (k, t) \<and> v' = v\<lparr>cv_table := t\<rparr>)"
proof -
  have "as_proxy e = Some m \<longleftrightarrow> e = MProxy m" for e m by (cases e) auto
  then show ?thesis
    by (auto simp: push_updated_def op_bind_Inr find_message_def get_entry_Inr msg_push_def push_entry_Inr
        op_lift_def)
qed

text \<open>The edits a guest makes on a message.\<close>

datatype msg_edit = EContentType string | EData bytes | EAddMeta string string
  | ESetMeta "(string \<times> string) list" | ERemoveMeta string

fun run_edit :: "'t msg_table \<Rightarrow> nat \<Rightarrow> msg_edit \<Rightarrow> ('w, 't, unit) msg_trap" where
  "run_edit T h (EContentType s) = msg_set_content_type T h s"
| "run_edit T h (EData d) = msg_set_data T h d"
| "run_edit T h (EAddMeta k x) = msg_add_metadata T h k x"
| "run_edit T h (ESetMeta l) = msg_set_metadata T h l"
| "run_edit T h (ERemoveMeta k) = msg_remove_metadata T h k"

fun apply_edit :: "msg_edit \<Rightarrow> dyn_message \<Rightarrow> anyhow + dyn_message" where
  "apply_edit (EContentType s) m = set_content_type m s"
| "apply_edit (EData d) m = set_payload m d"
| "apply_edit (EAddMeta k x) m = add_metadata m k x"
| "apply_edit (ESetMeta l) m = set_metadata m (metadata_from_wit l)"
| "apply_edit (ERemoveMeta k) m = remove_metadata m k"

lemma apply_edit_fun:
  "apply_edit (EContentType s) = (\<lambda>m. set_content_type m s)"
  "apply_edit (EData d) = (\<lambda>m. set_payload m d)"
  "apply_edit (EAddMeta k x) = (\<lambda>m. add_metadata m k x)"
  "apply_edit (ESetMeta l) = (\<lambda>m. set_metadata m (metadata_from_wit l))"
  "apply_edit (ERemoveMeta k) = (\<lambda>m. remove_metadata m k)"
  by (simp_all add: fun_eq_iff)

lemma run_edit_push: "run_edit T h e = push_updated T h (apply_edit e)"
  by (cases e) (simp_all add: msg_set_content_type_def msg_set_data_def msg_add_metadata_def
      msg_set_metadata_def msg_remove_metadata_def apply_edit_fun)

text \<open>What an edit means: the field it names changes, every other stays.\<close>

definition meta_of :: "dyn_message \<Rightarrow> string \<Rightarrow> string option" where
  "meta_of m = (case mg_metadata (message_of m) of None \<Rightarrow> Map.empty | Some md \<Rightarrow> hm_get md)"

fun edit_meta :: "msg_edit \<Rightarrow> (string \<Rightarrow> string option) \<Rightarrow> (string \<Rightarrow> string option)" where
  "edit_meta (EContentType s) m = m(''content-type'' \<mapsto> s)"
| "edit_meta (EData d) m = m"
| "edit_meta (EAddMeta k x) m = m(k \<mapsto> x)"
| "edit_meta (ESetMeta l) m = map_of (rev l)"
| "edit_meta (ERemoveMeta k) m = m(k := None)"

fun edit_payload :: "msg_edit \<Rightarrow> bytes \<Rightarrow> bytes" where
  "edit_payload (EData d) b = d"
| "edit_payload _ b = b"

section \<open>Properties\<close>

text \<open>
  The backend's setters.  On an in-memory message every edit succeeds and yields a message
  in which exactly the named part differs: the metadata is updated as a map (the last of
  duplicate keys wins), the payload is replaced, and topic, description and reply address stay.
\<close>

theorem apply_edit_spec:
  "\<exists>m'. apply_edit e (InMem m) = Inr (InMem m') \<and>
     meta_of (InMem m') = edit_meta e (meta_of (InMem m)) \<and>
     mg_payload m' = edit_payload e (mg_payload m) \<and>
     mg_topic m' = mg_topic m \<and> mg_description m' = mg_description m \<and> mg_reply m' = mg_reply m"
  by (cases e)
    (auto simp: set_content_type_def set_payload_def add_metadata_def set_metadata_def remove_metadata_def
      meta_of_def metadata_or_default_def metadata_from_wit_get fun_eq_iff split: option.splits)

text \<open>
  C18: A guest's edit is lost.  When a setter handler reports success, every handle of the table
  still denotes the entry it denoted before, the message included, and the backend is
  unchanged: the updated message was pushed under a handle nobody holds, as an entry that is
  not even a message to the handlers.
\<close>

theorem msg_edit_lost:
  assumes "table_laws T" and "run_edit T h e v = (Inr (), v')"
  shows "cv_ctx v' = cv_ctx v \<and>
    (\<forall>k x. t_get T k (cv_table v) = Inr x \<longrightarrow> t_get T k (cv_table v') = Inr x) \<and>
    msg_data T h v' = (fst (msg_data T h v), v') \<and> msg_metadata T h v' = (fst (msg_metadata T h v), v') \<and>
    msg_content_type T h v' = (fst (msg_content_type T h v), v') \<and>
    (\<exists>leak u. t_get T leak (cv_table v) = Inl NotPresent \<and> t_get T leak (cv_table v') = Inr (MArc u) \<and>
       fst (find_message T leak v') = Inl (table_anyhow WrongType))"
proof -
  obtain m u k t where m: "t_get T h (cv_table v) = Inr (MProxy m)" "apply_edit e m = Inr u"
      "t_push T (MArc u) (cv_table v) = Inr (k, t)" "v' = v\<lparr>cv_table := t\<rparr>"
    using assms(2) by (auto simp: run_edit_push push_updated_Inr)
  have keep: "\<forall>j x. t_get T j (cv_table v) = Inr x \<longrightarrow> t_get T j (cv_table v') = Inr x"
    using table_push_keeps(2) [OF assms(1) m(3)] by (simp add: m(4))
  then have h: "t_get T h (cv_table v') = Inr (MProxy m)" using m(1) by simp
  have "t_get T k (cv_table v) = Inl NotPresent" "t_get T k (cv_table v') = Inr (MArc u)"
    using table_push_get(1,2) [OF assms(1) m(3)] by (simp_all add: m(4))
  moreover from this(2) have "fst (find_message T k v') = Inl (table_anyhow WrongType)"
    by (simp add: find_message_def get_entry_def op_map_err_def)
  ultimately show ?thesis
    using keep by (simp add: m(4) msg_data_def msg_metadata_def msg_content_type_def
        find_message_ok [OF m(1)] find_message_ok [OF h, unfolded m(4)]) blast
qed

definition demo_message :: in_mem_message where
  "demo_message = \<lparr>mg_topic = [], mg_payload = [1], mg_metadata = None, mg_description = None,
     mg_reply = Some \<lparr>rp_client_name = ''c'', rp_topic = ''r''\<rparr>\<rparr>"

definition demo_msg_view :: "(dyn_message list, msg_entry option list) ctx_view" where
  "demo_msg_view = \<lparr>cv_ctx = [], cv_table = [Some MClient, Some (MProxy (InMem demo_message))]\<rparr>"

theorem msg_edit_lost_witness:
  "\<exists>v'. run_edit slot_table 1 (EData [2, 3]) demo_msg_view = (Inr (), v') \<and>
     msg_data slot_table 1 v' = (Inr [1], v')"
proof -
  have "\<exists>v'. run_edit slot_table 1 (EData [2, 3]) demo_msg_view = (Inr (), v')"
    by (simp add: run_edit_push push_updated_Inr slot_table_def slot_get_def demo_msg_view_def
        set_payload_def)
  then obtain v' where r: "run_edit slot_table 1 (EData [2, 3]) demo_msg_view = (Inr (), v')" by blast
  have "fst (msg_data slot_table 1 demo_msg_view) = Inr [1]"
    by (simp add: msg_data_def find_message_ok [of _ _ _ "InMem demo_message"] demo_msg_view_def
        slot_table_def slot_get_def demo_message_def)
  with r msg_edit_lost [OF slot_table_laws r] show ?thesis by auto
qed

text \<open>
  Sending.  With valid handles, \<open>send\<close> publishes the message with its topic replaced and every
  other part as the guest's table holds it, in one call to the channel, and leaves the table
  alone; \<open>reply\<close> does the same on the reply address of the message replied to, or nothing when
  there is none; \<open>request\<close> also publishes and returns one fresh handle on the fixed
  acknowledgment, whatever the options.
\<close>

theorem producer_send_publishes:
  assumes "t_get T c (cv_table v) = Inr MClient" and "t_get T h (cv_table v) = Inr (MProxy (InMem m))"
    and "sender (InMem (m\<lparr>mg_topic := topic\<rparr>)) (cv_ctx v) = (r, w)"
  shows "producer_send T sender c topic h v =
      (res_map_err (\<lambda>e. msg_from_anyhow (send_error e)) r, v\<lparr>cv_ctx := w\<rparr>) \<and>
    (\<forall>to a. t_get T to (cv_table v) = Inr (MProxy (InMem a)) \<longrightarrow>
      msg_reply T sender to h v = (case mg_reply a of
          None \<Rightarrow> (Inr (), v)
        | Some rp \<Rightarrow> producer_send T sender c (rp_topic rp) h v)) \<and>
    (\<forall>hs v'. table_laws T \<longrightarrow> msg_request T sender c topic h None v = (Inr hs, v') \<longrightarrow>
      r = Inr () \<and> cv_ctx v' = w \<and> (\<exists>k. hs = [k] \<and> t_get T k (cv_table v) = Inl NotPresent \<and>
        t_get T k (cv_table v') = Inr (MProxy (InMem ack_message))))"
proof (intro conjI allI impI)
  have send: "client_send sender t (InMem m) = op_map_err send_error (sender (InMem (m\<lparr>mg_topic := t\<rparr>)))" for t
    by (simp add: client_send_def fun_eq_iff)
  have map2: "res_map_err f (res_map_err g x) = res_map_err (\<lambda>e. f (g e)) x" for f g x
    by (cases x) simp_all
  show "producer_send T sender c topic h v =
      (res_map_err (\<lambda>e. msg_from_anyhow (send_error e)) r, v\<lparr>cv_ctx := w\<rparr>)"
    using assms(3)
    by (simp add: producer_send_def get_client_ok [OF assms(1)] get_message_ok [OF assms(2)] send map2)
  show "msg_reply T sender to h v = (case mg_reply a of
          None \<Rightarrow> (Inr (), v)
        | Some rp \<Rightarrow> producer_send T sender c (rp_topic rp) h v)"
    if "t_get T to (cv_table v) = Inr (MProxy (InMem a))" for to a
    by (cases "mg_reply a") (simp_all add: msg_reply_def get_message_ok [OF that] producer_send_def
        get_client_ok [OF assms(1)] get_message_ok [OF assms(2)])
  fix hs v'
  assume T: "table_laws T" and run: "msg_request T sender c topic h None v = (Inr hs, v')"
  then obtain k t where k: "r = Inr ()" "t_push T (MProxy (InMem ack_message)) (cv_table v) = Inr (k, t)"
      "hs = [k]" "v' = v\<lparr>cv_ctx := w, cv_table := t\<rparr>"
    using assms(3) by (auto simp: msg_request_def find_options_def get_client_ok [OF assms(1)]
        get_message_ok [OF assms(2)] client_request_def op_bind_Inr on_ctx_Inr push_entry_Inr)
  then show "r = Inr ()" "cv_ctx v' = w"
    "\<exists>k. hs = [k] \<and> t_get T k (cv_table v) = Inl NotPresent \<and>
        t_get T k (cv_table v') = Inr (MProxy (InMem ack_message))"
    using table_push_get(1,2) [OF T k(2)] by auto
qed

text \<open>A channel that records what is published.\<close>

definition log_sender :: "dyn_message list sender" where
  "log_sender m log = (Inr (), log @ [m])"

theorem producer_send_publishes_witness:
  "producer_send slot_table log_sender 0 ''t'' 1 demo_msg_view =
     (Inr (), demo_msg_view\<lparr>cv_ctx := [InMem (demo_message\<lparr>mg_topic := ''t''\<rparr>)]\<rparr>)"
proof -
  have 1: "t_get slot_table 0 (cv_table demo_msg_view) = Inr MClient"
    and 2: "t_get slot_table 1 (cv_table demo_msg_view) = Inr (MProxy (InMem demo_message))"
    by (simp_all add: demo_msg_view_def slot_table_def slot_get_def)
  have 3: "log_sender (InMem (demo_message\<lparr>mg_topic := ''t''\<rparr>)) (cv_ctx demo_msg_view) =
      (Inr (), [InMem (demo_message\<lparr>mg_topic := ''t''\<rparr>)])"
    by (simp add: log_sender_def demo_msg_view_def)
  show ?thesis using producer_send_publishes [where sender = log_sender, OF 1 2 3] by simp
qed

end
