(* ===== verification/Identity.thy ===== *)
theory Identity
  imports ResourceTable
begin

text \<open>
  wasi-identity: the token manager \<open>TokenManager\<close> (\<open>src/host/default_impl.rs\<close>) and the handlers of
  the \<open>credentials\<close> interface (\<open>src/host/credentials_impl.rs\<close>).

  The OAuth server is outside the source: \<open>issues scopes token\<close> says which tokens it may return
  for a request.  \<open>Instant\<close>s are integers (nanoseconds).  \<open>token\<close> takes the cache lock twice, so
  concurrent calls interleave between its check, its request and its store; the transition
  system below has a step for each.
\<close>

record access_token =
  at_token :: string
  at_expires_in :: u64

definition default_token :: access_token where
  "default_token = \<lparr>at_token = [], at_expires_in = 0\<rparr>"

record token_response =
  tr_access_token :: string
  tr_expires_in :: "u64 option"   \<comment> \<open>whole seconds\<close>

definition access_token_from :: "token_response \<Rightarrow> access_token" where
  "access_token_from r = \<lparr>at_token = tr_access_token r,
     at_expires_in = (case tr_expires_in r of None \<Rightarrow> 3600 | Some secs \<Rightarrow> secs)\<rparr>"

record cached_token =
  ct_token :: access_token
  ct_expires_at :: int

definition cached_token_new :: "int \<Rightarrow> access_token \<Rightarrow> cached_token" where
  "cached_token_new now t = \<lparr>ct_token = t, ct_expires_at = now + uint (at_expires_in t) * 10 ^ 9\<rparr>"

definition token_manager_new :: "int \<Rightarrow> cached_token" where
  "token_manager_new now = \<lparr>ct_token = default_token, ct_expires_at = now\<rparr>"

text \<open>The two critical sections of \<open>token\<close>: the check, and the store with its second check.\<close>

definition check_cache :: "int \<Rightarrow> cached_token \<Rightarrow> access_token option" where
  "check_cache now cache = (if ct_expires_at cache > now then Some (ct_token cache) else None)"

definition store_token :: "int \<Rightarrow> int \<Rightarrow> access_token \<Rightarrow> cached_token \<Rightarrow> access_token \<times> cached_token" where
  "store_token now now2 t cache =
     (let cache' = (if ct_expires_at cache \<le> now then cached_token_new now2 t else cache)
      in (ct_token cache', cache'))"

text \<open>
  One call with nothing else running: \<open>request\<close> is the exchange with the server for the scopes
  (its client and url construction included), and \<open>now2\<close> the instant of the store.
\<close>

definition manager_token ::
  "(string list \<Rightarrow> anyhow + token_response) \<Rightarrow> int \<Rightarrow> int \<Rightarrow> string list \<Rightarrow> (cached_token, anyhow, access_token) op" where
  "manager_token request now now2 scopes cache = (case check_cache now cache of
      Some t \<Rightarrow> (Inr t, cache)
    | None \<Rightarrow> (case request scopes of
          Inl e \<Rightarrow> (Inl e, cache)
        | Inr resp \<Rightarrow> (case store_token now now2 (access_token_from resp) cache of (t, cache') \<Rightarrow> (Inr t, cache'))))"

section \<open>The handlers\<close>

datatype identity_error = NoSuchIdentity | InternalFailure cause

datatype identity_entry = IdManager | IdOther

fun as_identity :: "identity_entry \<Rightarrow> unit option" where
  "as_identity IdManager = Some ()"
| "as_identity IdOther = None"

type_synonym ('t, 'a) id_call = "((cached_token, 't) ctx_view, identity_error, 'a) op"

definition host_get_identity :: "('t, identity_entry) table_ops \<Rightarrow> string \<Rightarrow> ('t, nat) id_call" where
  "host_get_identity T name = op_map_err (\<lambda>e. InternalFailure (Of_table e)) (push_entry T IdManager)"

definition find_identity :: "('t, identity_entry) table_ops \<Rightarrow> nat \<Rightarrow> ('t, unit) id_call" where
  "find_identity T self = op_map_err (\<lambda>_. NoSuchIdentity) (get_entry T as_identity self)"

definition host_get_token ::
  "('t, identity_entry) table_ops \<Rightarrow> (string list \<Rightarrow> anyhow + token_response) \<Rightarrow> int \<Rightarrow> int \<Rightarrow> nat \<Rightarrow> string list
    \<Rightarrow> ('t, access_token) id_call" where
  "host_get_token T request now now2 self scopes =
     op_bind (find_identity T self) (\<lambda>_.
     op_map_err (\<lambda>e. InternalFailure (Of_anyhow (Context ''issue getting access token'' e)))
       (on_ctx (manager_token request now now2 scopes)))"

definition host_drop_identity :: "('t, identity_entry) table_ops \<Rightarrow> nat \<Rightarrow> ((cached_token, 't) ctx_view, cause, unit) op" where
  "host_drop_identity T rep = op_map_err Of_table (delete_entry T rep)"

section \<open>Concurrent calls\<close>

datatype token_phase =
    TStart
  | TNow int                    \<comment> \<open>read the clock\<close>
  | TFetch int                  \<comment> \<open>missed the cache; its request is under way\<close>
  | TResponse int access_token  \<comment> \<open>has a response, not yet stored\<close>
  | TDone access_token
  | TFailed

record token_task =
  tt_scopes :: "string list"
  tt_phase :: token_phase

record token_state =
  ts_clock :: int
  ts_cache :: cached_token
  ts_tasks :: "token_task list"

definition set_task :: "token_state \<Rightarrow> nat \<Rightarrow> token_phase \<Rightarrow> token_state" where
  "set_task s i p = s\<lparr>ts_tasks := (ts_tasks s)[i := (ts_tasks s ! i)\<lparr>tt_phase := p\<rparr>]\<rparr>"

definition at_phase :: "token_state \<Rightarrow> nat \<Rightarrow> token_phase \<Rightarrow> bool" where
  "at_phase s i p \<longleftrightarrow> i < length (ts_tasks s) \<and> tt_phase (ts_tasks s ! i) = p"

inductive token_step :: "(string list \<Rightarrow> token_response \<Rightarrow> bool) \<Rightarrow> token_state \<Rightarrow> token_state \<Rightarrow> bool"
  for issues where
  tick: "0 < d \<Longrightarrow> token_step issues s (s\<lparr>ts_clock := ts_clock s + d\<rparr>)"
| start: "at_phase s i TStart \<Longrightarrow> token_step issues s (set_task s i (TNow (ts_clock s)))"
| hit: "at_phase s i (TNow now) \<Longrightarrow> check_cache now (ts_cache s) = Some t \<Longrightarrow>
    token_step issues s (set_task s i (TDone t))"
| miss: "at_phase s i (TNow now) \<Longrightarrow> check_cache now (ts_cache s) = None \<Longrightarrow>
    token_step issues s (set_task s i (TFetch now))"
| fail: "at_phase s i (TFetch now) \<Longrightarrow> token_step issues s (set_task s i TFailed)"
| respond: "at_phase s i (TFetch now) \<Longrightarrow> issues (tt_scopes (ts_tasks s ! i)) resp \<Longrightarrow>
    token_step issues s (set_task s i (TResponse now (access_token_from resp)))"
| store: "at_phase s i (TResponse now t) \<Longrightarrow> store_token now (ts_clock s) t (ts_cache s) = (t', cache') \<Longrightarrow>
    token_step issues s (set_task (s\<lparr>ts_cache := cache'\<rparr>) i (TDone t'))"

inductive token_run :: "(string list \<Rightarrow> token_response \<Rightarrow> bool) \<Rightarrow> token_state \<Rightarrow> token_state \<Rightarrow> bool"
  for issues where
  run_refl: "token_run issues s s"
| run_step: "token_run issues s s' \<Longrightarrow> token_step issues s' s'' \<Longrightarrow> token_run issues s s''"

definition token_init :: "int \<Rightarrow> string list list \<Rightarrow> token_state" where
  "token_init now scopes = \<lparr>ts_clock = now, ts_cache = token_manager_new now,
     ts_tasks = map (\<lambda>sc. \<lparr>tt_scopes = sc, tt_phase = TStart\<rparr>) scopes\<rparr>"

text \<open>The tokens issued for the scopes of some call.\<close>

definition issued_to :: "(string list \<Rightarrow> token_response \<Rightarrow> bool) \<Rightarrow> string list list \<Rightarrow> access_token \<Rightarrow> bool" where
  "issued_to issues scopes t \<longleftrightarrow> (\<exists>sc \<in> set scopes. \<exists>resp. issues sc resp \<and> t = access_token_from resp)"

fun phase_inv :: "(string list \<Rightarrow> token_response \<Rightarrow> bool) \<Rightarrow> string list list \<Rightarrow> int \<Rightarrow> token_phase \<Rightarrow> bool" where
  "phase_inv issues scopes t0 TStart = True"
| "phase_inv issues scopes t0 (TNow now) = (t0 \<le> now)"
| "phase_inv issues scopes t0 (TFetch now) = (t0 \<le> now)"
| "phase_inv issues scopes t0 (TResponse now t) = (t0 \<le> now \<and> issued_to issues scopes t)"
| "phase_inv issues scopes t0 (TDone t) = issued_to issues scopes t"
| "phase_inv issues scopes t0 TFailed = True"

definition token_inv :: "(string list \<Rightarrow> token_response \<Rightarrow> bool) \<Rightarrow> string list list \<Rightarrow> int \<Rightarrow> token_state \<Rightarrow> bool" where
  "token_inv issues scopes t0 s \<longleftrightarrow>
     map tt_scopes (ts_tasks s) = scopes \<and> t0 \<le> ts_clock s \<and>
     (ct_expires_at (ts_cache s) \<le> t0 \<or> issued_to issues scopes (ct_token (ts_cache s))) \<and>
     (\<forall>task \<in> set (ts_tasks s). phase_inv issues scopes t0 (tt_phase task))"

lemma token_inv_init: "token_inv issues scopes now (token_init now scopes)"
  by (auto simp: token_inv_def token_init_def token_manager_new_def comp_def)

lemma set_task_scopes [simp]: "map tt_scopes (ts_tasks (set_task s i p)) = map tt_scopes (ts_tasks s)"
  by (cases "i < length (ts_tasks s)")
    (simp_all add: set_task_def map_update list_update_beyond list_update_same_conv)

lemma set_task_simps [simp]:
  "ts_clock (set_task s i p) = ts_clock s" "ts_cache (set_task s i p) = ts_cache s"
  by (simp_all add: set_task_def)

lemma set_task_inv:
  assumes "token_inv issues scopes t0 s" and "phase_inv issues scopes t0 p"
  shows "token_inv issues scopes t0 (set_task s i p)"
proof -
  have "phase_inv issues scopes t0 (tt_phase task)" if "task \<in> set (ts_tasks (set_task s i p))" for task
  proof -
    from that have "task \<in> insert ((ts_tasks s ! i)\<lparr>tt_phase := p\<rparr>) (set (ts_tasks s))"
      using set_update_subset_insert [of "ts_tasks s" i "(ts_tasks s ! i)\<lparr>tt_phase := p\<rparr>"]
      by (auto simp: set_task_def)
    with assms show ?thesis by (auto simp: token_inv_def)
  qed
  with assms(1) show ?thesis by (simp add: token_inv_def)
qed

lemma at_phase_inv:
  "token_inv issues scopes t0 s \<Longrightarrow> at_phase s i p \<Longrightarrow> phase_inv issues scopes t0 p"
  by (auto simp: token_inv_def at_phase_def)

lemma at_phase_scopes:
  assumes "token_inv issues scopes t0 s" and "at_phase s i p"
  shows "tt_scopes (ts_tasks s ! i) \<in> set scopes"
proof -
  have "ts_tasks s ! i \<in> set (ts_tasks s)" using assms(2) by (simp add: at_phase_def)
  then have "tt_scopes (ts_tasks s ! i) \<in> set (map tt_scopes (ts_tasks s))" by simp
  with assms(1) show ?thesis by (simp add: token_inv_def)
qed

lemma token_inv_step:
  assumes "token_inv issues scopes t0 s" and "token_step issues s s'"
  shows "token_inv issues scopes t0 s'"
  using assms(2)
proof cases
  case (tick d)
  then show ?thesis using assms(1) by (auto simp: token_inv_def)
next
  case (start i)
  moreover have "t0 \<le> ts_clock s" using assms(1) by (simp add: token_inv_def)
  ultimately show ?thesis using assms(1) by (simp add: set_task_inv)
next
  case (hit i now t)
  have "t0 \<le> now" using at_phase_inv [OF assms(1) hit(2)] by simp
  then have "issued_to issues scopes t"
    using hit(3) assms(1) by (auto simp: check_cache_def token_inv_def split: if_splits)
  then show ?thesis using hit(1) assms(1) by (simp add: set_task_inv)
next
  case (miss i now)
  then show ?thesis using at_phase_inv [OF assms(1) miss(2)] assms(1) by (simp add: set_task_inv)
next
  case (fail i now)
  then show ?thesis using assms(1) by (simp add: set_task_inv)
next
  case (respond i now resp)
  have "issued_to issues scopes (access_token_from resp)"
    using respond(3) at_phase_scopes [OF assms(1) respond(2)] by (auto simp: issued_to_def)
  then show ?thesis
    using respond(1) at_phase_inv [OF assms(1) respond(2)] assms(1) by (simp add: set_task_inv)
next
  case (store i now t t' cache')
  have t: "t0 \<le> now" "issued_to issues scopes t" using at_phase_inv [OF assms(1) store(2)] by simp_all
  then have t': "issued_to issues scopes t'" "issued_to issues scopes (ct_token cache')"
    using store(3) assms(1)
    by (auto simp: store_token_def Let_def cached_token_new_def token_inv_def split: if_splits)
  then have "token_inv issues scopes t0 (s\<lparr>ts_cache := cache'\<rparr>)"
    using assms(1) by (simp add: token_inv_def)
  with t' show ?thesis using store(1) by (simp add: set_task_inv)
qed

lemma token_inv_run:
  "token_run issues s s' \<Longrightarrow> token_inv issues scopes t0 s \<Longrightarrow> token_inv issues scopes t0 s'"
  by (induction rule: token_run.induct) (blast intro: token_inv_step)+

section \<open>Properties\<close>

text \<open>
  C40: Tokens come from the server.  Under every interleaving of concurrent calls on a fresh
  manager, every token that a call returned was issued by the server for the scopes of one of
  the calls; the empty token that the cache starts with is never returned as such.
\<close>

theorem token_always_issued:
  assumes "token_run issues (token_init now scopes) s"
    and "i < length (ts_tasks s)" and "tt_phase (ts_tasks s ! i) = TDone t"
  shows "\<exists>sc \<in> set scopes. \<exists>resp. issues sc resp \<and> t = access_token_from resp"
proof -
  have "token_inv issues scopes now s"
    using token_inv_run [OF assms(1) token_inv_init] .
  from at_phase_inv [OF this, of i "TDone t"] assms(2,3) show ?thesis
    by (simp add: at_phase_def issued_to_def)
qed

lemma sharing_run:
  assumes "issues sc1 resp" and "0 < uint (at_expires_in (access_token_from resp))"
  defines "t \<equiv> access_token_from resp"
  shows "token_run issues (token_init 0 [sc1, sc2])
    \<lparr>ts_clock = 0, ts_cache = cached_token_new 0 t,
     ts_tasks = [\<lparr>tt_scopes = sc1, tt_phase = TDone t\<rparr>, \<lparr>tt_scopes = sc2, tt_phase = TDone t\<rparr>]\<rparr>"
proof -
  let ?s = "\<lambda>c p q. \<lparr>ts_clock = 0, ts_cache = c,
     ts_tasks = [\<lparr>tt_scopes = sc1, tt_phase = p\<rparr>, \<lparr>tt_scopes = sc2, tt_phase = q\<rparr>]\<rparr>"
  let ?c0 = "token_manager_new 0" and ?c1 = "cached_token_new 0 t"
  note defs = at_phase_def set_task_def check_cache_def store_token_def token_manager_new_def
    cached_token_new_def Let_def
  have 1: "token_step issues (?s ?c0 TStart TStart) (?s ?c0 (TNow 0) TStart)"
    using token_step.start [of "?s ?c0 TStart TStart" 0] by (simp add: defs)
  have 2: "token_step issues (?s ?c0 (TNow 0) TStart) (?s ?c0 (TFetch 0) TStart)"
    using token_step.miss [of "?s ?c0 (TNow 0) TStart" 0 0] by (simp add: defs)
  have 3: "token_step issues (?s ?c0 (TFetch 0) TStart) (?s ?c0 (TResponse 0 t) TStart)"
    using token_step.respond [of "?s ?c0 (TFetch 0) TStart" 0 0 issues resp] assms(1) by (simp add: defs t_def)
  have 4: "token_step issues (?s ?c0 (TResponse 0 t) TStart) (?s ?c1 (TDone t) TStart)"
    using token_step.store [of "?s ?c0 (TResponse 0 t) TStart" 0 0 t t ?c1 issues] by (simp add: defs)
  have 5: "token_step issues (?s ?c1 (TDone t) TStart) (?s ?c1 (TDone t) (TNow 0))"
    using token_step.start [of "?s ?c1 (TDone t) TStart" 1] by (simp add: defs)
  have 6: "token_step issues (?s ?c1 (TDone t) (TNow 0)) (?s ?c1 (TDone t) (TDone t))"
    using token_step.hit [of "?s ?c1 (TDone t) (TNow 0)" 1 0 t issues] assms(2) by (simp add: defs t_def)
  have "token_init 0 [sc1, sc2] = ?s ?c0 TStart TStart" by (simp add: token_init_def)
  moreover note run_step [OF run_step [OF run_step [OF run_step [OF run_step [OF run_step
    [OF run_refl 1] 2] 3] 4] 5] 6]
  ultimately show ?thesis by simp
qed

theorem token_always_issued_witness:
  "\<exists>s t. token_run (\<lambda>sc r. r = \<lparr>tr_access_token = concat sc, tr_expires_in = None\<rparr>) (token_init 0 [[''a''], [''b'']]) s \<and>
     tt_phase (ts_tasks s ! 1) = TDone t \<and>
     (\<exists>sc \<in> {[''a''], [''b'']}. t = access_token_from \<lparr>tr_access_token = concat sc, tr_expires_in = None\<rparr>)"
proof -
  let ?iss = "\<lambda>sc r. r = \<lparr>tr_access_token = concat sc, tr_expires_in = None\<rparr>"
  let ?t = "access_token_from \<lparr>tr_access_token = ''a'', tr_expires_in = None\<rparr>"
  let ?s = "\<lparr>ts_clock = 0, ts_cache = cached_token_new 0 ?t,
     ts_tasks = [\<lparr>tt_scopes = [''a''], tt_phase = TDone ?t\<rparr>, \<lparr>tt_scopes = [''b''], tt_phase = TDone ?t\<rparr>]\<rparr>"
  have run: "token_run ?iss (token_init 0 [[''a''], [''b'']]) ?s"
    by (rule sharing_run) (simp_all add: access_token_from_def)
  have "tt_phase (ts_tasks ?s ! 1) = TDone ?t" by simp
  with token_always_issued [OF run, of 1 ?t] run show ?thesis by (intro exI [of _ ?s] exI [of _ ?t]) auto
qed

text \<open>
  Scopes are ignored by the cache.  Whatever two scope lists are asked for and whatever the
  server issues for the first (with a positive lifetime), the second call returns the token of
  the first, without a request of its own: a caller can get a token with another's scopes.
\<close>

theorem token_ignores_scopes:
  assumes "issues sc1 resp" and "0 < uint (at_expires_in (access_token_from resp))"
  shows "\<exists>s. token_run issues (token_init 0 [sc1, sc2]) s \<and>
    tt_phase (ts_tasks s ! 1) = TDone (access_token_from resp) \<and>
    (\<forall>request now2. fst (manager_token request 0 now2 sc2 (ts_cache s)) = Inr (access_token_from resp))"
  by (rule exI, rule conjI, rule sharing_run [of issues sc1 resp sc2, OF assms])
    (use assms(2) in \<open>simp add: manager_token_def check_cache_def cached_token_new_def\<close>)

theorem token_ignores_scopes_witness:
  "\<exists>s. token_run (\<lambda>sc r. sc = [''admin''] \<and> tr_expires_in r = None) (token_init 0 [[''admin''], [''read'']]) s \<and>
     tt_phase (ts_tasks s ! 1) = TDone \<lparr>at_token = ''root'', at_expires_in = 3600\<rparr>"
  using token_ignores_scopes [of "\<lambda>sc r. sc = [''admin''] \<and> tr_expires_in r = None" "[''admin'']"
      "\<lparr>tr_access_token = ''root'', tr_expires_in = None\<rparr>" "[''read'']"]
  by (auto simp: access_token_from_def)

end
