(* ===== verification/Capabilities.thy ===== *)
theory Capabilities
  imports KeyValueCache Messaging Identity
begin

text \<open>
  qwasr-sdk, \<open>src/capabilities.rs\<close>: what a guest built for \<open>wasm32\<close> gets from the default methods
  of \<open>Config\<close>, \<open>Publisher\<close>, \<open>StateStore\<close> and \<open>Identity\<close>, linked to the hosts of this
  development; and the default backend of wasi-config (\<open>src/host/default_impl.rs\<close>), whose lookup
  is wasmtime's own store.  \<open>HttpRequest::fetch\<close> is the \<open>http_handle\<close> of theory HttpCache.

  Handles that a method opens are dropped when it returns; that only frees their table entries
  and is not part of these definitions.
\<close>

section \<open>State store\<close>

fun fault_context :: "string \<Rightarrow> cache_fault \<Rightarrow> cache_fault" where
  "fault_context msg (CacheErr e) = CacheErr (Context msg e)"
| "fault_context msg CachePanic = CachePanic"

definition with_context :: "string \<Rightarrow> ('s, cache_fault, 'a) op \<Rightarrow> ('s, cache_fault, 'a) op" where
  "with_context msg = op_map_err (fault_context msg)"

definition state_get ::
  "cache_env \<Rightarrow> ('h, 's) guest_store \<Rightarrow> string \<Rightarrow> int \<Rightarrow> ('s, cache_fault, bytes option) op" where
  "state_get E G key now =
     op_bind (with_context ''opening cache'' (cache_open E G ''cache'')) (\<lambda>bucket.
     with_context ''reading state from cache'' (cache_get E G bucket key now))"

definition state_set ::
  "cache_env \<Rightarrow> ('h, 's) guest_store \<Rightarrow> string \<Rightarrow> bytes \<Rightarrow> u64 option \<Rightarrow> int \<Rightarrow> int
    \<Rightarrow> ('s, cache_fault, bytes option) op" where
  "state_set E G key val ttl_secs now1 now2 =
     op_bind (with_context ''opening cache'' (cache_open E G ''cache'')) (\<lambda>bucket.
     with_context ''reading state from cache'' (cache_set E G bucket key val ttl_secs now1 now2))"

definition state_delete :: "cache_env \<Rightarrow> ('h, 's) guest_store \<Rightarrow> string \<Rightarrow> ('s, cache_fault, unit) op" where
  "state_delete E G key =
     op_bind (with_context ''opening cache'' (cache_open E G ''cache'')) (\<lambda>bucket.
     with_context ''deleting entry from cache'' (cache_delete E G bucket key))"

section \<open>Publisher\<close>

record pub_message =
  pm_payload :: bytes
  pm_headers :: "(string, string) hashmap"

definition pub_message_new :: "bytes \<Rightarrow> pub_message" where
  "pub_message_new payload = \<lparr>pm_payload = payload, pm_headers = []\<rparr>"

text \<open>
  The guest's error is the interface's one with a context; a trap of the host (from creating the
  message) ends the guest.
\<close>

datatype publish_fault = PublishErr string msg_error | PublishTrap anyhow

definition publisher_send ::
  "'t msg_table \<Rightarrow> 'w sender \<Rightarrow> string \<Rightarrow> pub_message \<Rightarrow> (('w, 't) ctx_view, publish_fault, unit) op" where
  "publisher_send T sender topic message =
     op_bind (op_map_err (PublishErr ''connecting to broker'') (msg_connect T)) (\<lambda>client.
     op_bind (op_map_err PublishTrap (msg_new T (pm_payload message))) (\<lambda>msg.
     op_map_err (PublishErr (''sending message to '' @ topic)) (producer_send T sender client topic msg)))"

section \<open>Identity\<close>

definition identity_access_token ::
  "('t, identity_entry) table_ops \<Rightarrow> (string list \<Rightarrow> anyhow + token_response) \<Rightarrow> int \<Rightarrow> int \<Rightarrow> string
    \<Rightarrow> ('t, string) id_call" where
  "identity_access_token T request now now2 name =
     op_bind (host_get_identity T name) (\<lambda>identity.
     op_bind (host_get_token T request now now2 identity []) (\<lambda>t. op_return (at_token t)))"

section \<open>Configuration\<close>

text \<open>\<open>env::vars().collect()\<close> into a map: a later variable of the same name wins.\<close>

definition config_connect :: "(string \<times> string) list \<Rightarrow> (string, string) hashmap" where
  "config_connect vars = fold (\<lambda>(k, v). hm_insert k v) vars []"

text \<open>\<open>store_get\<close> is wasmtime's lookup in the variables of \<open>get_config\<close>.\<close>

definition config_get ::
  "((string, string) hashmap \<Rightarrow> string \<Rightarrow> anyhow + string option) \<Rightarrow> (string, string) hashmap \<Rightarrow> string
    \<Rightarrow> anyhow + string" where
  "config_get store_get vars key =
     res_bind (res_map_err (Context ''getting configuration'') (store_get vars key))
       (\<lambda>config. ok_or (Anyhow ''configuration not found'') config)"

section \<open>Lemmas\<close>

lemma cache_open_run:
  assumes "table_laws T" and "kv_wf_view v" and "cache_open E (linked_store T) name v = (Inr c, v')"
  shows "kv_wf_view v'" and "bucket_of T v' c = Some name" and "stored_at v' = stored_at v"
proof -
  obtain h where h: "host_open T open_bucket name v = (Inr h, v')" "c = \<lparr>cache_bucket = h\<rparr>"
    using assms(3) by (auto simp: cache_open_def cache_call_def linked_store_def op_bind_Inr)
  with host_open_spec [OF assms(1) _ h(1)] assms(2)
  show "kv_wf_view v'" "bucket_of T v' c = Some name" "stored_at v' = stored_at v"
    by (auto simp: kv_wf_view_def bucket_of_def stored_at_def [abs_def])
qed

lemma with_context_Inr [simp]: "with_context msg m s = (Inr a, t) \<longleftrightarrow> m s = (Inr a, t)"
  by (simp add: with_context_def)

text \<open>
  The three operations as reads and updates of what the bucket \<open>cache\<close> stores under a key;
  \<open>state_updates\<close> says that a step leaves a well-formed host in which only that changed.
\<close>

definition state_updates ::
  "(kv_store, 't) ctx_view \<Rightarrow> string \<Rightarrow> bytes option \<Rightarrow> (kv_store, 't) ctx_view \<Rightarrow> bool" where
  "state_updates v key x v' \<longleftrightarrow> kv_wf_view v' \<and>
     stored_at v' = (stored_at v)(''cache'' := (stored_at v ''cache'')(key := x))"

lemma stores_updates:
  assumes "stores T v1 ''cache'' key x v'" and "stored_at v1 = stored_at v"
  shows "state_updates v key x v'"
  using assms by (simp add: stores_def state_updates_def)

lemma state_get_run:
  assumes "table_laws T" and "kv_wf_view v" and "state_get E (linked_store T) key now v = (Inr r, v')"
  shows "r = live_value E now (stored_at v ''cache'' key)"
    and "state_updates v key (if dead E now (stored_at v ''cache'' key) then None else stored_at v ''cache'' key) v'"
proof -
  obtain c v1 where c: "cache_open E (linked_store T) ''cache'' v = (Inr c, v1)"
      "cache_get E (linked_store T) c key now v1 = (Inr r, v')"
    using assms(3) by (auto simp: state_get_def op_bind_Inr)
  note opened = cache_open_run [OF assms(1,2) c(1)]
  from cache_get_run [OF opened(1,2), of E key now] c(2)
  show "r = live_value E now (stored_at v ''cache'' key)"
    and "state_updates v key (if dead E now (stored_at v ''cache'' key) then None else stored_at v ''cache'' key) v'"
    using opened(3) by (auto intro: stores_updates)
qed

lemma state_set_run:
  assumes "table_laws T" and "kv_wf_view v"
    and "state_set E (linked_store T) key val ttl now1 now2 v = (Inr r, v')"
  shows "\<exists>bs. cache_wrap E now1 val ttl = Inr bs \<and> r = live_value E now2 (stored_at v ''cache'' key) \<and>
    state_updates v key (Some bs) v'"
proof -
  obtain c v1 where c: "cache_open E (linked_store T) ''cache'' v = (Inr c, v1)"
      "cache_set E (linked_store T) c key val ttl now1 now2 v1 = (Inr r, v')"
    using assms(3) by (auto simp: state_set_def op_bind_Inr)
  note opened = cache_open_run [OF assms(1,2) c(1)]
  obtain bs where bs: "cache_wrap E now1 val ttl = Inr bs"
    using c(2) by (auto simp: cache_set_def op_bind_Inr)
  from cache_set_run [OF opened(1,2) bs, of key now2] c(2) opened(3) bs
  show ?thesis by (auto intro: stores_updates)
qed

lemma state_delete_run:
  assumes "table_laws T" and "kv_wf_view v" and "state_delete E (linked_store T) key v = (Inr (), v')"
  shows "state_updates v key None v'"
proof -
  obtain c v1 where c: "cache_open E (linked_store T) ''cache'' v = (Inr c, v1)"
      "gs_delete (linked_store T) (cache_bucket c) key v1 = (Inr (), v')"
    using assms(3) by (auto simp: state_delete_def cache_delete_def cache_call_def op_bind_Inr)
  note opened = cache_open_run [OF assms(1,2) c(1)]
  from linked_write(2) [OF opened(1,2), of key] c(2) opened(3)
  show ?thesis by (auto intro: stores_updates)
qed

section \<open>A guest's session refines a map of byte strings\<close>

datatype state_op = SGet string int | SSet string bytes "u64 option" int int | SDelete string

datatype state_result = Found "bytes option" | Deleted

text \<open>The operations of the guest, until one fails.\<close>

fun run_state ::
  "cache_env \<Rightarrow> ('h, 's) guest_store \<Rightarrow> state_op list \<Rightarrow> ('s, cache_fault, state_result list) op" where
  "run_state E G [] = op_return []"
| "run_state E G (SGet key now # ops) = op_bind (state_get E G key now)
     (\<lambda>r. op_bind (run_state E G ops) (\<lambda>rs. op_return (Found r # rs)))"
| "run_state E G (SSet key val ttl now1 now2 # ops) = op_bind (state_set E G key val ttl now1 now2)
     (\<lambda>r. op_bind (run_state E G ops) (\<lambda>rs. op_return (Found r # rs)))"
| "run_state E G (SDelete key # ops) = op_bind (state_delete E G key)
     (\<lambda>r. op_bind (run_state E G ops) (\<lambda>rs. op_return (Deleted # rs)))"

text \<open>
  The specification: a map from keys to a value with an optional deadline, in which reading never
  changes what later reads see.  \<open>spec_entry\<close> is the entry a \<open>set\<close> makes: the value with the whole
  second at which its time to live ends; the value alone without one; but bytes set without a
  time to live that happen to parse as an envelope become the value and the deadline which that
  envelope holds, since nothing in the bucket tells them from one the cache wrote.
\<close>

type_synonym state_spec = "string \<Rightarrow> (bytes \<times> int option) option"

definition spec_find :: "int \<Rightarrow> (bytes \<times> int option) option \<Rightarrow> bytes option" where
  "spec_find now entry = (case entry of None \<Rightarrow> None
     | Some (val, None) \<Rightarrow> Some val
     | Some (val, Some t) \<Rightarrow> if now < t then Some val else None)"

definition spec_deadline :: "int \<Rightarrow> u64 option \<Rightarrow> int option" where
  "spec_deadline now ttl = map_option (\<lambda>secs. (now + sint secs * nanos) div nanos * nanos) ttl"

definition spec_entry :: "(bytes \<Rightarrow> (bytes \<times> int) option) \<Rightarrow> int \<Rightarrow> bytes \<Rightarrow> u64 option \<Rightarrow> bytes \<times> int option" where
  "spec_entry decode now val ttl = (case ttl of
      Some secs \<Rightarrow> (val, spec_deadline now ttl)
    | None \<Rightarrow> (case decode val of
          None \<Rightarrow> (val, None)
        | Some (inner, secs) \<Rightarrow> (inner, Some (secs * nanos))))"

fun run_spec :: "(bytes \<Rightarrow> (bytes \<times> int) option) \<Rightarrow> state_op list \<Rightarrow> state_spec \<Rightarrow> state_result list" where
  "run_spec decode [] m = []"
| "run_spec decode (SGet key now # ops) m = Found (spec_find now (m key)) # run_spec decode ops m"
| "run_spec decode (SSet key val ttl now1 now2 # ops) m =
     Found (spec_find now2 (m key)) # run_spec decode ops (m(key \<mapsto> spec_entry decode now1 val ttl))"
| "run_spec decode (SDelete key # ops) m = Deleted # run_spec decode ops (m(key := None))"

text \<open>The instants of a session never go back, from \<open>t\<close> on.\<close>

fun clock_runs :: "int \<Rightarrow> state_op list \<Rightarrow> bool" where
  "clock_runs t [] = True"
| "clock_runs t (SGet key now # ops) = (t \<le> now \<and> clock_runs now ops)"
| "clock_runs t (SSet key val ttl now1 now2 # ops) = (t \<le> now1 \<and> now1 \<le> now2 \<and> clock_runs now2 ops)"
| "clock_runs t (SDelete key # ops) = clock_runs t ops"

text \<open>The stored bytes represent the map as far as any read from \<open>t\<close> on can tell.\<close>

definition represents :: "cache_env \<Rightarrow> int \<Rightarrow> (string \<Rightarrow> bytes option) \<Rightarrow> state_spec \<Rightarrow> bool" where
  "represents E t st m \<longleftrightarrow> (\<forall>key now. t \<le> now \<longrightarrow> live_value E now (st key) = spec_find now (m key))"

lemma dead_stays: "dead E now x \<Longrightarrow> now \<le> now' \<Longrightarrow> live_value E now' x = None"
  by (auto simp: dead_def live_value_def split: option.splits prod.splits if_splits)

lemma represents_get:
  assumes "represents E t st m" and "t \<le> now"
  shows "represents E now (st(key := if dead E now (st key) then None else st key)) m"
proof (unfold represents_def, intro allI impI)
  fix k now' assume "now \<le> now'"
  then have "live_value E now' (st k) = spec_find now' (m k)"
    using assms by (simp add: represents_def)
  moreover have "dead E now (st key) \<Longrightarrow> live_value E now' (st key) = None"
    using dead_stays \<open>now \<le> now'\<close> by blast
  ultimately show "live_value E now' ((st(key := if dead E now (st key) then None else st key)) k) = spec_find now' (m k)"
    by (auto simp: live_value_def [of _ _ None])
qed

lemma represents_set:
  assumes "cache_env_laws E" and "represents E t st m" and "t \<le> now2"
    and "cache_wrap E now1 val ttl = Inr bs"
  shows "represents E now2 (st(key \<mapsto> bs)) (m(key \<mapsto> spec_entry (ce_decode E) now1 val ttl))"
proof -
  have "live_value E now' (Some bs) = spec_find now' (Some (spec_entry (ce_decode E) now1 val ttl))" for now'
  proof (cases ttl)
    case None
    then show ?thesis using assms(4)
      by (auto simp: cache_wrap_def live_value_def spec_find_def spec_entry_def split: option.splits)
  next
    case (Some secs)
    with cache_wrap_ttl [OF assms(1), of now1 val secs bs] assms(4) show ?thesis
      by (simp add: live_value_def spec_find_def spec_entry_def spec_deadline_def)
  qed
  then show ?thesis using assms(2,3) by (auto simp: represents_def)
qed

lemma represents_delete: "represents E t st m \<Longrightarrow> represents E t (st(key := None)) (m(key := None))"
  by (auto simp: represents_def live_value_def [of _ _ None] spec_find_def)

lemma represents_later: "represents E t st m \<Longrightarrow> t \<le> t' \<Longrightarrow> represents E t' st m"
  by (simp add: represents_def)

lemma run_state_refines:
  assumes "table_laws T" and "cache_env_laws E"
  shows "kv_wf_view v \<Longrightarrow> represents E t (stored_at v ''cache'') m \<Longrightarrow> clock_runs t ops \<Longrightarrow>
    run_state E (linked_store T) ops v = (Inr rs, v') \<Longrightarrow> rs = run_spec (ce_decode E) ops m"
proof (induction ops arbitrary: v t m rs)
  case Nil
  then show ?case by simp
next
  case (Cons x ops)
  show ?case
  proof (cases x)
    case (SGet key now)
    then obtain r v1 rs' where run: "state_get E (linked_store T) key now v = (Inr r, v1)"
        "run_state E (linked_store T) ops v1 = (Inr rs', v')" "rs = Found r # rs'"
      using Cons.prems(4) by (auto simp: op_bind_Inr)
    note got = state_get_run [OF assms(1) Cons.prems(1) run(1)]
    have ok: "t \<le> now" "clock_runs now ops" using Cons.prems(3) SGet by simp_all
    have rep: "represents E now (stored_at v1 ''cache'') m"
      using represents_get [OF Cons.prems(2) ok(1), of key] got(2) by (simp add: state_updates_def)
    have "rs' = run_spec (ce_decode E) ops m"
      by (rule Cons.IH [OF _ rep ok(2) run(2)]) (use got(2) in \<open>simp add: state_updates_def\<close>)
    moreover have "r = spec_find now (m key)"
      using got(1) Cons.prems(2) ok(1) by (simp add: represents_def)
    ultimately show ?thesis using SGet run(3) by simp
  next
    case (SSet key val ttl now1 now2)
    then obtain r v1 rs' where run: "state_set E (linked_store T) key val ttl now1 now2 v = (Inr r, v1)"
        "run_state E (linked_store T) ops v1 = (Inr rs', v')" "rs = Found r # rs'"
      using Cons.prems(4) by (auto simp: op_bind_Inr)
    obtain bs where set: "cache_wrap E now1 val ttl = Inr bs" "r = live_value E now2 (stored_at v ''cache'' key)"
        "state_updates v key (Some bs) v1"
      using state_set_run [OF assms(1) Cons.prems(1) run(1)] by blast
    have ok: "t \<le> now2" "clock_runs now2 ops"
      using Cons.prems(3) SSet by simp_all
    have rep: "represents E now2 (stored_at v1 ''cache'') (m(key \<mapsto> spec_entry (ce_decode E) now1 val ttl))"
      using represents_set [OF assms(2) Cons.prems(2) ok(1) set(1), of key] set(3)
      by (simp add: state_updates_def)
    have "rs' = run_spec (ce_decode E) ops (m(key \<mapsto> spec_entry (ce_decode E) now1 val ttl))"
      by (rule Cons.IH [OF _ rep ok(2) run(2)]) (use set(3) in \<open>simp add: state_updates_def\<close>)
    moreover have "r = spec_find now2 (m key)"
      using set(2) Cons.prems(2) ok(1) by (simp add: represents_def)
    ultimately show ?thesis using SSet run(3) by simp
  next
    case (SDelete key)
    then obtain v1 rs' where run: "state_delete E (linked_store T) key v = (Inr (), v1)"
        "run_state E (linked_store T) ops v1 = (Inr rs', v')" "rs = Deleted # rs'"
      using Cons.prems(4) by (auto simp: op_bind_Inr)
    note gone = state_delete_run [OF assms(1) Cons.prems(1) run(1)]
    have rep: "represents E t (stored_at v1 ''cache'') (m(key := None))"
      using represents_delete [OF Cons.prems(2), of key] gone by (simp add: state_updates_def)
    have "rs' = run_spec (ce_decode E) ops (m(key := None))"
      by (rule Cons.IH [OF _ rep _ run(2)]) (use gone Cons.prems(3) SDelete in \<open>simp_all add: state_updates_def\<close>)
    then show ?thesis using SDelete run(3) by simp
  qed
qed

lemma publisher_sends:
  assumes "table_laws T" and "publisher_send T sender topic message v = (Inr (), v')"
  shows "sender (InMem \<lparr>mg_topic = topic, mg_payload = pm_payload message, mg_metadata = None,
      mg_description = None, mg_reply = None\<rparr>) (cv_ctx v) = (Inr (), cv_ctx v')"
proof -
  obtain c v1 h v2 where c: "msg_connect T v = (Inr c, v1)" and h: "msg_new T (pm_payload message) v1 = (Inr h, v2)"
      and send: "producer_send T sender c topic h v2 = (Inr (), v')"
    using assms(2) by (auto simp: publisher_send_def op_bind_Inr)
  let ?m = "message_from (pm_payload message)"
  obtain t1 where t1: "t_push T MClient (cv_table v) = Inr (c, t1)" "v1 = v\<lparr>cv_table := t1\<rparr>"
    using c by (auto simp: msg_connect_def push_entry_Inr)
  obtain t2 where t2: "t_push T (MProxy (InMem ?m)) t1 = Inr (h, t2)" "v2 = v1\<lparr>cv_table := t2\<rparr>"
    using h t1(2) by (auto simp: msg_new_def msg_push_def new_message_def push_entry_Inr op_bind_Inr)
  have get: "t_get T h (cv_table v2) = Inr (MProxy (InMem ?m))"
    using table_push_get(1) [OF assms(1) t2(1)] t2(2) by simp
  obtain s where s: "get_client T c v2 = (Inr (), s)"
      "op_bind (get_message T h) (\<lambda>msg. op_map_err msg_from_anyhow (on_ctx (client_send sender topic msg))) s = (Inr (), v')"
    using send by (auto simp: producer_send_def op_bind_Inr)
  then have "s = v2" by (auto simp: get_client_def get_entry_Inr)
  with s(2) have "on_ctx (client_send sender topic (InMem ?m)) v2 = (Inr (), v')"
    by (simp add: get_message_ok [OF get])
  then show ?thesis
    using t1(2) t2(2) by (auto simp: on_ctx_Inr client_send_def message_from_def)
qed

section \<open>Properties\<close>

text \<open>
  C3: The state store.  A session of any \<open>get\<close>, \<open>set\<close> and \<open>delete\<close> calls that succeeds on an
  empty host, with a clock that does not go back, answers exactly as a map does in which every
  value has an optional deadline: a value set with a time to live is found until the whole
  second in which it ends, one without is found until it is replaced or deleted, and neither
  opening the bucket anew for each call nor the removal of expired entries is ever visible.  The
  one case in which the caller's value does not come back is part of the map: bytes set without
  a time to live that parse as an envelope are read as the value and the deadline of that
  envelope.
\<close>

theorem state_store_refines:
  assumes "table_laws T" and "cache_env_laws E" and "clock_runs t ops"
    and "run_state E (linked_store T) ops \<lparr>cv_ctx = [], cv_table = tab\<rparr> = (Inr rs, v')"
  shows "rs = run_spec (ce_decode E) ops (\<lambda>_. None)"
proof -
  let ?v = "\<lparr>cv_ctx = [], cv_table = tab\<rparr> :: (kv_store, _) ctx_view"
  have "kv_wf_view ?v" by (simp add: kv_wf_view_def kv_wf_def)
  moreover have "represents E t (stored_at ?v ''cache'') (\<lambda>_. None)"
    by (simp add: represents_def stored_at_def kv_view_def live_value_def spec_find_def)
  ultimately show ?thesis using run_state_refines [OF assms(1,2)] assms(3,4) by blast
qed

text \<open>
  A session that sets a value, reads it in time and too late, sets it again without a time to
  live, and stores the bytes of an envelope.
\<close>

definition demo_session :: "state_op list" where
  "demo_session = [SSet ''k'' [5] (Some 60) 0 0, SGet ''k'' 7, SGet ''k'' (60 * nanos),
     SSet ''k'' [9] None (61 * nanos) (61 * nanos), SDelete ''x'', SGet ''k'' (99 * nanos),
     SSet ''e'' (unary_encode ([3], 100)) None (99 * nanos) (99 * nanos), SGet ''e'' (99 * nanos),
     SGet ''e'' (100 * nanos)]"

lemma open_succeeds:
  "\<exists>c v'. cache_open E (linked_store slot_table) name v = (Inr c, v')"
  by (simp add: cache_open_def cache_call_def linked_store_def host_open_def kv_call_def open_bucket_def
      push_entry_def slot_table_def Let_def)

lemma state_op_succeeds:
  assumes "kv_wf_view v"
  shows "\<exists>r v'. state_get E (linked_store slot_table) key now v = (Inr r, v')"
    and "cache_wrap E now1 val ttl = Inr bs \<Longrightarrow>
      \<exists>r v'. state_set E (linked_store slot_table) key val ttl now1 now2 v = (Inr r, v')"
    and "\<exists>v'. state_delete E (linked_store slot_table) key v = (Inr (), v')"
proof -
  obtain c v1 where c: "cache_open E (linked_store slot_table) ''cache'' v = (Inr c, v1)"
    using open_succeeds by blast
  note ok = cache_open_run [OF slot_table_laws assms c]
  show "\<exists>r v'. state_get E (linked_store slot_table) key now v = (Inr r, v')"
    using cache_get_run [OF ok(1,2), of E key now] c by (auto simp: state_get_def op_bind_Inr)
  show "\<exists>v'. state_delete E (linked_store slot_table) key v = (Inr (), v')"
    using linked_write(2) [OF ok(1,2), of key] c
    by (auto simp: state_delete_def cache_delete_def cache_call_def op_bind_Inr)
  assume "cache_wrap E now1 val ttl = Inr bs"
  from cache_set_run [OF ok(1,2) this, of key now2] c
  show "\<exists>r v'. state_set E (linked_store slot_table) key val ttl now1 now2 v = (Inr r, v')"
    by (auto simp: state_set_def op_bind_Inr)
qed

lemma session_succeeds:
  "kv_wf_view v \<Longrightarrow> \<exists>rs v'. run_state unary_env (linked_store slot_table) ops v = (Inr rs, v')"
proof (induction ops arbitrary: v)
  case Nil
  then show ?case by simp
next
  case (Cons x ops)
  have wrap: "\<exists>bs. cache_wrap unary_env now val ttl = Inr bs" for now val ttl
    by (cases ttl) (simp_all add: cache_wrap_def unary_env_def cacheable_new_def cacheable_into_def)
  show ?case
  proof (cases x)
    case (SGet key now)
    obtain r v1 where 1: "state_get unary_env (linked_store slot_table) key now v = (Inr r, v1)"
      using state_op_succeeds(1) [OF Cons.prems] by blast
    with state_get_run(2) [OF slot_table_laws Cons.prems 1] Cons.IH [of v1] SGet
    show ?thesis by (auto simp: state_updates_def op_bind_def)
  next
    case (SSet key val ttl now1 now2)
    obtain bs where "cache_wrap unary_env now1 val ttl = Inr bs" using wrap by blast
    then obtain r v1 where 1: "state_set unary_env (linked_store slot_table) key val ttl now1 now2 v = (Inr r, v1)"
      using state_op_succeeds(2) [OF Cons.prems] by blast
    with state_set_run [OF slot_table_laws Cons.prems 1] Cons.IH [of v1] SSet
    show ?thesis by (auto simp: state_updates_def op_bind_def)
  next
    case (SDelete key)
    obtain v1 where 1: "state_delete unary_env (linked_store slot_table) key v = (Inr (), v1)"
      using state_op_succeeds(3) [OF Cons.prems] by blast
    with state_delete_run [OF slot_table_laws Cons.prems 1] Cons.IH [of v1] SDelete
    show ?thesis by (auto simp: state_updates_def op_bind_def)
  qed
qed

theorem state_store_refines_witness:
  "\<exists>rs v'. run_state unary_env (linked_store slot_table) demo_session \<lparr>cv_ctx = [], cv_table = []\<rparr> = (Inr rs, v') \<and>
     rs = [Found None, Found (Some [5]), Found None, Found None, Deleted, Found (Some [9]),
       Found None, Found (Some [3]), Found None]"
proof -
  let ?v = "\<lparr>cv_ctx = [], cv_table = []\<rparr> :: (kv_store, in_mem_bucket kv_entry option list) ctx_view"
  obtain rs v' where run: "run_state unary_env (linked_store slot_table) demo_session ?v = (Inr rs, v')"
    using session_succeeds [of ?v demo_session] by (auto simp: kv_wf_view_def kv_wf_def)
  have "clock_runs 0 demo_session"
    by (simp add: demo_session_def nanos_def)
  from state_store_refines [OF slot_table_laws unary_env_laws this run]
  show ?thesis using run
    by (simp add: demo_session_def spec_find_def spec_entry_def spec_deadline_def unary_env_def unary_roundtrip nanos_def)
qed

text \<open>
  Publishing and tokens.  When a guest's \<open>send\<close> succeeds, exactly one message went to the
  broker: the payload under the given topic with no metadata, whatever headers the guest's
  message has; and \<open>access_token\<close> asks the manager for the empty list of scopes, whatever
  identity is named.
\<close>

theorem publisher_send_publishes:
  assumes "table_laws T" and "publisher_send T sender topic message v = (Inr (), v')"
    and "table_laws U" and "identity_access_token U request now now2 name w = (Inr token, w')"
  shows "sender (InMem \<lparr>mg_topic = topic, mg_payload = pm_payload message, mg_metadata = None,
      mg_description = None, mg_reply = None\<rparr>) (cv_ctx v) = (Inr (), cv_ctx v') \<and>
    (\<exists>t. manager_token request now now2 [] (cv_ctx w) = (Inr t, cv_ctx w') \<and> token = at_token t)"
proof
  show "sender (InMem \<lparr>mg_topic = topic, mg_payload = pm_payload message, mg_metadata = None,
      mg_description = None, mg_reply = None\<rparr>) (cv_ctx v) = (Inr (), cv_ctx v')"
    by (rule publisher_sends [OF assms(1,2)])
  obtain i w1 t w2 where "host_get_identity U name w = (Inr i, w1)"
      "host_get_token U request now now2 i [] w1 = (Inr t, w2)" "w' = w2" "token = at_token t"
    using assms(4) by (auto simp: identity_access_token_def op_bind_Inr)
  then show "\<exists>t. manager_token request now now2 [] (cv_ctx w) = (Inr t, cv_ctx w') \<and> token = at_token t"
    by (auto simp: host_get_identity_def host_get_token_def find_identity_def op_bind_Inr on_ctx_Inr
        push_entry_Inr get_entry_Inr)
qed

theorem publisher_send_publishes_witness:
  "\<exists>v'. publisher_send slot_table log_sender ''t'' \<lparr>pm_payload = [1, 2], pm_headers = [(''key'', ''k'')]\<rparr>
       \<lparr>cv_ctx = [], cv_table = []\<rparr> = (Inr (), v') \<and>
     cv_ctx v' = [InMem \<lparr>mg_topic = ''t'', mg_payload = [1, 2], mg_metadata = None,
       mg_description = None, mg_reply = None\<rparr>]"
proof -
  let ?m = "\<lparr>pm_payload = [1, 2], pm_headers = [(''key'', ''k'')]\<rparr>"
  let ?w = "\<lparr>cv_ctx = cached_token_new 0 \<lparr>at_token = ''a'', at_expires_in = 5\<rparr>, cv_table = []\<rparr> ::
    (cached_token, identity_entry option list) ctx_view"
  obtain v' where send: "publisher_send slot_table log_sender ''t'' ?m \<lparr>cv_ctx = [], cv_table = []\<rparr> = (Inr (), v')"
    by (simp add: publisher_send_def msg_connect_def msg_new_def msg_push_def new_message_def push_entry_def
        producer_send_def get_client_def get_message_def get_entry_def client_send_def log_sender_def on_ctx_def
        slot_table_def slot_get_def op_bind_def op_map_err_def)
  obtain token w' where tok: "identity_access_token slot_table (\<lambda>_. Inl (Anyhow ''down'')) 0 0 ''id'' ?w = (Inr token, w')"
    by (simp add: identity_access_token_def host_get_identity_def host_get_token_def find_identity_def push_entry_def
        get_entry_def on_ctx_def slot_table_def slot_get_def op_bind_def op_map_err_def manager_token_def
        check_cache_def cached_token_new_def)
  show ?thesis
    using send publisher_send_publishes [OF slot_table_laws send slot_table_laws tok]
    by (auto simp: log_sender_def)
qed

end
