(* ===== verification/HttpHeaders.thy ===== *)
theory HttpHeaders
  imports StrOps
begin

text \<open>
  Header maps and messages of the \<open>http\<close> crate.  The crate is not part of the repository: a
  header map is an abstract type \<open>'m\<close> with the record of the operations the source calls, and
  \<open>header_laws\<close> states what their documentation promises.  A header value is a string of bytes.
\<close>

record 'm header_ops =
  hd_get :: "string \<Rightarrow> 'm \<Rightarrow> string option"    \<comment> \<open>\<open>headers.get(name)\<close>, the first value\<close>
  hd_insert :: "string \<Rightarrow> string \<Rightarrow> 'm \<Rightarrow> 'm"   \<comment> \<open>\<open>headers.insert(name, value)\<close>\<close>
  hd_remove :: "string \<Rightarrow> 'm \<Rightarrow> 'm"           \<comment> \<open>\<open>headers.remove(name)\<close>\<close>
  hd_items :: "'m \<Rightarrow> (string \<times> string) list"  \<comment> \<open>\<open>headers.iter()\<close>\<close>
  hd_build :: "(string \<times> string) list \<Rightarrow> 'm option"  \<comment> \<open>\<open>builder.header(k, v)\<close> for each pair\<close>
  hd_to_str :: "string \<Rightarrow> string option"      \<comment> \<open>\<open>value.to_str().ok()\<close>\<close>
  hd_from_str :: "string \<Rightarrow> string option"    \<comment> \<open>\<open>HeaderValue::from_str(s).ok()\<close>\<close>
  hd_status :: "u16 \<Rightarrow> bool"                 \<comment> \<open>\<open>StatusCode::from_u16(n).is_ok()\<close>\<close>

definition header_laws :: "'m header_ops \<Rightarrow> bool" where
  "header_laws H \<longleftrightarrow>
     (\<forall>n x m. hd_get H n (hd_insert H n x m) = Some x) \<and>
     (\<forall>n n' x m. n' \<noteq> n \<longrightarrow> hd_get H n' (hd_insert H n x m) = hd_get H n' m) \<and>
     (\<forall>n m. hd_get H n (hd_remove H n m) = None) \<and>
     (\<forall>n n' m. n' \<noteq> n \<longrightarrow> hd_get H n' (hd_remove H n m) = hd_get H n' m) \<and>
     (\<forall>m. hd_build H (hd_items H m) = Some m) \<and>
     (\<forall>s t. hd_to_str H s = Some t \<longrightarrow> t = s) \<and>
     (\<forall>s t. hd_from_str H s = Some t \<longrightarrow> t = s) \<and>
     hd_from_str H [] = Some []"

lemma header_insert_get:
  assumes "header_laws H"
  shows "hd_get H n' (hd_insert H n x m) = (if n' = n then Some x else hd_get H n' m)"
  using assms by (simp add: header_laws_def)

lemma header_remove_get:
  assumes "header_laws H"
  shows "hd_get H n' (hd_remove H n m) = (if n' = n then None else hd_get H n' m)"
  using assms by (simp add: header_laws_def)

lemma header_rebuild: "header_laws H \<Longrightarrow> hd_build H (hd_items H m) = Some m"
  by (simp add: header_laws_def)

lemma header_text:
  "header_laws H \<Longrightarrow> hd_to_str H s = Some t \<Longrightarrow> t = s"
  "header_laws H \<Longrightarrow> hd_from_str H s = Some t \<Longrightarrow> t = s"
  "header_laws H \<Longrightarrow> hd_from_str H [] = Some []"
  unfolding header_laws_def by blast+

record 'm response =
  rs_status :: u16
  rs_headers :: 'm
  rs_body :: bytes

section \<open>A concrete header map\<close>

text \<open>Name-value pairs with distinct names, for the witnesses; a value is text when it is printable.\<close>

definition printable :: "char \<Rightarrow> bool" where
  "printable c \<longleftrightarrow> (let n = of_char c :: nat in (32 \<le> n \<and> n < 127) \<or> n = 9)"

definition text_of :: "string \<Rightarrow> string option" where
  "text_of s = (if list_all printable s then Some s else None)"

definition alist_headers :: "(string \<times> string) list header_ops" where
  "alist_headers = \<lparr>hd_get = (\<lambda>n m. hm_get m n), hd_insert = hm_insert, hd_remove = hm_remove,
     hd_items = (\<lambda>m. m), hd_build = Some, hd_to_str = text_of, hd_from_str = text_of,
     hd_status = (\<lambda>s. 100 \<le> s \<and> s < 1000)\<rparr>"

lemma alist_header_laws: "header_laws alist_headers"
  by (simp add: header_laws_def alist_headers_def text_of_def)

end
