(* ===== verification/HttpCache.thy ===== *)
theory HttpCache
  imports KeyValueCache HttpHeaders
begin

text \<open>
  wasi-http, \<open>src/guest/cache.rs\<close> and \<open>src/guest/outgoing.rs\<close>: caching of outgoing requests as
  their \<open>Cache-Control\<close> and \<open>If-None-Match\<close> headers indicate.  The parsing of the headers, the
  stored form of a response, cache get and put over the key-value cache (the record \<open>byte_cache\<close>,
  verified in the locale \<open>ttl_cache\<close>) and the flow of \<open>handle\<close>.

  Outside the source: header maps (\<open>header_ops\<close>), rkyv's archive format (\<open>rkyv_ops\<close>) and the
  conversions and the call to the outbound proxy (\<open>proxy_ops\<close>).
\<close>

section \<open>Cache control\<close>

record control =
  ct_no_cache :: bool
  ct_no_store :: bool
  ct_max_age :: u64
  ct_etag :: string

definition control_default :: control where
  "control_default = \<lparr>ct_no_cache = False, ct_no_store = False, ct_max_age = 0, ct_etag = []\<rparr>"

definition directive_of :: "string \<Rightarrow> string" where
  "directive_of part = to_ascii_lowercase (trim part)"

text \<open>The body of the loop over the directives; \<open>Inr\<close> is going on to the next one.\<close>

definition control_directive :: "string \<Rightarrow> control \<Rightarrow> anyhow + control" where
  "control_directive directive c =
     (if directive = [] then Inr c
      else if directive = ''no-store'' then
        (if ct_no_cache c \<or> ct_max_age c > 0
         then Inl (Anyhow ''`no-store` cannot be combined with other cache directives'')
         else Inr (c\<lparr>ct_no_store := True\<rparr>))
      else if directive = ''no-cache'' then
        (if ct_no_store c
         then Inl (Anyhow ''`no-cache` cannot be combined with `no-store`'')
         else Inr (c\<lparr>ct_no_cache := True\<rparr>))
      else (case strip_prefix ''max-age='' directive of
          None \<Rightarrow> Inr c
        | Some val \<Rightarrow>
            if ct_no_store c
            then Inl (Anyhow ''`max-age` cannot be combined with `no-store`'')
            else (case parse_u64 (trim val) of
                None \<Rightarrow> Inl (Anyhow ''`max-age` directive is malformed'')
              | Some max_age \<Rightarrow> Inr (c\<lparr>ct_max_age := max_age\<rparr>))))"

fun control_directives :: "string list \<Rightarrow> control \<Rightarrow> anyhow + control" where
  "control_directives [] c = Inr c"
| "control_directives (part # parts) c =
     res_bind (control_directive (directive_of part) c) (control_directives parts)"

definition control_etag :: "'m header_ops \<Rightarrow> 'm \<Rightarrow> control \<Rightarrow> anyhow + control" where
  "control_etag H headers c =
     (if \<not> ct_no_store c \<and> \<not> ct_no_cache c then
        (case hd_get H ''if-none-match'' headers of
           None \<Rightarrow> Inl (Anyhow
             ''`If-None-Match` header required when using `Cache-Control: max-age` or `no-cache`'')
         | Some etag \<Rightarrow>
             if etag = [] then Inl (Anyhow ''`If-None-Match` header is empty'')
             else (case hd_to_str H etag of
                 None \<Rightarrow> Inl (Foreign ''failed to convert header to a str'')
               | Some etag_str \<Rightarrow>
                   if CHR '','' \<in> set etag_str
                   then Inl (Anyhow
                     ''multiple `etag` values in `If-None-Match` header are not supported'')
                   else if starts_with ''W/'' etag_str
                   then Inl (Anyhow ''weak `etag` values in `If-None-Match` header are not supported'')
                   else Inr (c\<lparr>ct_etag := etag_str\<rparr>)))
      else Inr c)"

definition control_try_from :: "'m header_ops \<Rightarrow> 'm \<Rightarrow> anyhow + control" where
  "control_try_from H headers = (case hd_get H ''cache-control'' headers of
      None \<Rightarrow> Inr control_default
    | Some cache_control \<Rightarrow>
        if cache_control = [] then Inl (Anyhow ''Cache-Control header is empty'')
        else (case hd_to_str H cache_control of
            None \<Rightarrow> Inl (Foreign ''failed to convert header to a str'')
          | Some text \<Rightarrow>
              res_bind (control_directives (split_on CHR '','' text) control_default)
                (control_etag H headers)))"

record http_cache =
  hc_control :: control
  hc_bucket :: string

definition cache_bucket_name :: string where "cache_bucket_name = ''default-cache''"

text \<open>\<open>options\<close> is the bucket name of the request's \<open>CacheOptions\<close> extension, if it has one.\<close>

definition maybe_from :: "'m header_ops \<Rightarrow> 'm \<Rightarrow> string option \<Rightarrow> anyhow + http_cache option" where
  "maybe_from H headers options =
     (if hd_get H ''cache-control'' headers = None then Inr None
      else res_bind (res_map_err (Context ''issue parsing Cache-Control headers'') (control_try_from H headers))
        (\<lambda>control. Inr (Some \<lparr>hc_control = control,
           hc_bucket = (case options of None \<Rightarrow> cache_bucket_name | Some name \<Rightarrow> name)\<rparr>)))"

definition etag_of :: "http_cache \<Rightarrow> string" where
  "etag_of c = ct_etag (hc_control c)"

section \<open>The stored form of a response\<close>

record serialized =
  se_status :: u16
  se_headers :: "(string \<times> string) list"
  se_body :: bytes

record rkyv_ops =
  rk_to_bytes :: "serialized \<Rightarrow> string + bytes"
  rk_from_bytes :: "bytes \<Rightarrow> string + serialized"

definition rkyv_laws :: "rkyv_ops \<Rightarrow> bool" where
  "rkyv_laws R \<longleftrightarrow> (\<forall>s bs. rk_to_bytes R s = Inr bs \<longrightarrow> rk_from_bytes R bs = Inr s)"

definition serialized_from :: "'m header_ops \<Rightarrow> 'm response \<Rightarrow> serialized" where
  "serialized_from H r = \<lparr>se_status = rs_status r,
     se_headers = map (\<lambda>(k, x). (k, case hd_to_str H x of None \<Rightarrow> [] | Some t \<Rightarrow> t)) (hd_items H (rs_headers r)),
     se_body = rs_body r\<rparr>"

definition response_from :: "'m header_ops \<Rightarrow> serialized \<Rightarrow> anyhow + 'm response" where
  "response_from H s = (case (hd_status H (se_status s), hd_build H (se_headers s)) of
      (True, Some m) \<Rightarrow> Inr \<lparr>rs_status = se_status s, rs_headers = m, rs_body = se_body s\<rparr>
    | _ \<Rightarrow> Inl (Context ''building response from cached data'' (Foreign ''http error'')))"

definition serialize :: "'m header_ops \<Rightarrow> rkyv_ops \<Rightarrow> 'm response \<Rightarrow> anyhow + bytes" where
  "serialize H R r = res_map_err (\<lambda>e. Anyhow (''serializing response: '' @ e))
     (rk_to_bytes R (serialized_from H r))"

definition deserialize :: "'m header_ops \<Rightarrow> rkyv_ops \<Rightarrow> bytes \<Rightarrow> anyhow + 'm response" where
  "deserialize H R data = res_bind
     (res_map_err (\<lambda>e. Anyhow (''deserializing cached response: '' @ e)) (rk_from_bytes R data))
     (response_from H)"

section \<open>Get and put\<close>

text \<open>The cache of wasi-keyvalue as this module uses it; \<open>bc_set\<close> is \<open>set(key, value, Some(ttl))\<close>.\<close>

record ('s, 'c) byte_cache =
  bc_open :: "string \<Rightarrow> ('s, cache_fault, 'c) op"
  bc_get :: "'c \<Rightarrow> string \<Rightarrow> int \<Rightarrow> ('s, cache_fault, bytes option) op"
  bc_set :: "'c \<Rightarrow> string \<Rightarrow> bytes \<Rightarrow> u64 \<Rightarrow> int \<Rightarrow> int \<Rightarrow> ('s, cache_fault, bytes option) op"

fun fault_context :: "string \<Rightarrow> cache_fault \<Rightarrow> cache_fault" where
  "fault_context msg (CacheErr e) = CacheErr (Context msg e)"
| "fault_context msg CachePanic = CachePanic"

fun fault_wrap :: "string \<Rightarrow> cache_fault \<Rightarrow> cache_fault" where
  "fault_wrap msg (CacheErr e) = CacheErr (Anyhow (msg @ anyhow_display e))"
| "fault_wrap msg CachePanic = CachePanic"

definition http_cache_get ::
  "'m header_ops \<Rightarrow> rkyv_ops \<Rightarrow> ('s, 'c) byte_cache \<Rightarrow> http_cache \<Rightarrow> int
    \<Rightarrow> ('s, cache_fault, 'm response option) op" where
  "http_cache_get H R B c now =
     (let ctrl = hc_control c in
      if ct_no_cache ctrl \<or> ct_no_store ctrl \<or> ct_etag ctrl = [] then op_return None
      else op_bind (bc_open B (hc_bucket c)) (\<lambda>cache.
        op_bind (op_map_err (fault_context ''retrieving cached response'')
            (bc_get B cache (ct_etag ctrl) now)) (\<lambda>found.
        case found of
          None \<Rightarrow> op_return None
        | Some data \<Rightarrow> op_lift (res_map_err CacheErr
            (res_bind (deserialize H R data) (\<lambda>r. Inr (Some r)))))))"

definition http_cache_put ::
  "'m header_ops \<Rightarrow> rkyv_ops \<Rightarrow> ('s, 'c) byte_cache \<Rightarrow> http_cache \<Rightarrow> 'm response \<Rightarrow> int \<Rightarrow> int
    \<Rightarrow> ('s, cache_fault, unit) op" where
  "http_cache_put H R B c r now1 now2 =
     (let ctrl = hc_control c in
      if ct_no_store ctrl \<or> ct_etag ctrl = [] \<or> ct_max_age ctrl = 0 then op_return ()
      else op_bind (bc_open B (hc_bucket c)) (\<lambda>cache.
        op_bind (op_lift (res_map_err CacheErr (serialize H R r))) (\<lambda>data.
        op_bind (op_map_err (fault_wrap ''caching response: '')
            (bc_set B cache (ct_etag ctrl) data (ct_max_age ctrl) now1 now2)) (\<lambda>_. op_return ()))))"

section \<open>Sending a request\<close>

text \<open>
  The body arrives in reads; a read that is not \<open>StreamResult::Complete\<close> ends it, with the bytes
  it still brought.
\<close>

datatype stream_result = Complete | Dropped | Cancelled

fun read_body :: "(stream_result \<times> bytes) list \<Rightarrow> bytes" where
  "read_body [] = []"
| "read_body ((result, got) # rest) = got @ (if result = Complete then read_body rest else [])"

record ('s, 'q, 'm) proxy_ops =
  px_into :: "'q \<Rightarrow> anyhow option"   \<comment> \<open>the error of \<open>http_into_wasi_request\<close>, if any\<close>
  px_handle :: "'q \<Rightarrow> ('s, anyhow, anyhow + (u16 \<times> 'm \<times> (stream_result \<times> bytes) list option)) op"
    \<comment> \<open>\<open>handler::handle\<close>, then what \<open>http_from_wasi_response\<close> makes of its result\<close>

record 'm request_view =
  rq_headers :: 'm
  rq_cache_options :: "string option"

definition proxy_call ::
  "('s, 'm request_view, 'm) proxy_ops \<Rightarrow> 'm request_view \<Rightarrow> ('s, cache_fault, 'm response) op" where
  "proxy_call P req =
     (case px_into P req of
        Some e \<Rightarrow> op_fail (CacheErr (Context ''Issue converting request'' e))
      | None \<Rightarrow>
          op_bind (op_map_err (\<lambda>e. CacheErr (Context ''Issue calling proxy'' e)) (px_handle P req)) (\<lambda>wasi_resp.
          op_bind (op_lift (res_map_err (\<lambda>e. CacheErr (Context ''Issue converting response'' e)) wasi_resp))
            (\<lambda>(status, headers, body).
          op_return \<lparr>rs_status = status, rs_headers = headers,
            rs_body = (case body of None \<Rightarrow> [] | Some reads \<Rightarrow> read_body reads)\<rparr>)))"

definition store_response ::
  "'m header_ops \<Rightarrow> rkyv_ops \<Rightarrow> ('s, 'c) byte_cache \<Rightarrow> http_cache option \<Rightarrow> 'm response \<Rightarrow> int \<Rightarrow> int
    \<Rightarrow> ('s, cache_fault, 'm response) op" where
  "store_response H R B maybe_cache r now1 now2 = (case maybe_cache of
      None \<Rightarrow> op_return r
    | Some cache \<Rightarrow>
        (case hd_from_str H (etag_of cache) of
           None \<Rightarrow> op_fail (CacheErr (Foreign ''failed to parse header value''))
         | Some etag \<Rightarrow>
             (let r' = r\<lparr>rs_headers := hd_insert H ''etag'' etag (rs_headers r)\<rparr>
              in op_bind (http_cache_put H R B cache r' now1 now2) (\<lambda>_. op_return r'))))"

definition http_handle ::
  "'m header_ops \<Rightarrow> rkyv_ops \<Rightarrow> ('s, 'c) byte_cache \<Rightarrow> ('s, 'm request_view, 'm) proxy_ops
    \<Rightarrow> 'm request_view \<Rightarrow> int \<Rightarrow> int \<Rightarrow> int \<Rightarrow> ('s, cache_fault, 'm response) op" where
  "http_handle H R B P req now now1 now2 =
     op_bind (op_lift (res_map_err CacheErr (maybe_from H (rq_headers req) (rq_cache_options req))))
       (\<lambda>maybe_cache.
     op_bind (case maybe_cache of None \<Rightarrow> op_return None | Some cache \<Rightarrow> http_cache_get H R B cache now)
       (\<lambda>hit.
     case hit of
       Some response \<Rightarrow> op_return response
     | None \<Rightarrow> op_bind (proxy_call P req) (\<lambda>response.
         store_response H R B maybe_cache response now1 now2)))"

section \<open>What the parser accepts\<close>

text \<open>The last \<open>max-age\<close> of the directives.\<close>

fun last_max_age :: "string list \<Rightarrow> u64 \<Rightarrow> u64" where
  "last_max_age [] n = n"
| "last_max_age (d # ds) n = last_max_age ds (case strip_prefix ''max-age='' d of
      None \<Rightarrow> n | Some val \<Rightarrow> (case parse_u64 (trim val) of None \<Rightarrow> n | Some k \<Rightarrow> k))"

definition control_ok :: "control \<Rightarrow> bool" where
  "control_ok c \<longleftrightarrow> \<not> (ct_no_store c \<and> ct_no_cache c) \<and> (ct_no_store c \<longrightarrow> ct_max_age c = 0)"

lemma control_directive_step:
  assumes "control_directive d c = Inr c'"
  shows "ct_no_store c' \<longleftrightarrow> ct_no_store c \<or> d = ''no-store''"
    and "ct_no_cache c' \<longleftrightarrow> ct_no_cache c \<or> d = ''no-cache''"
    and "ct_max_age c' = last_max_age [d] (ct_max_age c)"
    and "ct_etag c' = ct_etag c"
    and "control_ok c \<Longrightarrow> control_ok c'"
  using assms
  by (auto simp: control_directive_def control_ok_def strip_prefix_def word_gt_0
      split: if_splits option.splits)

lemma control_directives_run:
  assumes "control_directives parts c = Inr c'" and "control_ok c"
  shows "(ct_no_store c' \<longleftrightarrow> ct_no_store c \<or> ''no-store'' \<in> set (map directive_of parts)) \<and>
    (ct_no_cache c' \<longleftrightarrow> ct_no_cache c \<or> ''no-cache'' \<in> set (map directive_of parts)) \<and>
    ct_max_age c' = last_max_age (map directive_of parts) (ct_max_age c) \<and>
    ct_etag c' = ct_etag c \<and> control_ok c'"
  using assms
proof (induction parts arbitrary: c)
  case Nil
  then show ?case by simp
next
  case (Cons part parts)
  then obtain c1 where c1: "control_directive (directive_of part) c = Inr c1"
      "control_directives parts c1 = Inr c'"
    by (auto simp: res_bind_Inr_iff)
  note step = control_directive_step [OF c1(1)]
  from Cons.IH [OF c1(2) step(5) [OF Cons.prems(2)]] step show ?case by auto
qed

lemma control_default_ok: "control_ok control_default"
  by (simp add: control_ok_def control_default_def)

lemma control_etag_run:
  assumes "control_etag H headers c = Inr c'" and "header_laws H"
  shows "ct_no_store c' = ct_no_store c" and "ct_no_cache c' = ct_no_cache c"
    and "ct_max_age c' = ct_max_age c"
    and "ct_no_store c \<or> ct_no_cache c \<Longrightarrow> ct_etag c' = ct_etag c"
    and "\<not> ct_no_store c \<Longrightarrow> \<not> ct_no_cache c \<Longrightarrow>
      hd_get H ''if-none-match'' headers = Some (ct_etag c') \<and> ct_etag c' \<noteq> [] \<and>
      CHR '','' \<notin> set (ct_etag c') \<and> \<not> starts_with ''W/'' (ct_etag c')"
  using assms(1)
  by (auto simp: control_etag_def dest!: header_text(1) [OF assms(2)] split: if_splits option.splits)

lemma control_accepts_spec:
  assumes "header_laws H" and "hd_get H ''cache-control'' headers = Some text"
    and "control_try_from H headers = Inr c"
  defines "ds \<equiv> map directive_of (split_on CHR '','' text)"
  shows "(ct_no_store c \<longleftrightarrow> ''no-store'' \<in> set ds) \<and> (ct_no_cache c \<longleftrightarrow> ''no-cache'' \<in> set ds) \<and>
    ct_max_age c = last_max_age ds 0 \<and>
    \<not> (ct_no_store c \<and> ct_no_cache c) \<and> (ct_no_store c \<longrightarrow> ct_max_age c = 0) \<and>
    (if ct_no_store c \<or> ct_no_cache c then ct_etag c = []
     else hd_get H ''if-none-match'' headers = Some (ct_etag c) \<and> ct_etag c \<noteq> [] \<and>
       CHR '','' \<notin> set (ct_etag c) \<and> \<not> starts_with ''W/'' (ct_etag c))"
proof -
  obtain c0 where c0: "control_directives (split_on CHR '','' text) control_default = Inr c0"
      "control_etag H headers c0 = Inr c"
    using assms(2,3) header_text(1) [OF assms(1)]
    by (fastforce simp: control_try_from_def res_bind_Inr_iff split: if_splits option.splits)
  note run = control_directives_run [OF c0(1) control_default_ok, folded ds_def]
  note etag = control_etag_run [OF c0(2) assms(1)]
  show ?thesis using run etag by (auto simp: control_default_def control_ok_def)
qed

text \<open>
  Which directives are accepted after which: \<open>no-store\<close> after no \<open>no-cache\<close> and with no lifetime so
  far, \<open>no-cache\<close> after no \<open>no-store\<close>, and \<open>max-age\<close> after no \<open>no-store\<close> and with a number.
\<close>

definition directive_fits :: "string list \<Rightarrow> string \<Rightarrow> bool" where
  "directive_fits before d \<longleftrightarrow>
     (d = ''no-store'' \<longrightarrow> ''no-cache'' \<notin> set before \<and> last_max_age before 0 = 0) \<and>
     (d = ''no-cache'' \<longrightarrow> ''no-store'' \<notin> set before) \<and>
     (\<forall>val. strip_prefix ''max-age='' d = Some val \<longrightarrow> ''no-store'' \<notin> set before \<and> parse_u64 (trim val) \<noteq> None)"

definition control_of :: "string list \<Rightarrow> control" where
  "control_of ds = \<lparr>ct_no_cache = ''no-cache'' \<in> set ds, ct_no_store = ''no-store'' \<in> set ds,
     ct_max_age = last_max_age ds 0, ct_etag = []\<rparr>"

lemma last_max_age_snoc: "last_max_age (ds @ [d]) n = last_max_age [d] (last_max_age ds n)"
  by (induction ds arbitrary: n) simp_all

lemma control_directives_snoc:
  "control_directives (parts @ [part]) c =
     res_bind (control_directives parts c) (control_directive (directive_of part))"
proof (induction parts arbitrary: c)
  case (Cons p parts)
  then show ?case by (cases "control_directive (directive_of p) c") simp_all
next
  case Nil
  then show ?case by (cases "control_directive (directive_of part) c") simp_all
qed

lemma control_directive_iff:
  "control_directive d (control_of ds) = Inr c \<longleftrightarrow> directive_fits ds d \<and> c = control_of (ds @ [d])"
  by (auto simp: control_directive_def directive_fits_def control_of_def last_max_age_snoc strip_prefix_def word_gt_0
      split: if_splits option.splits)

lemma control_directives_iff:
  "control_directives parts control_default = Inr c \<longleftrightarrow>
     (\<forall>i < length parts. directive_fits (take i (map directive_of parts)) (map directive_of parts ! i)) \<and>
     c = control_of (map directive_of parts)"
proof (induction parts arbitrary: c rule: rev_induct)
  case Nil
  then show ?case by (auto simp: control_default_def control_of_def)
next
  case (snoc part parts)
  let ?fits = "\<lambda>ps i. directive_fits (take i (map directive_of ps)) (map directive_of ps ! i)"
  have "?fits (parts @ [part]) i = ?fits parts i" if "i < length parts" for i
    using that by (simp add: nth_append)
  then have "(\<forall>i < length (parts @ [part]). ?fits (parts @ [part]) i) \<longleftrightarrow>
      (\<forall>i < length parts. ?fits parts i) \<and> directive_fits (map directive_of parts) (directive_of part)"
    by (auto simp: less_Suc_eq nth_append)
  then show ?case by (auto simp: control_directives_snoc res_bind_Inr_iff snoc.IH control_directive_iff)
qed

lemma control_etag_iff:
  assumes "header_laws H"
  shows "control_etag H headers (control_of ds) = Inr c \<longleftrightarrow>
    c = (control_of ds)\<lparr>ct_etag := ct_etag c\<rparr> \<and>
    (if ''no-store'' \<in> set ds \<or> ''no-cache'' \<in> set ds then ct_etag c = []
     else hd_get H ''if-none-match'' headers = Some (ct_etag c) \<and> ct_etag c \<noteq> [] \<and> hd_to_str H (ct_etag c) \<noteq> None \<and>
       CHR '','' \<notin> set (ct_etag c) \<and> \<not> starts_with ''W/'' (ct_etag c))"
proof (cases "''no-store'' \<in> set ds \<or> ''no-cache'' \<in> set ds")
  case True
  then show ?thesis by (auto simp: control_etag_def control_of_def)
next
  case False
  show ?thesis
  proof (cases "hd_get H ''if-none-match'' headers")
    case None
    with False show ?thesis by (simp add: control_etag_def control_of_def)
  next
    case (Some etag)
    show ?thesis
    proof (cases "hd_to_str H etag")
      case None
      with Some False show ?thesis by (auto simp: control_etag_def control_of_def)
    next
      case (Some t)
      then have "t = etag" by (rule header_text(1) [OF assms])
      with Some \<open>hd_get H ''if-none-match'' headers = Some etag\<close> False show ?thesis
        by (cases c) (auto simp: control_etag_def control_of_def)
    qed
  qed
qed

section \<open>Storing and finding responses\<close>

text \<open>A response all of whose header values are text, with a valid status.\<close>

definition response_text :: "'m header_ops \<Rightarrow> 'm response \<Rightarrow> bool" where
  "response_text H r \<longleftrightarrow> hd_status H (rs_status r) \<and>
     (\<forall>(k, x) \<in> set (hd_items H (rs_headers r)). hd_to_str H x \<noteq> None)"

lemma serialize_roundtrip:
  assumes "header_laws H" and "rkyv_laws R" and "response_text H r" and "serialize H R r = Inr bs"
  shows "deserialize H R bs = Inr r"
proof -
  have "map (\<lambda>(k, x). (k, case hd_to_str H x of None \<Rightarrow> [] | Some t \<Rightarrow> t)) (hd_items H (rs_headers r)) =
      hd_items H (rs_headers r)"
    using assms(3) header_text(1) [OF assms(1)]
    by (intro map_idI) (fastforce simp: response_text_def split: option.splits)
  then have "response_from H (serialized_from H r) = Inr r"
    using assms(3) by (simp add: response_from_def serialized_from_def response_text_def
        header_rebuild [OF assms(1)])
  moreover have "rk_from_bytes R bs = Inr (serialized_from H r)"
    using assms(2,4) by (auto simp: rkyv_laws_def serialize_def)
  ultimately show ?thesis by (simp add: deserialize_def)
qed

definition caches :: "http_cache \<Rightarrow> bool" where
  "caches c \<longleftrightarrow> (let ctrl = hc_control c in
     \<not> ct_no_cache ctrl \<and> \<not> ct_no_store ctrl \<and> ct_etag ctrl \<noteq> [] \<and> ct_max_age ctrl \<noteq> 0)"

text \<open>The instant at which a response put at \<open>now1\<close> expires.\<close>

definition expiry :: "http_cache \<Rightarrow> int \<Rightarrow> int" where
  "expiry c now1 = (now1 + sint (ct_max_age (hc_control c)) * nanos) div nanos * nanos"

context ttl_cache
begin

lemma http_put_get:
  fixes H :: "'m header_ops"
  defines "B \<equiv> \<lparr>bc_open = copen, bc_get = cget, bc_set = cput\<rparr>"
  assumes "header_laws H" and "rkyv_laws R" and "response_text H r" and "caches c"
    and "ok s" and "http_cache_put H R B c r now1 now2 s = (Inr (), s1)"
    and "copen (hc_bucket c) s1 = (Inr h, s2)"
  shows "now < expiry c now1 \<Longrightarrow> http_cache_get H R B c now s1 = (Inr (Some r), s2)"
    and "\<not> now < expiry c now1 \<Longrightarrow> \<exists>s3. http_cache_get H R B c now s1 = (Inr None, s3)"
proof -
  obtain h0 s0 bs p where s0: "copen (hc_bucket c) s = (Inr h0, s0)" "serialize H R r = Inr bs"
      "cput h0 (ct_etag (hc_control c)) bs (ct_max_age (hc_control c)) now1 now2 s0 = (Inr p, s1)"
    using assms(5,7)
    by (auto simp: http_cache_put_def B_def caches_def Let_def op_bind_Inr split: if_splits)
  have ok0: "ok s0" "names s0 h0 = Some (hc_bucket c)"
    using open_law [OF assms(6) s0(1)] by auto
  note get = put_open_get [OF ok0 s0(3) assms(8), of now]
  note again = serialize_roundtrip [OF assms(2-4) s0(2)]
  show "now < expiry c now1 \<Longrightarrow> http_cache_get H R B c now s1 = (Inr (Some r), s2)"
    using get(1) assms(5) again
    by (simp add: http_cache_get_def B_def caches_def Let_def assms(8) expiry_def)
  show "\<not> now < expiry c now1 \<Longrightarrow> \<exists>s3. http_cache_get H R B c now s1 = (Inr None, s3)"
    using get(2) assms(5)
    by (auto simp: http_cache_get_def B_def caches_def Let_def assms(8) expiry_def)
qed

lemma http_get_ok:
  fixes H :: "'m header_ops"
  defines "B \<equiv> \<lparr>bc_open = copen, bc_get = cget, bc_set = cput\<rparr>"
  assumes "ok s" and "http_cache_get H R B c now s = (Inr x, s')"
  shows "ok s'"
proof (cases "ct_no_cache (hc_control c) \<or> ct_no_store (hc_control c) \<or> ct_etag (hc_control c) = []")
  case True
  then show ?thesis using assms(2,3) by (auto simp: http_cache_get_def Let_def)
next
  case False
  then obtain h s1 r s2 where 1: "copen (hc_bucket c) s = (Inr h, s1)"
      "cget h (ct_etag (hc_control c)) now s1 = (Inr r, s2)"
      "(case r of None \<Rightarrow> op_return None | Some data \<Rightarrow> op_lift (res_map_err CacheErr
            (res_bind (deserialize H R data) (\<lambda>r. Inr (Some r))))) s2 = (Inr x, s')"
    using assms(3) by (auto simp: http_cache_get_def B_def Let_def op_bind_Inr simp del: op_bind_ok op_bind_err)
  then have "s' = s2" by (cases r) auto
  with open_law [OF assms(2) 1(1)] keep_law [OF _ _ 1(2)] show ?thesis by auto
qed

text \<open>After an answered cacheable request, the same request within the lifetime is a hit.\<close>

lemma handle_hit:
  fixes H :: "'m header_ops"
  defines "B \<equiv> \<lparr>bc_open = copen, bc_get = cget, bc_set = cput\<rparr>"
  assumes "header_laws H" and "rkyv_laws R" and "ok s"
    and req: "maybe_from H (rq_headers req) (rq_cache_options req) = Inr (Some c)" and "caches c"
    and miss: "http_cache_get H R B c now s = (Inr None, s0)"
    and proxy: "\<And>t x t'. ok t \<Longrightarrow> proxy_call P req t = (Inr x, t') \<Longrightarrow> ok t'"
    and first: "http_handle H R B P req now now1 now2 s = (Inr r, s1)" and "response_text H r"
    and "copen (hc_bucket c) s1 = (Inr h, s2)" and "now' < expiry c now1"
  shows "http_handle H R B P' req now' m1 m2 s1 = (Inr r, s2)"
proof -
  have "ok s0" using http_get_ok [OF assms(4) miss [unfolded B_def]] .
  obtain x t where t: "proxy_call P req s0 = (Inr x, t)"
      "store_response H R B (Some c) x now1 now2 t = (Inr r, s1)"
    using first by (auto simp: http_handle_def req miss op_bind_Inr)
  then have "ok t" "http_cache_put H R B c r now1 now2 t = (Inr (), s1)"
    using proxy [OF \<open>ok s0\<close>]
    by (auto simp: store_response_def Let_def op_bind_Inr split: option.splits)
  from http_put_get(1) [OF assms(2,3,10) assms(6) this(1) this(2) [unfolded B_def] assms(11,12)]
  show ?thesis by (simp add: http_handle_def req B_def)
qed

end

section \<open>Over the in-memory key-value host\<close>

definition linked_cache ::
  "cache_env \<Rightarrow> ('t, in_mem_bucket kv_entry) table_ops \<Rightarrow> ((kv_store, 't) ctx_view, nat cache) byte_cache" where
  "linked_cache E T = \<lparr>bc_open = cache_open E (linked_store T), bc_get = cache_get E (linked_store T),
     bc_set = (\<lambda>c k x ttl. cache_set E (linked_store T) c k x (Some ttl))\<rparr>"

text \<open>A concrete setting for the witnesses: one archive format, one request, one response.\<close>

definition demo_response :: "(string \<times> string) list response" where
  "demo_response = \<lparr>rs_status = 200, rs_headers = [(''etag'', ''v1'')], rs_body = [4, 2]\<rparr>"

definition demo_rkyv :: rkyv_ops where
  "demo_rkyv = (let d = serialized_from alist_headers demo_response in
     \<lparr>rk_to_bytes = (\<lambda>s. if s = d then Inr [1] else Inl ''unsupported''),
      rk_from_bytes = (\<lambda>bs. if bs = [1] then Inr d else Inl ''invalid'')\<rparr>)"

lemma demo_rkyv_laws: "rkyv_laws demo_rkyv"
  by (simp add: rkyv_laws_def demo_rkyv_def Let_def)

lemma demo_response_text: "response_text alist_headers demo_response"
  by (simp add: response_text_def demo_response_def alist_headers_def text_of_def printable_def)

definition demo_request :: "(string \<times> string) list request_view" where
  "demo_request = \<lparr>rq_headers = [(''cache-control'', ''max-age=60''), (''if-none-match'', ''v1'')],
     rq_cache_options = None\<rparr>"

definition demo_http_cache :: http_cache where
  "demo_http_cache = \<lparr>hc_control = \<lparr>ct_no_cache = False, ct_no_store = False, ct_max_age = 60,
     ct_etag = ''v1''\<rparr>, hc_bucket = ''default-cache''\<rparr>"

lemmas control_eval = control_try_from_def alist_headers_def text_of_def printable_def directive_of_def
  control_directive_def control_etag_def control_default_def text_eval

lemma demo_maybe_from:
  "maybe_from alist_headers (rq_headers demo_request) (rq_cache_options demo_request) = Inr (Some demo_http_cache)"
  by (simp add: control_eval maybe_from_def demo_request_def demo_http_cache_def cache_bucket_name_def)

definition demo_start :: "(kv_store, in_mem_bucket kv_entry option list) ctx_view" where
  "demo_start = \<lparr>cv_ctx = [], cv_table = []\<rparr>"

lemma slot_open: "\<exists>h v'. cache_open E (linked_store slot_table) name v = (Inr h, v')"
  by (simp add: cache_open_def cache_call_def linked_store_def host_open_def kv_call_def open_bucket_def
      push_entry_def slot_table_def Let_def)

lemma slot_put:
  assumes "kv_wf_view v" and "caches c" and "serialize H R r = Inr bs"
  shows "\<exists>v'. http_cache_put H R (linked_cache unary_env slot_table) c r now1 now2 v = (Inr (), v')"
proof -
  obtain h v1 where 1: "cache_open unary_env (linked_store slot_table) (hc_bucket c) v = (Inr h, v1)"
    using slot_open by blast
  have ok: "kv_wf_view v1" "bucket_of slot_table v1 h = Some (hc_bucket c)"
    using kvc.open_law [OF assms(1) 1] by auto
  have "cache_wrap unary_env now1 bs (Some (ct_max_age (hc_control c))) =
      Inr (unary_encode (bs, (now1 + sint (ct_max_age (hc_control c)) * nanos) div nanos))"
    by (simp add: cache_wrap_def unary_env_def cacheable_new_def cacheable_into_def)
  from cache_set_run [OF ok this] obtain p v2 where
    "cache_set unary_env (linked_store slot_table) h (ct_etag (hc_control c)) bs
       (Some (ct_max_age (hc_control c))) now1 now2 v1 = (Inr p, v2)" by blast
  with 1 assms(2,3) show ?thesis
    by (simp add: http_cache_put_def caches_def Let_def linked_cache_def)
qed

lemma demo_start_ok: "kv_wf_view demo_start"
  by (simp add: demo_start_def kv_wf_view_def kv_wf_def)

lemma slot_miss:
  assumes "caches c"
  shows "\<exists>v2. http_cache_get H R (linked_cache unary_env slot_table) c now demo_start = (Inr None, v2) \<and> kv_wf_view v2"
proof -
  let ?b = "hc_bucket c"
  obtain h v1 where 1: "cache_open unary_env (linked_store slot_table) ?b demo_start = (Inr h, v1)"
    using slot_open by blast
  have ok: "kv_wf_view v1" "bucket_of slot_table v1 h = Some ?b"
    using kvc.open_law [OF demo_start_ok 1] by auto
  have "cv_ctx v1 = [(?b, [])]"
    using 1 by (auto simp: cache_open_def cache_call_def linked_store_def host_open_def kv_call_def
        open_bucket_def push_entry_def slot_table_def demo_start_def hm_entry_or_def hm_contains_def
        hm_insert_def Let_def)
  then have "stored_at v1 ?b (ct_etag (hc_control c)) = None" by (simp add: stored_at_def kv_view_def)
  with cache_get_run [OF ok, of unary_env "ct_etag (hc_control c)" now]
  obtain v2 where "cache_get unary_env (linked_store slot_table) h (ct_etag (hc_control c)) now v1 = (Inr None, v2)"
      "kv_wf_view v2" by (auto simp: live_value_def stores_def)
  then show ?thesis using assms 1 by (simp add: http_cache_get_def caches_def linked_cache_def Let_def)
qed

lemma demo_serialize: "serialize alist_headers demo_rkyv demo_response = Inr [1]"
  by (simp add: serialize_def demo_rkyv_def Let_def)

lemma demo_caches: "caches demo_http_cache" "expiry demo_http_cache 0 = 60 * nanos"
  by (simp_all add: caches_def demo_http_cache_def expiry_def nanos_def)

lemma demo_store:
  assumes "http_cache_put alist_headers R B demo_http_cache demo_response 0 0 s = (Inr (), t)"
  shows "store_response alist_headers R B (Some demo_http_cache)
    \<lparr>rs_status = 200, rs_headers = [], rs_body = [4, 2]\<rparr> 0 0 s = (Inr demo_response, t)"
proof -
  have "hd_from_str alist_headers (etag_of demo_http_cache) = Some ''v1''"
    and "hd_insert alist_headers ''etag'' ''v1'' [] = [(''etag'', ''v1'')]"
    by (simp_all add: etag_of_def demo_http_cache_def alist_headers_def text_of_def printable_def hm_insert_def)
  with assms show ?thesis by (simp add: store_response_def demo_response_def Let_def)
qed

section \<open>Properties\<close>



text \<open>
  \<open>no-cache\<close> disables the cache.  A request whose \<open>Cache-Control\<close> is \<open>no-cache\<close> is accepted
  whatever its \<open>If-None-Match\<close> (absent, weak or a list), and for it neither \<open>get\<close> nor \<open>put\<close> ever
  touches the cache, in any state: the response is never stored, although the comment on the
  flag says that it updates the cache.
\<close>

theorem no_cache_never_stores:
  assumes "hd_get H ''cache-control'' headers = Some ''no-cache''"
    and "hd_to_str H ''no-cache'' = Some ''no-cache''"
  shows "\<exists>c. maybe_from H headers options = Inr (Some c) \<and> ct_no_cache (hc_control c) \<and>
    (\<forall>B now s. http_cache_get H R B c now s = (Inr None, s)) \<and>
    (\<forall>B r now1 now2 s. http_cache_put H R B c r now1 now2 s = (Inr (), s))"
proof -
  have "control_directives (split_on CHR '','' ''no-cache'') control_default =
      Inr (control_default\<lparr>ct_no_cache := True\<rparr>)"
    by code_simp
  with assms have "control_try_from H headers = Inr (control_default\<lparr>ct_no_cache := True\<rparr>)"
    by (simp add: control_try_from_def control_etag_def control_default_def)
  with assms show ?thesis
    by (simp add: maybe_from_def http_cache_get_def http_cache_put_def control_default_def)
qed

theorem no_cache_never_stores_witness:
  "\<exists>c. maybe_from alist_headers [(''cache-control'', ''no-cache''), (''if-none-match'', ''W/v1'')] None =
     Inr (Some c) \<and> ct_no_cache (hc_control c)"
  using no_cache_never_stores [of alist_headers
      "[(''cache-control'', ''no-cache''), (''if-none-match'', ''W/v1'')]" None undefined]
  by (auto simp: alist_headers_def text_of_def printable_def)

text \<open>
  C2: Cached responses come back.  Over the in-memory key-value host, a response with text
  headers put for a cacheable request is returned unchanged by \<open>get\<close> at every instant before the
  end of the whole second in which its lifetime ends, and never from then on.
\<close>

theorem http_cache_roundtrip:
  assumes "table_laws T" and "cache_env_laws E" and "header_laws H" and "rkyv_laws R"
    and "response_text H r" and "caches c" and "kv_wf_view s"
    and "http_cache_put H R (linked_cache E T) c r now1 now2 s = (Inr (), s1)"
    and "cache_open E (linked_store T) (hc_bucket c) s1 = (Inr h, s2)"
  shows "fst (http_cache_get H R (linked_cache E T) c now s1) =
    Inr (if now < expiry c now1 then Some r else None)"
proof -
  note rt = ttl_cache.http_put_get [OF kv_cache_is_ttl_cache [OF assms(1,2)] assms(3-7)
      assms(8) [unfolded linked_cache_def] assms(9), of now, folded linked_cache_def]
  show ?thesis
  proof (cases "now < expiry c now1")
    case True
    from rt(1) [OF this] True show ?thesis by simp
  next
    case False
    from rt(2) [OF this] False show ?thesis by auto
  qed
qed

theorem http_cache_roundtrip_witness:
  "\<exists>s1. http_cache_put alist_headers demo_rkyv (linked_cache unary_env slot_table) demo_http_cache
       demo_response 0 0 demo_start = (Inr (), s1) \<and>
     fst (http_cache_get alist_headers demo_rkyv (linked_cache unary_env slot_table) demo_http_cache 5 s1) =
       Inr (Some demo_response) \<and>
     fst (http_cache_get alist_headers demo_rkyv (linked_cache unary_env slot_table) demo_http_cache
       (60 * nanos) s1) = Inr None"
proof -
  obtain s1 where put: "http_cache_put alist_headers demo_rkyv (linked_cache unary_env slot_table)
      demo_http_cache demo_response 0 0 demo_start = (Inr (), s1)"
    using slot_put [OF demo_start_ok demo_caches(1) demo_serialize] by blast
  obtain h s2 where "cache_open unary_env (linked_store slot_table) (hc_bucket demo_http_cache) s1 = (Inr h, s2)"
    using slot_open by blast
  note rt = http_cache_roundtrip [OF slot_table_laws unary_env_laws alist_header_laws demo_rkyv_laws
      demo_response_text demo_caches(1) demo_start_ok put this]
  show ?thesis using put rt [of 5] rt [of "60 * nanos"] by (simp add: demo_caches nanos_def)
qed

text \<open>
  C5: A hit needs no proxy.  After a cacheable request was answered through the proxy, the same
  request within the lifetime returns the same response whatever the proxy would now do, and
  the proxy is not called.
\<close>

theorem http_handle_hit:
  assumes "table_laws T" and "cache_env_laws E" and "header_laws H" and "rkyv_laws R" and "kv_wf_view s"
    and "maybe_from H (rq_headers req) (rq_cache_options req) = Inr (Some c)" and "caches c"
    and "http_cache_get H R (linked_cache E T) c now s = (Inr None, s0)"
    and "\<forall>t x t'. kv_wf_view t \<longrightarrow> proxy_call P req t = (Inr x, t') \<longrightarrow> kv_wf_view t'"
    and "http_handle H R (linked_cache E T) P req now now1 now2 s = (Inr r, s1)" and "response_text H r"
    and "cache_open E (linked_store T) (hc_bucket c) s1 = (Inr h, s2)" and "now' < expiry c now1"
  shows "http_handle H R (linked_cache E T) P' req now' m1 m2 s1 = (Inr r, s2)"
  by (rule ttl_cache.handle_hit [OF kv_cache_is_ttl_cache [OF assms(1,2)] assms(3,4,5,6,7)
      assms(8) [unfolded linked_cache_def] _ assms(10) [unfolded linked_cache_def] assms(11,12,13),
      folded linked_cache_def]) (use assms(9) in blast)

definition demo_proxy :: "((kv_store, in_mem_bucket kv_entry option list) ctx_view,
    (string \<times> string) list request_view, (string \<times> string) list) proxy_ops" where
  "demo_proxy = \<lparr>px_into = (\<lambda>_. None),
     px_handle = (\<lambda>_. op_return (Inr (200, [], Some [(Complete, [4]), (Dropped, [2]), (Complete, [9])])))\<rparr>"

lemma demo_proxy_call:
  "proxy_call demo_proxy req t = (Inr \<lparr>rs_status = 200, rs_headers = [], rs_body = [4, 2]\<rparr>, t)"
  by (simp add: proxy_call_def demo_proxy_def)

theorem http_handle_hit_witness:
  "\<exists>s1 s2. http_handle alist_headers demo_rkyv (linked_cache unary_env slot_table) demo_proxy demo_request
       0 0 0 demo_start = (Inr demo_response, s1) \<and>
     http_handle alist_headers demo_rkyv (linked_cache unary_env slot_table)
       \<lparr>px_into = (\<lambda>_. Some (Anyhow ''unreachable'')), px_handle = px_handle demo_proxy\<rparr>
       demo_request 5 5 5 s1 = (Inr demo_response, s2)"
proof -
  let ?B = "linked_cache unary_env slot_table"
  obtain v2 where miss: "http_cache_get alist_headers demo_rkyv ?B demo_http_cache 0 demo_start = (Inr None, v2)"
      and v2: "kv_wf_view v2" using slot_miss [OF demo_caches(1)] by blast
  obtain s1 where put: "http_cache_put alist_headers demo_rkyv ?B demo_http_cache demo_response 0 0 v2 = (Inr (), s1)"
    using slot_put [OF v2 demo_caches(1) demo_serialize] by blast
  have first: "http_handle alist_headers demo_rkyv ?B demo_proxy demo_request 0 0 0 demo_start =
      (Inr demo_response, s1)"
    by (simp add: http_handle_def demo_maybe_from miss demo_proxy_call demo_store [OF put])
  obtain h' s2 where "cache_open unary_env (linked_store slot_table) (hc_bucket demo_http_cache) s1 = (Inr h', s2)"
    using slot_open by blast
  from http_handle_hit [OF slot_table_laws unary_env_laws alist_header_laws demo_rkyv_laws demo_start_ok
      demo_maybe_from demo_caches(1) miss _ first demo_response_text this, of 5] first
  show ?thesis by (auto simp: demo_proxy_call demo_caches nanos_def)
qed

text \<open>
  The origin's entity tag is lost.  When a request forbids caching (\<open>no-store\<close> or
  \<open>no-cache\<close>), the response that \<open>handle\<close> returns has an empty \<open>ETag\<close> in place of the one the origin
  sent; status, body and the other headers are the origin's.
\<close>

theorem http_handle_blanks_etag:
  assumes "header_laws H" and "maybe_from H (rq_headers req) (rq_cache_options req) = Inr (Some c)"
    and "ct_no_store (hc_control c) \<or> ct_no_cache (hc_control c)"
    and "proxy_call P req s = (Inr r, s')"
  shows "\<exists>r'. http_handle H R B P req now now1 now2 s = (Inr r', s') \<and>
    hd_get H ''etag'' (rs_headers r') = Some [] \<and> rs_status r' = rs_status r \<and> rs_body r' = rs_body r \<and>
    (\<forall>n. n \<noteq> ''etag'' \<longrightarrow> hd_get H n (rs_headers r') = hd_get H n (rs_headers r))"
proof -
  have "control_try_from H (rq_headers req) = Inr (hc_control c)"
      "hd_get H ''cache-control'' (rq_headers req) \<noteq> None"
    using assms(2) by (auto simp: maybe_from_def res_bind_Inr_iff split: if_splits)
  then have etag: "etag_of c = []"
    using control_accepts_spec [OF assms(1)] assms(3) by (auto simp: etag_of_def)
  have none: "http_cache_get H R B c now s = (Inr None, s)"
    using assms(3) by (auto simp: http_cache_get_def Let_def)
  have put: "http_cache_put H R B c r' now1 now2 t = (Inr (), t)" for r' t
    using etag by (simp add: http_cache_put_def etag_of_def Let_def)
  show ?thesis
    by (simp add: http_handle_def assms(2,4) none store_response_def etag header_text(3) [OF assms(1)]
        put Let_def header_insert_get [OF assms(1)])
qed

theorem http_handle_blanks_etag_witness:
  "\<exists>r'. http_handle alist_headers demo_rkyv (linked_cache unary_env slot_table) demo_proxy
       \<lparr>rq_headers = [(''cache-control'', ''no-cache'')], rq_cache_options = None\<rparr> 0 0 0 demo_start = (Inr r', demo_start) \<and>
     hd_get alist_headers ''etag'' (rs_headers r') = Some [] \<and> rs_body r' = [4, 2]"
proof -
  let ?req = "\<lparr>rq_headers = [(''cache-control'', ''no-cache'')], rq_cache_options = None\<rparr>"
  let ?c = "\<lparr>hc_control = \<lparr>ct_no_cache = True, ct_no_store = False, ct_max_age = 0, ct_etag = []\<rparr>,
     hc_bucket = ''default-cache''\<rparr>"
  have from_req: "maybe_from alist_headers (rq_headers ?req) (rq_cache_options ?req) = Inr (Some ?c)"
    by (simp add: control_eval maybe_from_def cache_bucket_name_def)
  have flag: "ct_no_store (hc_control ?c) \<or> ct_no_cache (hc_control ?c)" by simp
  show ?thesis
    using http_handle_blanks_etag [OF alist_header_laws from_req flag demo_proxy_call,
        of demo_rkyv "linked_cache unary_env slot_table" 0 0 0 demo_start] by auto
qed

end
