(* ===== verification/HttpHost.thy ===== *)
theory HttpHost
  imports HttpHeaders
begin

text \<open>
  wasi-http, host side: \<open>src/host/default_impl.rs\<close> (the outgoing proxy over reqwest) and
  \<open>src/host/server.rs\<close> (the server that hands each request to a fresh guest instance).

  Outside the source: header maps, base64 and PEM decoding, the reqwest client, the uri builder
  and the guest instance, which are the records and arguments below.
\<close>

section \<open>Outgoing requests\<close>

definition forbidden_headers :: "string list" where
  "forbidden_headers = [''connection'', ''host'', ''proxy-authenticate'', ''proxy-authorization'',
     ''transfer-encoding'', ''upgrade'', ''keep-alive'', ''proxy-connection'', ''http2-settings'']"

datatype error_code =
  ConnectionTimeout | ConnectionRefused | HttpRequestUriInvalid | InternalError "string option"

definition internal_error :: "string \<Rightarrow> error_code" where
  "internal_error e = InternalError (Some e)"

record reqwest_err =
  re_is_timeout :: bool
  re_is_connect :: bool
  re_is_request :: bool
  re_text :: string

definition reqwest_error :: "reqwest_err \<Rightarrow> error_code" where
  "reqwest_error e =
     (if re_is_timeout e then ConnectionTimeout
      else if re_is_connect e then ConnectionRefused
      else if re_is_request e then HttpRequestUriInvalid
      else internal_error (re_text e))"

record 'm out_request =
  oq_method :: string
  oq_uri :: string
  oq_headers :: 'm
  oq_body :: "string + bytes"   \<comment> \<open>what collecting the body yields\<close>

record ('m, 'id, 'client) reqwest_ops =
  rw_decode :: "string \<Rightarrow> string + bytes"               \<comment> \<open>\<open>Base64::decode_vec\<close>\<close>
  rw_identity :: "bytes \<Rightarrow> string + 'id"                \<comment> \<open>\<open>Identity::from_pem\<close>\<close>
  rw_build :: "'id option \<Rightarrow> 'm \<Rightarrow> reqwest_err + 'client"  \<comment> \<open>\<open>builder.default_headers(..).build()\<close>\<close>
  rw_send :: "'client \<Rightarrow> string \<Rightarrow> string \<Rightarrow> bytes \<Rightarrow> reqwest_err + 'm response"

text \<open>\<open>parts.headers.remove("Client-Cert")\<close>: the certificate to use, and the headers without it.\<close>

definition client_cert ::
  "'m header_ops \<Rightarrow> ('m, 'id, 'client) reqwest_ops \<Rightarrow> 'm \<Rightarrow> error_code + ('id option \<times> 'm)" where
  "client_cert H W headers = (case hd_get H ''client-cert'' headers of
      None \<Rightarrow> Inr (None, headers)
    | Some encoded_cert \<Rightarrow>
        res_bind (ok_or (internal_error ''failed to convert header to a str'') (hd_to_str H encoded_cert)) (\<lambda>encoded.
        res_bind (res_map_err internal_error (rw_decode W encoded)) (\<lambda>bytes.
        res_bind (res_map_err internal_error (rw_identity W bytes)) (\<lambda>identity.
        Inr (Some identity, hd_remove H ''client-cert'' headers)))))"

definition strip_forbidden :: "'m header_ops \<Rightarrow> 'm \<Rightarrow> 'm" where
  "strip_forbidden H headers = fold (hd_remove H) forbidden_headers headers"

definition send_request ::
  "'m header_ops \<Rightarrow> ('m, 'id, 'client) reqwest_ops \<Rightarrow> 'm out_request \<Rightarrow> error_code + 'm response" where
  "send_request H W req =
     res_bind (res_map_err internal_error (oq_body req)) (\<lambda>collected.
     res_bind (client_cert H W (oq_headers req)) (\<lambda>(identity, headers).
     let headers = hd_remove H ''host'' headers in
     res_bind (res_map_err reqwest_error (rw_build W identity headers)) (\<lambda>client.
     res_bind (res_map_err reqwest_error (rw_send W client (oq_method req) (oq_uri req) collected)) (\<lambda>resp.
     Inr (resp\<lparr>rs_headers := strip_forbidden H (rs_headers resp)\<rparr>)))))"

section \<open>Incoming requests\<close>

text \<open>
  The uri under construction, as \<open>http::uri::Builder\<close> keeps it: the parts so far, or the first error;
  \<open>build\<close> checks how the parts go together.  The checks themselves are the \<open>http\<close> crate's.
\<close>

record uri_parts =
  up_path_and_query :: string
  up_authority :: "string option"
  up_scheme :: "string option"

type_synonym uri_builder = "anyhow + uri_parts"

record 'uri uri_ops =
  ur_authority :: "string \<Rightarrow> anyhow + unit"    \<comment> \<open>\<open>Authority::try_from\<close>\<close>
  ur_scheme :: "string \<Rightarrow> anyhow + unit"       \<comment> \<open>\<open>Scheme::try_from\<close>\<close>
  ur_from_parts :: "uri_parts \<Rightarrow> anyhow + 'uri"

definition set_authority :: "'uri uri_ops \<Rightarrow> string \<Rightarrow> uri_builder \<Rightarrow> uri_builder" where
  "set_authority V host builder = res_bind builder (\<lambda>u.
     res_bind (ur_authority V host) (\<lambda>_. Inr (u\<lparr>up_authority := Some host\<rparr>)))"

definition set_scheme :: "'uri uri_ops \<Rightarrow> string \<Rightarrow> uri_builder \<Rightarrow> uri_builder" where
  "set_scheme V proto builder = res_bind builder (\<lambda>u.
     res_bind (ur_scheme V proto) (\<lambda>_. Inr (u\<lparr>up_scheme := Some proto\<rparr>)))"

definition forwarded_tuple :: "'uri uri_ops \<Rightarrow> string \<Rightarrow> uri_builder \<Rightarrow> uri_builder" where
  "forwarded_tuple V part builder =
     (let tuple = trim part in
      case strip_prefix ''host='' tuple of
        Some host \<Rightarrow> set_authority V host builder
      | None \<Rightarrow> (case strip_prefix ''proto='' tuple of
            Some proto \<Rightarrow> set_scheme V proto builder
          | None \<Rightarrow> builder))"

definition not_text :: anyhow where
  "not_text = Foreign ''failed to convert header to a str''"

definition fix_request ::
  "'m header_ops \<Rightarrow> 'uri uri_ops \<Rightarrow> string option \<Rightarrow> 'm \<Rightarrow> anyhow + 'uri" where
  "fix_request H V p_and_q headers =
     (let u = Inr \<lparr>up_path_and_query = (case p_and_q of None \<Rightarrow> ''/'' | Some pq \<Rightarrow> pq),
               up_authority = None, up_scheme = None\<rparr>;
          builder = (case hd_get H ''forwarded'' headers of
              Some forwarded \<Rightarrow>
                res_bind (ok_or not_text (hd_to_str H forwarded)) (\<lambda>text.
                Inr (fold (forwarded_tuple V) (split_on CHR '';'' text) u))
            | None \<Rightarrow>
                (case hd_get H ''host'' headers of
                   None \<Rightarrow> Inl (Anyhow ''missing host header'')
                 | Some host \<Rightarrow>
                     res_bind (ok_or not_text (hd_to_str H host)) (\<lambda>h.
                     Inr (set_scheme V ''http'' (set_authority V h u)))))
      in res_bind builder (\<lambda>b. res_bind b (ur_from_parts V)))"

text \<open>The guest gets the request with its uri replaced; its answer, or its failure, is given.\<close>

definition handler_handle ::
  "'m header_ops \<Rightarrow> 'uri uri_ops \<Rightarrow> ('uri \<Rightarrow> 'm \<Rightarrow> bytes \<Rightarrow> anyhow + 'm response)
    \<Rightarrow> string option \<Rightarrow> 'm \<Rightarrow> bytes \<Rightarrow> anyhow + 'm response" where
  "handler_handle H V guest p_and_q headers body =
     res_bind (res_map_err (Context ''preparing request'') (fix_request H V p_and_q headers))
       (\<lambda>uri. guest uri headers body)"

definition error_page :: "'m header_ops \<Rightarrow> bytes \<Rightarrow> 'm \<Rightarrow> 'm response" where
  "error_page H page m0 = \<lparr>rs_status = 500,
     rs_headers = hd_insert H ''content-type'' ''text/html; charset=UTF-8'' m0, rs_body = page\<rparr>"

text \<open>\<open>handler.handle(request).await.unwrap_or_else(|_e| internal_error())\<close>\<close>

definition serve_request ::
  "'m header_ops \<Rightarrow> bytes \<Rightarrow> 'm \<Rightarrow> 'uri uri_ops \<Rightarrow> ('uri \<Rightarrow> 'm \<Rightarrow> bytes \<Rightarrow> anyhow + 'm response)
    \<Rightarrow> string option \<Rightarrow> 'm \<Rightarrow> bytes \<Rightarrow> 'm response" where
  "serve_request H page m0 V guest p_and_q headers body =
     (case handler_handle H V guest p_and_q headers body of
        Inl e \<Rightarrow> error_page H page m0
      | Inr r \<Rightarrow> r)"

text \<open>The accept loop: what the listener yields, the connections served, and the error that ends it.\<close>

datatype 'c accepted = Accepted 'c | AcceptFailed anyhow | NodelayFailed 'c anyhow

fun accept_loop :: "'c accepted list \<Rightarrow> 'c list \<times> anyhow option" where
  "accept_loop [] = ([], None)"
| "accept_loop (Accepted c # rest) = (case accept_loop rest of (cs, e) \<Rightarrow> (c # cs, e))"
| "accept_loop (AcceptFailed e # rest) = ([], Some e)"
| "accept_loop (NodelayFailed c e # rest) = ([], Some e)"

section \<open>Lemmas\<close>

lemma fold_remove_get:
  assumes "header_laws H"
  shows "hd_get H n (fold (hd_remove H) names m) = (if n \<in> set names then None else hd_get H n m)"
  by (induction names arbitrary: m) (auto simp: header_remove_get [OF assms])

lemma strip_forbidden_get:
  "header_laws H \<Longrightarrow> hd_get H n (strip_forbidden H m) =
     (if n \<in> set forbidden_headers then None else hd_get H n m)"
  unfolding strip_forbidden_def by (rule fold_remove_get)

text \<open>The values of the tuples of a \<open>Forwarded\<close> header with the given key, in order.\<close>

definition values_of :: "string \<Rightarrow> string list \<Rightarrow> string list" where
  "values_of key parts = List.map_filter (\<lambda>part. strip_prefix key (trim part)) parts"

definition last_of :: "'a option \<Rightarrow> 'a list \<Rightarrow> 'a option" where
  "last_of d xs = (if xs = [] then d else Some (last xs))"

lemma host_not_proto: "strip_prefix ''host='' s = Some x \<Longrightarrow> strip_prefix ''proto='' s = None"
  by (cases "strip_prefix ''proto='' s") (auto simp: strip_prefix_Some)

lemma values_of_simps [simp]:
  "values_of key [] = []"
  "values_of key (part # parts) = (case strip_prefix key (trim part) of None \<Rightarrow> values_of key parts
     | Some x \<Rightarrow> x # values_of key parts)"
  by (simp_all add: values_of_def List.map_filter_def split: option.split)

lemma last_of_simps [simp]: "last_of d [] = d" "last_of d (x # xs) = last_of (Some x) xs"
  by (simp_all add: last_of_def)

text \<open>The first error sticks; without one, the last values are kept.\<close>

lemma forwarded_stuck: "fold (forwarded_tuple V) parts (Inl e) = Inl e"
  by (induction parts) (simp_all add: forwarded_tuple_def set_authority_def set_scheme_def Let_def split: option.split)

lemma forwarded_tuples:
  "fold (forwarded_tuple V) parts (Inr u) = Inr u' \<longleftrightarrow>
     list_all (\<lambda>h. ur_authority V h = Inr ()) (values_of ''host='' parts) \<and>
     list_all (\<lambda>p. ur_scheme V p = Inr ()) (values_of ''proto='' parts) \<and>
     u' = u\<lparr>up_authority := last_of (up_authority u) (values_of ''host='' parts),
            up_scheme := last_of (up_scheme u) (values_of ''proto='' parts)\<rparr>"
proof (induction parts arbitrary: u)
  case Nil
  then show ?case by auto
next
  case (Cons part parts)
  show ?case
  proof (cases "strip_prefix ''host='' (trim part)")
    case (Some h)
    then have "forwarded_tuple V part (Inr u) = set_authority V h (Inr u)" by (simp add: forwarded_tuple_def)
    with Some show ?thesis using Cons.IH host_not_proto [OF Some]
      by (cases "ur_authority V h") (simp_all add: set_authority_def forwarded_stuck)
  next
    case None
    show ?thesis
    proof (cases "strip_prefix ''proto='' (trim part)")
      case none: None
      then have "forwarded_tuple V part (Inr u) = Inr u" using None by (simp add: forwarded_tuple_def)
      with None none Cons.IH show ?thesis by simp
    next
      case (Some p)
      then have "forwarded_tuple V part (Inr u) = set_scheme V p (Inr u)" using None by (simp add: forwarded_tuple_def)
      with None Some Cons.IH show ?thesis
        by (cases "ur_scheme V p") (simp_all add: set_scheme_def forwarded_stuck)
    qed
  qed
qed

text \<open>
  The parts of the uri that the headers determine, if they do: every value given must be valid, the
  last one counts.
\<close>

definition uri_seen :: "'m header_ops \<Rightarrow> 'uri uri_ops \<Rightarrow> string option \<Rightarrow> 'm \<Rightarrow> uri_parts option" where
  "uri_seen H V p_and_q headers =
    (let pq = (case p_and_q of None \<Rightarrow> ''/'' | Some pq \<Rightarrow> pq);
         valid = (\<lambda>hosts protos. list_all (\<lambda>h. ur_authority V h = Inr ()) hosts \<and> list_all (\<lambda>p. ur_scheme V p = Inr ()) protos);
         seen = (\<lambda>hosts protos. if valid hosts protos then Some \<lparr>up_path_and_query = pq,
            up_authority = last_of None hosts, up_scheme = last_of None protos\<rparr> else None) in
     case hd_get H ''forwarded'' headers of
       Some forwarded \<Rightarrow> Option.bind (hd_to_str H forwarded) (\<lambda>text.
         let parts = split_on CHR '';'' text in seen (values_of ''host='' parts) (values_of ''proto='' parts))
     | None \<Rightarrow> Option.bind (Option.bind (hd_get H ''host'' headers) (hd_to_str H)) (\<lambda>host. seen [host] [''http'']))"

lemma fix_request_seen:
  "fix_request H V pq headers = Inr uri \<longleftrightarrow> (\<exists>u. uri_seen H V pq headers = Some u \<and> ur_from_parts V u = Inr uri)"
proof (cases "hd_get H ''forwarded'' headers")
  case (Some forwarded)
  then show ?thesis
    by (cases "hd_to_str H forwarded") (auto simp: fix_request_def uri_seen_def res_bind_Inr_iff forwarded_tuples Let_def)
next
  case None
  show ?thesis
  proof (cases "Option.bind (hd_get H ''host'' headers) (hd_to_str H)")
    case none: None
    with None show ?thesis
      by (cases "hd_get H ''host'' headers") (simp_all add: fix_request_def uri_seen_def)
  next
    case (Some h)
    then obtain host where "hd_get H ''host'' headers = Some host" "hd_to_str H host = Some h"
      by (auto simp: bind_eq_Some_conv)
    with None show ?thesis
      by (cases "ur_authority V h"; cases "ur_scheme V ''http''")
        (auto simp: fix_request_def uri_seen_def set_authority_def set_scheme_def)
  qed
qed

lemma handler_handle_seen:
  "handler_handle H V guest pq headers body = Inr r \<longleftrightarrow>
    (\<exists>u uri. uri_seen H V pq headers = Some u \<and> ur_from_parts V u = Inr uri \<and> guest uri headers body = Inr r)"
  by (auto simp: handler_handle_def res_bind_Inr_iff fix_request_seen)

lemma send_request_steps:
  assumes "send_request H W req = Inr r"
  obtains body identity headers client resp where
    "oq_body req = Inr body" "client_cert H W (oq_headers req) = Inr (identity, headers)"
    "rw_build W identity (hd_remove H ''host'' headers) = Inr client"
    "rw_send W client (oq_method req) (oq_uri req) body = Inr resp"
    "r = resp\<lparr>rs_headers := strip_forbidden H (rs_headers resp)\<rparr>"
  using assms by (auto simp: send_request_def res_bind_Inr_iff Let_def)

text \<open>What is sent and what comes back.\<close>

lemma sent_headers:
  assumes "header_laws H" and "send_request H W req = Inr r"
  shows "\<exists>identity headers client body resp.
    oq_body req = Inr body \<and> rw_build W identity headers = Inr client \<and>
    rw_send W client (oq_method req) (oq_uri req) body = Inr resp \<and>
    hd_get H ''host'' headers = None \<and> hd_get H ''client-cert'' headers = None \<and>
    (\<forall>n. n \<notin> {''host'', ''client-cert''} \<longrightarrow> hd_get H n headers = hd_get H n (oq_headers req)) \<and>
    (case hd_get H ''client-cert'' (oq_headers req) of
       None \<Rightarrow> identity = None
     | Some cert \<Rightarrow> \<exists>pem id. rw_decode W cert = Inr pem \<and> rw_identity W pem = Inr id \<and> identity = Some id) \<and>
    rs_status r = rs_status resp \<and> rs_body r = rs_body resp \<and>
    (\<forall>n. hd_get H n (rs_headers r) =
       (if n \<in> set forbidden_headers then None else hd_get H n (rs_headers resp)))"
proof -
  obtain body identity headers client resp where steps:
    "oq_body req = Inr body" "client_cert H W (oq_headers req) = Inr (identity, headers)"
    "rw_build W identity (hd_remove H ''host'' headers) = Inr client"
    "rw_send W client (oq_method req) (oq_uri req) body = Inr resp"
    "r = resp\<lparr>rs_headers := strip_forbidden H (rs_headers resp)\<rparr>"
    using send_request_steps [OF assms(2)] .
  let ?h = "hd_remove H ''host'' headers"
  have cert: "hd_get H n headers = (if n = ''client-cert'' then None else hd_get H n (oq_headers req))" for n
    using steps(2) by (auto simp: client_cert_def res_bind_Inr_iff header_remove_get [OF assms(1)]
        split: option.splits)
  have ident: "case hd_get H ''client-cert'' (oq_headers req) of
       None \<Rightarrow> identity = None
     | Some cert \<Rightarrow> \<exists>pem id. rw_decode W cert = Inr pem \<and> rw_identity W pem = Inr id \<and> identity = Some id"
    using steps(2) by (auto simp: client_cert_def res_bind_Inr_iff dest!: header_text(1) [OF assms(1)]
        split: option.splits)
  show ?thesis
    by (rule exI [of _ identity], rule exI [of _ ?h], rule exI [of _ client], rule exI [of _ body],
        rule exI [of _ resp])
      (use ident in \<open>simp add: steps(1,3,4,5) header_remove_get [OF assms(1)] cert strip_forbidden_get [OF assms(1)]\<close>)
qed

section \<open>Properties\<close>

text \<open>
  C19: Forwarding a request.  When \<open>send_request\<close> succeeds, the client was built without the
  \<open>Host\<close> and \<open>Client-Cert\<close> headers and with every other header of the guest, with a client
  identity exactly when the guest sent a \<open>Client-Cert\<close> (base64 of a PEM); the response has the
  status and body that came back, none of the forbidden headers and every other one.
\<close>

theorem send_request_headers:
  assumes "header_laws H" and "send_request H W req = Inr r"
  shows "\<exists>identity headers client body resp.
    oq_body req = Inr body \<and> rw_build W identity headers = Inr client \<and>
    rw_send W client (oq_method req) (oq_uri req) body = Inr resp \<and>
    hd_get H ''host'' headers = None \<and> hd_get H ''client-cert'' headers = None \<and>
    (\<forall>n. n \<notin> {''host'', ''client-cert''} \<longrightarrow> hd_get H n headers = hd_get H n (oq_headers req)) \<and>
    (case hd_get H ''client-cert'' (oq_headers req) of
       None \<Rightarrow> identity = None
     | Some cert \<Rightarrow> \<exists>pem id. rw_decode W cert = Inr pem \<and> rw_identity W pem = Inr id \<and> identity = Some id) \<and>
    rs_status r = rs_status resp \<and> rs_body r = rs_body resp \<and>
    (\<forall>n. hd_get H n (rs_headers r) =
       (if n \<in> set forbidden_headers then None else hd_get H n (rs_headers resp)))"
  using assms by (rule sent_headers)

definition demo_reqwest :: "((string \<times> string) list, bytes, bytes option) reqwest_ops" where
  "demo_reqwest = \<lparr>rw_decode = (\<lambda>s. if s = ''cGVt'' then Inr [112, 101, 109] else Inl ''invalid''),
     rw_identity = Inr, rw_build = (\<lambda>id h. Inr id),
     rw_send = (\<lambda>c m u b. Inr \<lparr>rs_status = 200, rs_headers = [(''upgrade'', ''x''), (''x-safe'', ''y'')], rs_body = b\<rparr>)\<rparr>"

theorem send_request_headers_witness:
  "let req = \<lparr>oq_method = ''GET'', oq_uri = ''http://a/'',
         oq_headers = [(''client-cert'', ''cGVt''), (''host'', ''a'')], oq_body = Inr [1]\<rparr>;
       r = \<lparr>rs_status = 200, rs_headers = [(''x-safe'', ''y'')], rs_body = [1]\<rparr>
   in send_request alist_headers demo_reqwest req = Inr r \<and>
      (\<exists>identity headers client. rw_build demo_reqwest identity headers = Inr client \<and>
        hd_get alist_headers ''client-cert'' headers = None)"
proof -
  let ?req = "\<lparr>oq_method = ''GET'', oq_uri = ''http://a/'',
      oq_headers = [(''client-cert'', ''cGVt''), (''host'', ''a'')], oq_body = Inr [1]\<rparr>"
  let ?r = "\<lparr>rs_status = 200, rs_headers = [(''x-safe'', ''y'')], rs_body = [1]\<rparr>"
  have run: "send_request alist_headers demo_reqwest ?req = Inr ?r"
    by code_simp
  show ?thesis unfolding Let_def
    using run send_request_headers [OF alist_header_laws run] by (elim exE conjE) (intro conjI exI)
qed

text \<open>
  C36: The uri the guest sees.  Behind a proxy, authority and scheme are those of the last
  \<open>host=\<close> and \<open>proto=\<close> tuple of the \<open>Forwarded\<close> header, absent when there is none, whatever the
  \<open>Host\<close> header says; otherwise they are the \<open>Host\<close> header and \<open>http\<close>.  A request with neither
  header, with one that is not text, or with a value that is no authority or scheme, also one that
  a later tuple would replace, is refused, and any refusal or guest failure is answered with the
  fixed error page of status 500.
\<close>

theorem serve_request_spec:
  "serve_request H page m0 V guest p_and_q headers body =
    (case uri_seen H V p_and_q headers of
       None \<Rightarrow> error_page H page m0
     | Some u \<Rightarrow> (case ur_from_parts V u of
           Inl e \<Rightarrow> error_page H page m0
         | Inr uri \<Rightarrow> (case guest uri headers body of Inl e \<Rightarrow> error_page H page m0 | Inr r \<Rightarrow> r)))"
proof (cases "handler_handle H V guest p_and_q headers body")
  case (Inl e)
  then have "\<not> (\<exists>u uri r. uri_seen H V p_and_q headers = Some u \<and> ur_from_parts V u = Inr uri \<and> guest uri headers body = Inr r)"
    using handler_handle_seen [of H V guest p_and_q headers body] by force
  with Inl show ?thesis by (auto simp: serve_request_def split: option.splits sum.splits)
next
  case (Inr r)
  then obtain u uri where "uri_seen H V p_and_q headers = Some u" "ur_from_parts V u = Inr uri" "guest uri headers body = Inr r"
    using handler_handle_seen [of H V guest p_and_q headers body r] by blast
  with Inr show ?thesis by (simp add: serve_request_def)
qed

text \<open>The loop serves what was accepted before the first failure and returns that error.\<close>

lemma accept_loop_stops:
  "accept_loop (map Accepted cs @ AcceptFailed e # rest) = (cs, Some e) \<and>
   accept_loop (map Accepted cs @ NodelayFailed c e # rest) = (cs, Some e)"
  by (induction cs) auto

end
