(* ===== verification/Vault.thy ===== *)
theory Vault
  imports KeyedStore ResourceTable
begin

text \<open>
  wasi-vault: the in-memory backend \<open>VaultDefault\<close> (\<open>src/host/default_impl.rs\<close>) and the handlers
  of the \<open>vault\<close> interface (\<open>src/host/vault_impl.rs\<close>).  A locker is another provider of the keyed
  store contract; its handlers differ from the key-value ones in how they report a bad handle.
\<close>

section \<open>The in-memory backend\<close>

type_synonym vault_store = "(string, (string, bytes) hashmap) hashmap"

record in_memory_locker =
  lk_identifier :: string

definition vault_connect_with :: vault_store where
  "vault_connect_with = []"

definition open_locker :: "string \<Rightarrow> (vault_store, anyhow, in_memory_locker) op" where
  "open_locker identifier store =
     (let locker = \<lparr>lk_identifier = identifier\<rparr>
      in (Inr locker, hm_entry_or identifier [] store))"

definition locker_get :: "in_memory_locker \<Rightarrow> string \<Rightarrow> (vault_store, anyhow, bytes option) op" where
  "locker_get l secret_id store =
     (Inr (Option.bind (hm_get store (lk_identifier l)) (\<lambda>locker. hm_get locker secret_id)), store)"

definition locker_set :: "in_memory_locker \<Rightarrow> string \<Rightarrow> bytes \<Rightarrow> (vault_store, anyhow, unit) op" where
  "locker_set l secret_id val store =
     (Inr (), hm_entry_update (lk_identifier l) [] (hm_insert secret_id val) store)"

definition locker_delete :: "in_memory_locker \<Rightarrow> string \<Rightarrow> (vault_store, anyhow, unit) op" where
  "locker_delete l secret_id store =
     (Inr (), case hm_get store (lk_identifier l) of
        Some locker \<Rightarrow> hm_insert (lk_identifier l) (hm_remove secret_id locker) store
      | None \<Rightarrow> store)"

definition locker_exists :: "in_memory_locker \<Rightarrow> string \<Rightarrow> (vault_store, anyhow, bool) op" where
  "locker_exists l secret_id store =
     (Inr (case hm_get store (lk_identifier l) of
         Some locker \<Rightarrow> hm_contains locker secret_id | None \<Rightarrow> False), store)"

definition locker_list_ids :: "in_memory_locker \<Rightarrow> (vault_store, anyhow, string list) op" where
  "locker_list_ids l store =
     (Inr (case hm_get store (lk_identifier l) of
         Some locker \<Rightarrow> hm_keys locker | None \<Rightarrow> []), store)"

definition locker_ops :: "(in_memory_locker, vault_store) store_ops" where
  "locker_ops = \<lparr>so_get = locker_get, so_set = locker_set, so_delete = locker_delete,
     so_exists = locker_exists, so_keys = locker_list_ids\<rparr>"

definition vault_view :: "vault_store \<Rightarrow> string spec_state" where
  "vault_view store name key = Option.bind (hm_get store name) (\<lambda>locker. hm_get locker key)"

definition vault_wf :: "vault_store \<Rightarrow> bool" where
  "vault_wf store \<longleftrightarrow> hm_wf store \<and> (\<forall>locker \<in> ran (hm_get store). hm_wf locker)"

lemma vault_set_ok:
  "vault_wf s \<Longrightarrow> vault_wf (hm_entry_update n [] (hm_insert k x) s)"
  "vault_view (hm_entry_update n [] (hm_insert k x) s) = (vault_view s)(n := (vault_view s n)(k \<mapsto> x))"
  by (auto simp: vault_wf_def ran_def vault_view_def fun_eq_iff split: option.splits if_splits)

interpretation vault: keyed_store locker_ops lk_identifier vault_view vault_wf
proof
  fix l k x and w :: vault_store
  assume wf: "vault_wf w"
  show "so_get locker_ops l k w = (Inr (vault_view w (lk_identifier l) k), w)"
    by (simp add: locker_ops_def locker_get_def vault_view_def)
  show "so_exists locker_ops l k w = (Inr (vault_view w (lk_identifier l) k \<noteq> None), w)"
    by (simp add: locker_ops_def locker_exists_def vault_view_def hm_contains_def split: option.splits)
  show "\<exists>ks. so_keys locker_ops l w = (Inr ks, w) \<and> distinct ks \<and>
      set ks = dom (vault_view w (lk_identifier l))"
    using wf by (auto simp: locker_ops_def locker_list_ids_def vault_view_def vault_wf_def ranI dom_def
        split: option.splits)
  show "\<exists>w'. so_set locker_ops l k x w = (Inr (), w') \<and> vault_wf w' \<and>
      vault_view w' = (vault_view w)(lk_identifier l := (vault_view w (lk_identifier l))(k \<mapsto> x))"
    using wf by (simp add: locker_ops_def locker_set_def vault_set_ok)
  show "\<exists>w'. so_delete locker_ops l k w = (Inr (), w') \<and> vault_wf w' \<and>
      vault_view w' = (vault_view w)(lk_identifier l := (vault_view w (lk_identifier l))(k := None))"
    using wf by (auto simp: locker_ops_def locker_delete_def vault_wf_def vault_view_def ran_def fun_eq_iff
        split: option.splits if_splits)
qed

section \<open>The handlers\<close>

datatype vault_error = VaultNoSuchStore | VaultAccessDenied | VaultOther cause

datatype 'b locker_entry = ELocker 'b | ENotLocker

fun as_locker :: "'b locker_entry \<Rightarrow> 'b option" where
  "as_locker (ELocker l) = Some l"
| "as_locker ENotLocker = None"

definition vault_from_anyhow :: "anyhow \<Rightarrow> vault_error" where
  "vault_from_anyhow err = VaultOther (Of_anyhow err)"

definition vault_from_table :: "table_error \<Rightarrow> vault_error" where
  "vault_from_table err = VaultOther (Of_table err)"

definition get_locker ::
  "('t, 'b locker_entry) table_ops \<Rightarrow> nat \<Rightarrow> (('w, 't) ctx_view, vault_error, 'b) op" where
  "get_locker T self = op_map_err vault_from_table (get_entry T as_locker self)"

definition locker_call :: "string \<Rightarrow> ('w, anyhow, 'a) op \<Rightarrow> (('w, 't) ctx_view, vault_error, 'a) op" where
  "locker_call msg m = op_map_err (\<lambda>e. vault_from_anyhow (Context msg e)) (on_ctx m)"

definition vault_open ::
  "('t, 'b locker_entry) table_ops \<Rightarrow> (string \<Rightarrow> ('w, anyhow, 'b) op) \<Rightarrow> string
    \<Rightarrow> (('w, 't) ctx_view, vault_error, nat) op" where
  "vault_open T opn locker_id =
     op_bind (op_map_err vault_from_anyhow (on_ctx (opn locker_id))) (\<lambda>locker.
     op_map_err vault_from_table (push_entry T (ELocker locker)))"

definition vault_get ::
  "('t, 'b locker_entry) table_ops \<Rightarrow> ('b, 'w) store_ops \<Rightarrow> nat \<Rightarrow> string
    \<Rightarrow> (('w, 't) ctx_view, vault_error, bytes option) op" where
  "vault_get T ops self secret_id =
     op_bind (get_locker T self) (\<lambda>locker. locker_call ''issue getting value'' (so_get ops locker secret_id))"

definition vault_set ::
  "('t, 'b locker_entry) table_ops \<Rightarrow> ('b, 'w) store_ops \<Rightarrow> nat \<Rightarrow> string \<Rightarrow> bytes
    \<Rightarrow> (('w, 't) ctx_view, vault_error, unit) op" where
  "vault_set T ops self secret_id val =
     op_bind (get_locker T self) (\<lambda>locker. locker_call ''issue setting value'' (so_set ops locker secret_id val))"

definition vault_delete ::
  "('t, 'b locker_entry) table_ops \<Rightarrow> ('b, 'w) store_ops \<Rightarrow> nat \<Rightarrow> string
    \<Rightarrow> (('w, 't) ctx_view, vault_error, unit) op" where
  "vault_delete T ops self secret_id =
     op_bind (get_locker T self) (\<lambda>locker. locker_call ''issue deleting value'' (so_delete ops locker secret_id))"

definition vault_exists ::
  "('t, 'b locker_entry) table_ops \<Rightarrow> ('b, 'w) store_ops \<Rightarrow> nat \<Rightarrow> string
    \<Rightarrow> (('w, 't) ctx_view, vault_error, bool) op" where
  "vault_exists T ops self secret_id =
     op_bind (get_locker T self) (\<lambda>locker.
     op_bind (locker_call ''issue getting value'' (so_get ops locker secret_id)) (\<lambda>val.
     op_return (val \<noteq> None)))"

definition vault_list_ids ::
  "('t, 'b locker_entry) table_ops \<Rightarrow> ('b, 'w) store_ops \<Rightarrow> nat
    \<Rightarrow> (('w, 't) ctx_view, vault_error, string list) op" where
  "vault_list_ids T ops self =
     op_bind (get_locker T self) (\<lambda>locker. locker_call ''issue getting value'' (so_keys ops locker))"

definition vault_drop :: "('t, 'b locker_entry) table_ops \<Rightarrow> nat \<Rightarrow> (('w, 't) ctx_view, cause, unit) op" where
  "vault_drop T rep = op_map_err Of_table (delete_entry T rep)"

text \<open>A guest's call through a handle.\<close>

fun vault_step ::
  "('t, 'b locker_entry) table_ops \<Rightarrow> ('b, 'w) store_ops \<Rightarrow> nat \<Rightarrow> store_cmd
    \<Rightarrow> (('w, 't) ctx_view, vault_error, store_out) op" where
  "vault_step T ops h (CGet k) = op_bind (vault_get T ops h k) (\<lambda>x. op_return (OValue x))"
| "vault_step T ops h (CSet k x) = op_bind (vault_set T ops h k x) (\<lambda>_. op_return OUnit)"
| "vault_step T ops h (CDelete k) = op_bind (vault_delete T ops h k) (\<lambda>_. op_return OUnit)"
| "vault_step T ops h (CExists k) = op_bind (vault_exists T ops h k) (\<lambda>x. op_return (OBool x))"
| "vault_step T ops h CKeys = op_bind (vault_list_ids T ops h) (\<lambda>ks. op_return (OKeys ks))"

fun vault_run ::
  "('t, 'b locker_entry) table_ops \<Rightarrow> ('b, 'w) store_ops \<Rightarrow> (nat \<times> store_cmd) list
    \<Rightarrow> ('w, 't) ctx_view \<Rightarrow> (vault_error + store_out) list \<times> ('w, 't) ctx_view" where
  "vault_run T ops [] v = ([], v)"
| "vault_run T ops ((h, c) # cs) v =
     (case vault_step T ops h c v of (r, v1) \<Rightarrow>
      case vault_run T ops cs v1 of (rs, v2) \<Rightarrow> (r # rs, v2))"

section \<open>Specification and refinement\<close>

definition locker_of ::
  "('t, 'b locker_entry) table_ops \<Rightarrow> 't \<Rightarrow> nat \<Rightarrow> table_error + 'b" where
  "locker_of T t h = res_bind (t_get T h t) (\<lambda>e. ok_or WrongType (as_locker e))"

definition locker_ident ::
  "('t, 'b locker_entry) table_ops \<Rightarrow> ('b \<Rightarrow> 'i) \<Rightarrow> 't \<Rightarrow> nat \<Rightarrow> table_error + 'i" where
  "locker_ident T ident t h = res_bind (locker_of T t h) (\<lambda>b. Inr (ident b))"

text \<open>Each result is the specified one for the locker the handle names, or the table's error.\<close>

fun vault_conforms ::
  "(nat \<Rightarrow> table_error + 'i) \<Rightarrow> (nat \<times> store_cmd) list \<Rightarrow> 'i spec_state \<Rightarrow> (vault_error + store_out) list
    \<Rightarrow> 'i spec_state \<Rightarrow> bool" where
  "vault_conforms L [] m rs m' = (rs = [] \<and> m' = m)"
| "vault_conforms L ((h, c) # cs) m [] m' = False"
| "vault_conforms L ((h, c) # cs) m (r # rs) m' =
     (case L h of
        Inl e \<Rightarrow> r = Inl (vault_from_table e) \<and> vault_conforms L cs m rs m'
      | Inr i \<Rightarrow> (case r of Inl _ \<Rightarrow> False
          | Inr out \<Rightarrow> out_matches out (fst (spec_cmd i c m)) \<and>
              vault_conforms L cs (snd (spec_cmd i c m)) rs m'))"

lemma get_locker_run: "get_locker T h v = (res_map_err vault_from_table (locker_of T (cv_table v) h), v)"
  by (auto simp: get_locker_def get_entry_def locker_of_def op_map_err_def
      split: sum.splits option.splits)

lemma vault_step_bad:
  "locker_of T (cv_table v) h = Inl e \<Longrightarrow> vault_step T ops h c v = (Inl (vault_from_table e), v)"
  by (cases c) (simp_all add: vault_get_def vault_set_def vault_delete_def vault_exists_def
      vault_list_ids_def get_locker_run)

lemma locker_ident_at:
  "locker_of T t h = Inl e \<Longrightarrow> locker_ident T ident t h = Inl e"
  "locker_of T t h = Inr b \<Longrightarrow> locker_ident T ident t h = Inr (ident b)"
  by (simp_all add: locker_ident_def)

context keyed_store
begin

lemma vault_step_ok:
  assumes "wf (cv_ctx v)" and "locker_of T (cv_table v) h = Inr b"
  shows "\<exists>out w. vault_step T ops h c v = (Inr out, v\<lparr>cv_ctx := w\<rparr>) \<and> wf w \<and>
    out_matches out (fst (spec_cmd (ident b) c (view (cv_ctx v)))) \<and>
    view w = snd (spec_cmd (ident b) c (view (cv_ctx v)))"
proof -
  note simps = vault_get_def vault_set_def vault_delete_def vault_exists_def vault_list_ids_def
    get_locker_run locker_call_def assms(2)
  show ?thesis
  proof (cases c)
    case (CGet k)
    then show ?thesis using get_ok [OF assms(1), of b k] assms(1)
      by (auto simp: simps intro!: exI [of _ "cv_ctx v"])
  next
    case (CSet k x)
    then show ?thesis using set_ok [OF assms(1), of b k x] by (auto simp: simps)
  next
    case (CDelete k)
    then show ?thesis using delete_ok [OF assms(1), of b k] by (auto simp: simps)
  next
    case (CExists k)
    then show ?thesis using get_ok [OF assms(1), of b k] assms(1)
      by (auto simp: simps intro!: exI [of _ "cv_ctx v"])
  next
    case CKeys
    then show ?thesis using keys_ok [OF assms(1), of b] assms(1)
      by (auto simp: simps intro!: exI [of _ "cv_ctx v"])
  qed
qed

lemma vault_run_conforms:
  assumes "wf (cv_ctx v)"
  shows "\<exists>rs w. vault_run T ops cs v = (rs, v\<lparr>cv_ctx := w\<rparr>) \<and> wf w \<and>
    vault_conforms (locker_ident T ident (cv_table v)) cs (view (cv_ctx v)) rs (view w)"
  using assms
proof (induction cs arbitrary: v)
  case Nil
  then show ?case by (auto intro!: exI [of _ "cv_ctx v"])
next
  case (Cons hc cs)
  obtain h c where hc: "hc = (h, c)" by (cases hc)
  show ?case
  proof (cases "locker_of T (cv_table v) h")
    case (Inl e)
    obtain rs w where "vault_run T ops cs v = (rs, v\<lparr>cv_ctx := w\<rparr>)" "wf w"
        "vault_conforms (locker_ident T ident (cv_table v)) cs (view (cv_ctx v)) rs (view w)"
      using Cons by blast
    then show ?thesis
      by (intro exI [of _ "Inl (vault_from_table e) # rs"] exI [of _ w]) (simp add: hc Inl vault_step_bad locker_ident_at)
  next
    case (Inr b)
    obtain out w1 where 1: "vault_step T ops h c v = (Inr out, v\<lparr>cv_ctx := w1\<rparr>)" "wf w1"
        "out_matches out (fst (spec_cmd (ident b) c (view (cv_ctx v))))"
        "view w1 = snd (spec_cmd (ident b) c (view (cv_ctx v)))"
      using vault_step_ok [OF Cons.prems(1) Inr] by blast
    obtain rs w where "vault_run T ops cs (v\<lparr>cv_ctx := w1\<rparr>) = (rs, v\<lparr>cv_ctx := w\<rparr>)" "wf w"
        "vault_conforms (locker_ident T ident (cv_table v)) cs (view w1) rs (view w)"
      using Cons.IH [of "v\<lparr>cv_ctx := w1\<rparr>"] 1(2) by auto
    with 1 show ?thesis
      by (intro exI [of _ "Inr out # rs"] exI [of _ w]) (simp add: hc Inr locker_ident_at)
  qed
qed

end

section \<open>Properties\<close>

text \<open>
  C14: Refinement of the vault.  Any sequence of guest calls on lockers, through any mixture of
  valid and bad handles, returns what the partial map of the locker behind the handle says (ids
  listed once each, in some order), reports the table's own error for a bad handle without
  changing anything, and keeps the store's invariant and the resource table.
\<close>

theorem vault_refines:
  assumes "vault_wf (cv_ctx v)"
  shows "\<exists>rs w. vault_run T locker_ops cs v = (rs, v\<lparr>cv_ctx := w\<rparr>) \<and> vault_wf w \<and>
    vault_conforms (locker_ident T lk_identifier (cv_table v)) cs
      (vault_view (cv_ctx v)) rs (vault_view w)"
  using assms by (rule vault.vault_run_conforms)

theorem vault_refines_witness:
  "let v = \<lparr>cv_ctx = vault_connect_with, cv_table = [Some (ELocker \<lparr>lk_identifier = ''a''\<rparr>), Some ENotLocker]\<rparr>;
       cs = [(0, CSet ''k'' [1]), (0, CGet ''k''), (1, CKeys), (7, CDelete ''k'')]
   in vault_wf (cv_ctx v) \<and> (\<exists>rs w. vault_run slot_table locker_ops cs v = (rs, v\<lparr>cv_ctx := w\<rparr>) \<and> vault_wf w \<and>
        vault_conforms (locker_ident slot_table lk_identifier (cv_table v)) cs
          (vault_view (cv_ctx v)) rs (vault_view w))"
  unfolding Let_def
  by (intro conjI vault_refines) (simp_all add: vault_connect_with_def vault_wf_def)

end
