(* ===== verification/Blobstore.thy ===== *)
theory Blobstore
  imports KeyedStore ResourceTable
begin

text \<open>
  wasi-blobstore: the in-memory backend \<open>BlobstoreDefault\<close> (\<open>src/host/default_impl.rs\<close>) and the
  handlers of the \<open>blobstore\<close>, \<open>container\<close> and \<open>types\<close> interfaces (\<open>src/host/blobstore_impl.rs\<close>,
  \<open>container_impl.rs\<close>, \<open>types_impl.rs\<close>).

  A container holds its objects behind an \<open>Arc\<close>, so clones of a container share them.  The state
  has an explicit heap of object maps; a container refers to its own by address.  Instants are
  integers, nanoseconds since the epoch, and \<open>SystemTime::now()\<close> is an argument.  The contents of
  a \<open>MemoryOutputPipe\<close> are written by wasmtime's streams; the state records them per pipe.
\<close>

section \<open>The in-memory backend\<close>

record in_mem_container =
  ic_name :: string
  ic_objects :: nat       \<comment> \<open>address in the heap\<close>
  ic_created_at :: int

record blob_world =
  bw_store :: "(string, in_mem_container) hashmap"
  bw_heap :: "nat \<Rightarrow> (string, bytes) hashmap"
  bw_next :: nat          \<comment> \<open>the next unused address\<close>
  bw_pipes :: "nat \<Rightarrow> bytes"
  bw_next_pipe :: nat

definition blob_connect_with :: blob_world where
  "blob_connect_with = \<lparr>bw_store = [], bw_heap = (\<lambda>_. []), bw_next = 0, bw_pipes = (\<lambda>_. []), bw_next_pipe = 0\<rparr>"

text \<open>\<open>duration_since(UNIX_EPOCH).unwrap_or_default().as_secs()\<close>\<close>

definition epoch_secs :: "int \<Rightarrow> u64" where
  "epoch_secs t = (if t < 0 then 0 else of_int (t div 10 ^ 9))"

definition new_container :: "string \<Rightarrow> int \<Rightarrow> blob_world \<Rightarrow> in_mem_container \<times> blob_world" where
  "new_container name now w =
     (\<lparr>ic_name = name, ic_objects = bw_next w, ic_created_at = now\<rparr>,
      w\<lparr>bw_heap := (bw_heap w)(bw_next w := []), bw_next := bw_next w + 1\<rparr>)"

definition create_container :: "string \<Rightarrow> int \<Rightarrow> (blob_world, anyhow, in_mem_container) op" where
  "create_container name now w =
     (case new_container name now w of
        (container, w1) \<Rightarrow> (Inr container, w1\<lparr>bw_store := hm_insert name container (bw_store w1)\<rparr>))"

definition get_container :: "string \<Rightarrow> (blob_world, anyhow, in_mem_container) op" where
  "get_container name w =
     (ok_or (Anyhow (''container not found: '' @ name)) (hm_get (bw_store w) name), w)"

definition delete_container :: "string \<Rightarrow> (blob_world, anyhow, unit) op" where
  "delete_container name w = (Inr (), w\<lparr>bw_store := hm_remove name (bw_store w)\<rparr>)"

definition container_exists :: "string \<Rightarrow> (blob_world, anyhow, bool) op" where
  "container_exists name w = (Inr (hm_contains (bw_store w) name), w)"

record container_metadata =
  cm_name :: string
  cm_created_at :: u64

record object_metadata =
  om_name :: string
  om_container :: string
  om_created_at :: u64
  om_size :: u64

definition container_name :: "in_mem_container \<Rightarrow> anyhow + string" where
  "container_name c = Inr (ic_name c)"

definition container_info :: "in_mem_container \<Rightarrow> anyhow + container_metadata" where
  "container_info c = Inr \<lparr>cm_name = ic_name c, cm_created_at = epoch_secs (ic_created_at c)\<rparr>"

definition get_data :: "in_mem_container \<Rightarrow> string \<Rightarrow> u64 \<Rightarrow> u64 \<Rightarrow> (blob_world, anyhow, bytes option) op" where
  "get_data c name start stop w = (Inr (hm_get (bw_heap w (ic_objects c)) name), w)"

definition write_data :: "in_mem_container \<Rightarrow> string \<Rightarrow> bytes \<Rightarrow> (blob_world, anyhow, unit) op" where
  "write_data c name data w = (Inr (), w\<lparr>bw_heap := (bw_heap w)
     (ic_objects c := hm_insert name data (bw_heap w (ic_objects c)))\<rparr>)"

definition list_objects :: "in_mem_container \<Rightarrow> (blob_world, anyhow, string list) op" where
  "list_objects c w = (Inr (hm_keys (bw_heap w (ic_objects c))), w)"

definition delete_object :: "in_mem_container \<Rightarrow> string \<Rightarrow> (blob_world, anyhow, unit) op" where
  "delete_object c name w = (Inr (), w\<lparr>bw_heap := (bw_heap w)
     (ic_objects c := hm_remove name (bw_heap w (ic_objects c)))\<rparr>)"

definition has_object :: "in_mem_container \<Rightarrow> string \<Rightarrow> (blob_world, anyhow, bool) op" where
  "has_object c name w = (Inr (hm_contains (bw_heap w (ic_objects c)) name), w)"

definition object_info :: "in_mem_container \<Rightarrow> string \<Rightarrow> int \<Rightarrow> (blob_world, anyhow, object_metadata) op" where
  "object_info c name now w =
     (res_bind (ok_or (Anyhow (''object not found: '' @ name)) (hm_get (bw_heap w (ic_objects c)) name))
        (\<lambda>data. Inr \<lparr>om_name = name, om_container = ic_name c, om_created_at = epoch_secs now,
           om_size = of_nat (length data)\<rparr>), w)"

section \<open>Containers keep the store contract\<close>

definition container_ops :: "(in_mem_container, blob_world) store_ops" where
  "container_ops = \<lparr>so_get = (\<lambda>c k. get_data c k 0 0), so_set = write_data, so_delete = delete_object,
     so_exists = has_object, so_keys = list_objects\<rparr>"

definition blob_view :: "blob_world \<Rightarrow> nat spec_state" where
  "blob_view w a = hm_get (bw_heap w a)"

definition blob_wf :: "blob_world \<Rightarrow> bool" where
  "blob_wf w \<longleftrightarrow> (\<forall>a. hm_wf (bw_heap w a)) \<and> (\<forall>c \<in> ran (hm_get (bw_store w)). ic_objects c < bw_next w)"

interpretation blob: keyed_store container_ops ic_objects blob_view blob_wf
proof
  fix c k x and w :: blob_world
  assume wf: "blob_wf w"
  show "so_get container_ops c k w = (Inr (blob_view w (ic_objects c) k), w)"
    by (simp add: container_ops_def get_data_def blob_view_def)
  show "so_exists container_ops c k w = (Inr (blob_view w (ic_objects c) k \<noteq> None), w)"
    by (simp add: container_ops_def has_object_def blob_view_def hm_contains_def)
  show "\<exists>ks. so_keys container_ops c w = (Inr ks, w) \<and> distinct ks \<and> set ks = dom (blob_view w (ic_objects c))"
    using wf by (simp add: container_ops_def list_objects_def blob_view_def blob_wf_def)
  show "\<exists>w'. so_set container_ops c k x w = (Inr (), w') \<and> blob_wf w' \<and>
      blob_view w' = (blob_view w)(ic_objects c := (blob_view w (ic_objects c))(k \<mapsto> x))"
    using wf by (auto simp: container_ops_def write_data_def blob_view_def blob_wf_def fun_eq_iff)
  show "\<exists>w'. so_delete container_ops c k w = (Inr (), w') \<and> blob_wf w' \<and>
      blob_view w' = (blob_view w)(ic_objects c := (blob_view w (ic_objects c))(k := None))"
    using wf by (auto simp: container_ops_def delete_object_def blob_view_def blob_wf_def fun_eq_iff)
qed

section \<open>The handlers\<close>

datatype blob_entry =
    BContainer in_mem_container
  | BIncoming bytes
  | BOutgoing nat
  | BNames "string list"
  | BInput bytes
  | BOutput nat

fun as_container :: "blob_entry \<Rightarrow> in_mem_container option" where
  "as_container (BContainer c) = Some c"
| "as_container _ = None"

fun as_incoming :: "blob_entry \<Rightarrow> bytes option" where
  "as_incoming (BIncoming b) = Some b"
| "as_incoming _ = None"

fun as_outgoing :: "blob_entry \<Rightarrow> nat option" where
  "as_outgoing (BOutgoing p) = Some p"
| "as_outgoing _ = None"

type_synonym ('t, 'a) blob_handler = "((blob_world, 't) ctx_view, anyhow, 'a) op"

type_synonym 't blob_table = "('t, blob_entry) table_ops"

definition blob_push :: "'t blob_table \<Rightarrow> blob_entry \<Rightarrow> ('t, nat) blob_handler" where
  "blob_push T e = op_map_err table_anyhow (push_entry T e)"

definition find_container :: "'t blob_table \<Rightarrow> nat \<Rightarrow> ('t, in_mem_container) blob_handler" where
  "find_container T self = op_map_err (\<lambda>e. Context ''Container not found'' (table_anyhow e))
     (get_entry T as_container self)"

definition in_ctx :: "string \<Rightarrow> (blob_world, anyhow, 'a) op \<Rightarrow> ('t, 'a) blob_handler" where
  "in_ctx msg m = op_map_err (Context msg) (on_ctx m)"

definition blob_create_container :: "'t blob_table \<Rightarrow> string \<Rightarrow> int \<Rightarrow> ('t, nat) blob_handler" where
  "blob_create_container T name now =
     op_bind (on_ctx (create_container name now)) (\<lambda>c. blob_push T (BContainer c))"

definition blob_get_container :: "'t blob_table \<Rightarrow> string \<Rightarrow> ('t, nat) blob_handler" where
  "blob_get_container T name = op_bind (on_ctx (get_container name)) (\<lambda>c. blob_push T (BContainer c))"

definition blob_delete_container :: "string \<Rightarrow> ('t, unit) blob_handler" where
  "blob_delete_container name = on_ctx (delete_container name)"

definition blob_container_exists :: "string \<Rightarrow> ('t, bool) blob_handler" where
  "blob_container_exists name = on_ctx (container_exists name)"

definition blob_name :: "'t blob_table \<Rightarrow> nat \<Rightarrow> ('t, string) blob_handler" where
  "blob_name T self = op_bind (find_container T self) (\<lambda>c.
     op_lift (res_map_err (Context ''getting name'') (container_name c)))"

definition blob_info :: "'t blob_table \<Rightarrow> nat \<Rightarrow> ('t, container_metadata) blob_handler" where
  "blob_info T self = op_bind (find_container T self) (\<lambda>c.
     op_lift (res_map_err (Context ''getting info'') (container_info c)))"

definition blob_get_data :: "'t blob_table \<Rightarrow> nat \<Rightarrow> string \<Rightarrow> u64 \<Rightarrow> u64 \<Rightarrow> ('t, nat) blob_handler" where
  "blob_get_data T self name start stop =
     op_bind (find_container T self) (\<lambda>c.
     op_bind (in_ctx ''getting data'' (get_data c name start stop)) (\<lambda>data_opt.
     case data_opt of
       None \<Rightarrow> op_fail (Anyhow ''object not found'')
     | Some data \<Rightarrow> blob_push T (BIncoming data)))"

definition pipe_contents :: "nat \<Rightarrow> (blob_world, anyhow, bytes) op" where
  "pipe_contents p w = (Inr (bw_pipes w p), w)"

definition blob_write_data :: "'t blob_table \<Rightarrow> nat \<Rightarrow> string \<Rightarrow> nat \<Rightarrow> ('t, unit) blob_handler" where
  "blob_write_data T self name data =
     op_bind (op_map_err table_anyhow (get_entry T as_outgoing data)) (\<lambda>p.
     op_bind (on_ctx (pipe_contents p)) (\<lambda>bytes.
     op_bind (find_container T self) (\<lambda>c.
     in_ctx ''writing data'' (write_data c name bytes))))"

definition blob_list_objects :: "'t blob_table \<Rightarrow> nat \<Rightarrow> ('t, nat) blob_handler" where
  "blob_list_objects T self =
     op_bind (find_container T self) (\<lambda>c.
     op_bind (in_ctx ''listing objects'' (list_objects c)) (\<lambda>names. blob_push T (BNames names)))"

definition blob_delete_object :: "'t blob_table \<Rightarrow> nat \<Rightarrow> string \<Rightarrow> ('t, unit) blob_handler" where
  "blob_delete_object T self name =
     op_bind (find_container T self) (\<lambda>c. in_ctx ''deleting object'' (delete_object c name))"

definition blob_delete_objects :: "'t blob_table \<Rightarrow> nat \<Rightarrow> string list \<Rightarrow> ('t, unit) blob_handler" where
  "blob_delete_objects T self names =
     op_bind (find_container T self) (\<lambda>c. op_for (\<lambda>name. in_ctx ''deleting object'' (delete_object c name)) names)"

definition blob_has_object :: "'t blob_table \<Rightarrow> nat \<Rightarrow> string \<Rightarrow> ('t, bool) blob_handler" where
  "blob_has_object T self name =
     op_bind (find_container T self) (\<lambda>c. in_ctx ''checking object exists'' (has_object c name))"

definition blob_object_info :: "'t blob_table \<Rightarrow> nat \<Rightarrow> string \<Rightarrow> int \<Rightarrow> ('t, object_metadata) blob_handler" where
  "blob_object_info T self name now =
     op_bind (find_container T self) (\<lambda>c. in_ctx ''getting object info'' (object_info c name now))"

definition blob_clear :: "'t blob_table \<Rightarrow> nat \<Rightarrow> ('t, unit) blob_handler" where
  "blob_clear T self =
     op_bind (find_container T self) (\<lambda>c.
     op_bind (in_ctx ''listing objects'' (list_objects c)) (\<lambda>all_objects.
     op_for (\<lambda>name. in_ctx ''deleting object'' (delete_object c name)) all_objects))"

definition blob_drop :: "'t blob_table \<Rightarrow> nat \<Rightarrow> ('t, unit) blob_handler" where
  "blob_drop T rep = op_map_err table_anyhow (delete_entry T rep)"

text \<open>Incoming and outgoing values.\<close>

definition find_incoming :: "'t blob_table \<Rightarrow> nat \<Rightarrow> ('t, bytes) blob_handler" where
  "find_incoming T this = op_map_err (\<lambda>e. Context ''IncomingValue not found'' (table_anyhow e))
     (get_entry T as_incoming this)"

definition consume_sync :: "'t blob_table \<Rightarrow> nat \<Rightarrow> ('t, bytes) blob_handler" where
  "consume_sync T this = find_incoming T this"

definition consume_async :: "'t blob_table \<Rightarrow> nat \<Rightarrow> ('t, nat) blob_handler" where
  "consume_async T this = op_bind (find_incoming T this) (\<lambda>data. blob_push T (BInput data))"

definition incoming_size :: "'t blob_table \<Rightarrow> nat \<Rightarrow> ('t, u64) blob_handler" where
  "incoming_size T this = op_bind (find_incoming T this) (\<lambda>data. op_return (of_nat (length data)))"

definition new_pipe :: "(blob_world, anyhow, nat) op" where
  "new_pipe w = (Inr (bw_next_pipe w),
     w\<lparr>bw_pipes := (bw_pipes w)(bw_next_pipe w := []), bw_next_pipe := bw_next_pipe w + 1\<rparr>)"

definition new_outgoing_value :: "'t blob_table \<Rightarrow> ('t, nat) blob_handler" where
  "new_outgoing_value T = op_bind (on_ctx new_pipe) (\<lambda>p. blob_push T (BOutgoing p))"

definition outgoing_write_body :: "'t blob_table \<Rightarrow> nat \<Rightarrow> ('t, unit + nat) blob_handler" where
  "outgoing_write_body T self =
     op_bind (op_map_err (\<lambda>e. Context ''OutgoingValue not found'' (table_anyhow e))
         (get_entry T as_outgoing self)) (\<lambda>p.
     op_try (push_entry T (BOutput p)) (\<lambda>r. op_return (res_map_err (\<lambda>_. ()) r)))"

section \<open>Running the handlers\<close>

lemma find_container_ok:
  "t_get T h (cv_table v) = Inr (BContainer c) \<Longrightarrow> find_container T h v = (Inr c, v)"
  by (simp add: find_container_def get_entry_def)

lemma blob_push_Inr:
  "blob_push T e v = (Inr h, v') \<longleftrightarrow> (\<exists>t. t_push T e (cv_table v) = Inr (h, t) \<and> v' = v\<lparr>cv_table := t\<rparr>)"
  by (simp add: blob_push_def push_entry_Inr)

lemma blob_write_run:
  assumes "t_get T h (cv_table v) = Inr (BContainer c)" and "t_get T d (cv_table v) = Inr (BOutgoing p)"
  shows "blob_write_data T h name d v =
    (Inr (), v\<lparr>cv_ctx := snd (write_data c name (bw_pipes (cv_ctx v) p) (cv_ctx v))\<rparr>)"
  by (simp add: blob_write_data_def get_entry_def assms pipe_contents_def find_container_ok in_ctx_def
      write_data_def)

lemma clear_loop:
  assumes "blob_wf (cv_ctx v)"
  shows "\<exists>w. op_for (\<lambda>name. in_ctx msg (delete_object c name)) names v = (Inr (), v\<lparr>cv_ctx := w\<rparr>) \<and>
    blob_wf w \<and> blob_view w = (blob_view (cv_ctx v))
      (ic_objects c := (\<lambda>k. if k \<in> set names then None else blob_view (cv_ctx v) (ic_objects c) k))"
proof -
  obtain w where w: "op_for (delete_object c) names (cv_ctx v) = (Inr (), w)" "blob_wf w"
      "blob_view w = (blob_view (cv_ctx v))
        (ic_objects c := (\<lambda>k. if k \<in> set names then None else blob_view (cv_ctx v) (ic_objects c) k))"
    using blob.delete_loop [OF assms, of c names] by (auto simp: container_ops_def)
  have "op_for (\<lambda>name. in_ctx msg (delete_object c name)) names v = (Inr (), v\<lparr>cv_ctx := w\<rparr>)"
    by (rule op_for_on_ctx [OF _ w(1)]) (simp add: in_ctx_def)
  with w(2,3) show ?thesis by blast
qed

section \<open>Properties\<close>

text \<open>
  C16: Writing and reading an object.  After an outgoing value is written to an object, reading
  the object through any handle on the same objects yields an incoming value with exactly the
  bytes written, whatever range is asked for: the inclusive range that the interface documents
  is ignored.
\<close>

theorem blob_write_read:
  assumes "table_laws T"
    and "t_get T h (cv_table v) = Inr (BContainer c)" and "t_get T d (cv_table v) = Inr (BOutgoing p)"
    and "t_get T h' (cv_table v) = Inr (BContainer c')" and "ic_objects c' = ic_objects c"
    and "blob_write_data T h name d v = (Inr (), v1)"
    and "blob_get_data T h' name start stop v1 = (Inr i, v2)"
  shows "consume_sync T i v2 = (Inr (bw_pipes (cv_ctx v) p), v2) \<and>
    incoming_size T i v2 = (Inr (of_nat (length (bw_pipes (cv_ctx v) p))), v2)"
proof -
  let ?data = "bw_pipes (cv_ctx v) p"
  have v1: "v1 = v\<lparr>cv_ctx := snd (write_data c name ?data (cv_ctx v))\<rparr>"
    using assms(6) blob_write_run [OF assms(2,3)] by simp
  have "get_data c' name start stop (cv_ctx v1) = (Inr (Some ?data), cv_ctx v1)"
    by (simp add: get_data_def v1 write_data_def assms(5))
  then obtain t where t: "t_push T (BIncoming ?data) (cv_table v1) = Inr (i, t)" "v2 = v1\<lparr>cv_table := t\<rparr>"
    using assms(7) by (auto simp: blob_get_data_def v1 find_container_ok assms(4) in_ctx_def op_bind_Inr
        on_ctx_Inr blob_push_Inr)
  have "t_get T i (cv_table v2) = Inr (BIncoming ?data)"
    using table_push_get(1) [OF assms(1) t(1)] t(2) by simp
  then have "find_incoming T i v2 = (Inr ?data, v2)" by (simp add: find_incoming_def get_entry_def)
  then show ?thesis by (simp add: consume_sync_def incoming_size_def)
qed

text \<open>One container with one object, two handles on it, and an outgoing value.\<close>

definition demo_container :: in_mem_container where
  "demo_container = \<lparr>ic_name = ''c'', ic_objects = 0, ic_created_at = 0\<rparr>"

definition demo_blob :: "(blob_world, blob_entry option list) ctx_view" where
  "demo_blob = \<lparr>cv_ctx = \<lparr>bw_store = [(''c'', demo_container)], bw_heap = (\<lambda>_. [])(0 := [(''o'', [7])]), bw_next = 1,
       bw_pipes = (\<lambda>_. [])(0 := [1, 2, 3]), bw_next_pipe = 1\<rparr>,
     cv_table = [Some (BContainer demo_container), Some (BContainer demo_container), Some (BOutgoing 0)]\<rparr>"

lemma demo_blob_table:
  "t_get slot_table 0 (cv_table demo_blob) = Inr (BContainer demo_container)"
  "t_get slot_table (Suc 0) (cv_table demo_blob) = Inr (BContainer demo_container)"
  "t_get slot_table 2 (cv_table demo_blob) = Inr (BOutgoing 0)"
  by (simp_all add: demo_blob_def slot_table_def slot_get_def)

lemma demo_blob_wf: "blob_wf (cv_ctx demo_blob)"
  by (auto simp: blob_wf_def demo_blob_def hm_wf_def demo_container_def ran_def split: if_splits)

theorem blob_write_read_witness:
  "\<exists>v1 i v2. blob_write_data slot_table 0 ''x'' 2 demo_blob = (Inr (), v1) \<and>
     blob_get_data slot_table (Suc 0) ''x'' 1 1 v1 = (Inr i, v2) \<and>
     consume_sync slot_table i v2 = (Inr [1, 2, 3], v2)"
proof -
  let ?v1 = "demo_blob\<lparr>cv_ctx := snd (write_data demo_container ''x'' (bw_pipes (cv_ctx demo_blob) 0) (cv_ctx demo_blob))\<rparr>"
  have w: "blob_write_data slot_table 0 ''x'' 2 demo_blob = (Inr (), ?v1)"
    by (rule blob_write_run [OF demo_blob_table(1,3)])
  have "t_get slot_table (Suc 0) (cv_table ?v1) = Inr (BContainer demo_container)"
    using demo_blob_table(2) by simp
  then have "\<exists>i v2. blob_get_data slot_table (Suc 0) ''x'' 1 1 ?v1 = (Inr i, v2)"
    by (simp add: blob_get_data_def find_container_ok in_ctx_def get_data_def write_data_def
        blob_push_def push_entry_def slot_table_def)
  then obtain i v2 where r: "blob_get_data slot_table (Suc 0) ''x'' 1 1 ?v1 = (Inr i, v2)" by blast
  have "bw_pipes (cv_ctx demo_blob) 0 = [1, 2, 3]" by (simp add: demo_blob_def)
  with w r blob_write_read [OF slot_table_laws demo_blob_table(1,3,2) refl w r] show ?thesis by auto
qed

text \<open>
  Clearing a container.  \<open>clear\<close> succeeds and removes every object of the container, for
  every handle that shares its objects; other containers, the names and the resource table do
  not change.
\<close>

theorem blob_clear_empties:
  assumes "blob_wf (cv_ctx v)" and "t_get T h (cv_table v) = Inr (BContainer c)"
  shows "\<exists>w. blob_clear T h v = (Inr (), v\<lparr>cv_ctx := w\<rparr>) \<and> blob_wf w \<and>
    blob_view w = (blob_view (cv_ctx v))(ic_objects c := Map.empty)"
proof -
  let ?names = "hm_keys (bw_heap (cv_ctx v) (ic_objects c))"
  obtain w where w: "op_for (\<lambda>name. in_ctx ''deleting object'' (delete_object c name)) ?names v =
      (Inr (), v\<lparr>cv_ctx := w\<rparr>)" "blob_wf w" "blob_view w = (blob_view (cv_ctx v))
      (ic_objects c := (\<lambda>k. if k \<in> set ?names then None else blob_view (cv_ctx v) (ic_objects c) k))"
    using clear_loop [OF assms(1)] by blast
  have "(\<lambda>k. if k \<in> set ?names then None else blob_view (cv_ctx v) (ic_objects c) k) = Map.empty"
    by (auto simp: blob_view_def fun_eq_iff dom_def)
  moreover have "blob_clear T h v = (Inr (), v\<lparr>cv_ctx := w\<rparr>)"
    using w(1) by (simp add: blob_clear_def find_container_ok [OF assms(2)] in_ctx_def list_objects_def)
  ultimately show ?thesis using w(2,3) by auto
qed

theorem blob_clear_empties_witness:
  "blob_view (cv_ctx demo_blob) 0 ''o'' = Some [7] \<and>
   (\<exists>w. blob_clear slot_table 0 demo_blob = (Inr (), demo_blob\<lparr>cv_ctx := w\<rparr>) \<and> blob_view w 0 ''o'' = None)"
proof -
  obtain w where "blob_clear slot_table 0 demo_blob = (Inr (), demo_blob\<lparr>cv_ctx := w\<rparr>)"
      "blob_view w = (blob_view (cv_ctx demo_blob))(ic_objects demo_container := Map.empty)"
    using blob_clear_empties [OF demo_blob_wf demo_blob_table(1)] by blast
  moreover have "ic_objects demo_container = 0" by (simp add: demo_container_def)
  ultimately have "\<exists>w. blob_clear slot_table 0 demo_blob = (Inr (), demo_blob\<lparr>cv_ctx := w\<rparr>) \<and> blob_view w 0 ''o'' = None"
    by (intro exI [of _ w]) simp
  moreover have "blob_view (cv_ctx demo_blob) 0 ''o'' = Some [7]" by (simp add: blob_view_def demo_blob_def)
  ultimately show ?thesis by blast
qed

text \<open>
  Creating a container replaces the one of that name.  The new handle is on an empty
  container, which the name now denotes; containers that other handles hold keep their
  objects and share none with it.  So re-creating an existing container succeeds, and its
  objects can no longer be reached by name.
\<close>

theorem blob_create_detaches:
  assumes "table_laws T" and "blob_wf (cv_ctx v)" and "blob_create_container T name now v = (Inr h, v')"
  shows "\<exists>c. t_get T h (cv_table v') = Inr (BContainer c) \<and> blob_view (cv_ctx v') (ic_objects c) = Map.empty \<and>
    fst (get_container name (cv_ctx v')) = Inr c \<and> blob_wf (cv_ctx v') \<and>
    (\<forall>k c0. t_get T k (cv_table v) = Inr (BContainer c0) \<and> ic_objects c0 < bw_next (cv_ctx v) \<longrightarrow>
       t_get T k (cv_table v') = Inr (BContainer c0) \<and> ic_objects c0 \<noteq> ic_objects c \<and>
       blob_view (cv_ctx v') (ic_objects c0) = blob_view (cv_ctx v) (ic_objects c0))"
proof -
  let ?w = "cv_ctx v" and ?c = "\<lparr>ic_name = name, ic_objects = bw_next (cv_ctx v), ic_created_at = now\<rparr>"
  let ?w' = "?w\<lparr>bw_heap := (bw_heap ?w)(bw_next ?w := []), bw_next := bw_next ?w + 1,
      bw_store := hm_insert name ?c (bw_store ?w)\<rparr>"
  have "create_container name now ?w = (Inr ?c, ?w')" by (simp add: create_container_def new_container_def)
  then obtain t where t: "t_push T (BContainer ?c) (cv_table v) = Inr (h, t)"
      and v': "v' = v\<lparr>cv_ctx := ?w', cv_table := t\<rparr>"
    using assms(3) by (auto simp: blob_create_container_def op_bind_Inr on_ctx_Inr blob_push_Inr)
  have wf: "blob_wf ?w'"
    using assms(2) by (auto simp: blob_wf_def ran_def less_Suc_eq)
  have others: "t_get T k t = Inr (BContainer c0)" if "t_get T k (cv_table v) = Inr (BContainer c0)" for k c0
    using table_push_keeps(2) [OF assms(1) t that] .
  show ?thesis
    using table_push_get(1) [OF assms(1) t] wf others
    by (intro exI [of _ ?c]) (auto simp: v' blob_view_def get_container_def fun_eq_iff)
qed

theorem blob_create_detaches_witness:
  "\<exists>h v'. blob_create_container slot_table ''c'' 5 demo_blob = (Inr h, v') \<and>
     t_get slot_table 0 (cv_table v') = Inr (BContainer demo_container) \<and>
     blob_view (cv_ctx v') 0 ''o'' = Some [7] \<and>
     (\<exists>c. fst (get_container ''c'' (cv_ctx v')) = Inr c \<and> blob_view (cv_ctx v') (ic_objects c) = Map.empty)"
proof -
  have "\<exists>h v'. blob_create_container slot_table ''c'' 5 demo_blob = (Inr h, v')"
    by (simp add: blob_create_container_def create_container_def new_container_def blob_push_def
        push_entry_def slot_table_def)
  then obtain h v' where r: "blob_create_container slot_table ''c'' 5 demo_blob = (Inr h, v')" by blast
  obtain c where c: "blob_view (cv_ctx v') (ic_objects c) = Map.empty" "fst (get_container ''c'' (cv_ctx v')) = Inr c"
    and old: "\<forall>k c0. t_get slot_table k (cv_table demo_blob) = Inr (BContainer c0) \<and>
        ic_objects c0 < bw_next (cv_ctx demo_blob) \<longrightarrow>
       t_get slot_table k (cv_table v') = Inr (BContainer c0) \<and> ic_objects c0 \<noteq> ic_objects c \<and>
       blob_view (cv_ctx v') (ic_objects c0) = blob_view (cv_ctx demo_blob) (ic_objects c0)"
    using blob_create_detaches [OF slot_table_laws demo_blob_wf r] by blast
  have "ic_objects demo_container < bw_next (cv_ctx demo_blob)" "ic_objects demo_container = 0"
      "blob_view (cv_ctx demo_blob) 0 ''o'' = Some [7]"
    by (simp_all add: demo_container_def demo_blob_def blob_view_def)
  moreover from old have "t_get slot_table 0 (cv_table v') = Inr (BContainer demo_container) \<and>
      blob_view (cv_ctx v') (ic_objects demo_container) = blob_view (cv_ctx demo_blob) (ic_objects demo_container)"
    using demo_blob_table(1) calculation(1) by blast
  ultimately have "t_get slot_table 0 (cv_table v') = Inr (BContainer demo_container)"
      "blob_view (cv_ctx v') 0 ''o'' = Some [7]" by simp_all
  with c r show ?thesis by blast
qed

text \<open>
  Deleting a container.  Afterwards the name denotes no container, but no object is removed:
  every handle still reads and writes the objects it had (the interface promises to delete the
  objects of a deleted container).
\<close>

theorem blob_delete_keeps_objects:
  "\<exists>w. blob_delete_container name v = (Inr (), v\<lparr>cv_ctx := w\<rparr>) \<and> blob_view w = blob_view (cv_ctx v) \<and>
     fst (container_exists name w) = Inr False \<and>
     fst (get_container n w) = (if n = name then Inl (Anyhow (''container not found: '' @ name))
       else fst (get_container n (cv_ctx v)))"
  by (rule exI [of _ "cv_ctx v\<lparr>bw_store := hm_remove name (bw_store (cv_ctx v))\<rparr>"])
    (simp add: blob_delete_container_def delete_container_def blob_view_def [abs_def] container_exists_def
      get_container_def hm_contains_def)

end
