(* ===== verification/MessagingServer.thy ===== *)
theory MessagingServer
  imports Messaging
begin

text \<open>
  wasi-messaging, \<open>src/host/server.rs\<close>: the loop of \<open>run\<close>, which takes the messages of its
  subscription one by one and hands each to a task of its own, and the end of such a task.

  The tasks run concurrently; a step relation interleaves them with the loop, one whole call of
  the guest at a time.  The stream is what the broadcast channel delivers from then on, with the
  items that report a lag; the world \<open>'w\<close> is the state the handlers' contexts share.  Every task
  handles its message in a store of its own, with the empty table \<open>t0\<close>.
\<close>

section \<open>The loop\<close>

record 'w server =
  ms_pending :: "(nat + dyn_message) list"
  ms_tasks :: "(dyn_message \<times> (anyhow + unit) option) list"   \<comment> \<open>a message and how its task ended\<close>
  ms_world :: 'w
  ms_errors :: "(string \<times> anyhow) list"                        \<comment> \<open>the logged topics and errors\<close>

definition server_start :: "(nat + dyn_message) list \<Rightarrow> 'w \<Rightarrow> 'w server" where
  "server_start items w = \<lparr>ms_pending = items, ms_tasks = [], ms_world = w, ms_errors = []\<rparr>"

text \<open>\<open>handler.handle(message)\<close> in a fresh store.\<close>

definition task_handle ::
  "'t msg_table \<Rightarrow> 't \<Rightarrow> (nat \<Rightarrow> ('w, 't, unit) msg_trap) \<Rightarrow> dyn_message \<Rightarrow> ('w, anyhow, unit) op" where
  "task_handle T t0 guest message w =
     (case server_handle T guest message \<lparr>cv_ctx = w, cv_table = t0\<rparr> of (r, v) \<Rightarrow> (r, cv_ctx v))"

definition take_item :: "(nat + dyn_message) list \<Rightarrow> nat + dyn_message \<Rightarrow> 'w server \<Rightarrow> 'w server" where
  "take_item rest item s = (case item of
      Inl lagged \<Rightarrow> s\<lparr>ms_pending := rest\<rparr>
    | Inr message \<Rightarrow> s\<lparr>ms_pending := rest, ms_tasks := ms_tasks s @ [(message, None)]\<rparr>)"

definition end_task :: "nat \<Rightarrow> dyn_message \<Rightarrow> (anyhow + unit) \<times> 'w \<Rightarrow> 'w server \<Rightarrow> 'w server" where
  "end_task i message res s = s\<lparr>ms_tasks := (ms_tasks s)[i := (message, Some (fst res))], ms_world := snd res,
     ms_errors := ms_errors s @ (case fst res of Inl e \<Rightarrow> [(mg_topic (message_of message), e)] | Inr _ \<Rightarrow> [])\<rparr>"

inductive server_step ::
  "'t msg_table \<Rightarrow> 't \<Rightarrow> (nat \<Rightarrow> ('w, 't, unit) msg_trap) \<Rightarrow> 'w server \<Rightarrow> 'w server \<Rightarrow> bool"
  for T t0 guest where
  next_item: "ms_pending s = item # rest \<Longrightarrow> server_step T t0 guest s (take_item rest item s)"
| end_of_task: "i < length (ms_tasks s) \<Longrightarrow> ms_tasks s ! i = (message, None) \<Longrightarrow>
    server_step T t0 guest s (end_task i message (task_handle T t0 guest message (ms_world s)) s)"

inductive_cases server_stepE: "server_step T t0 guest s s'"

section \<open>Lemmas\<close>

definition failed :: "dyn_message \<times> (anyhow + unit) option \<Rightarrow> bool" where
  "failed task = (case snd task of Some (Inl _) \<Rightarrow> True | _ \<Rightarrow> False)"

definition server_inv :: "dyn_message list \<Rightarrow> 'w server \<Rightarrow> bool" where
  "server_inv all s \<longleftrightarrow> map fst (ms_tasks s) @ subscription (ms_pending s) = all \<and>
     length (ms_errors s) = length (filter failed (ms_tasks s))"

definition server_work :: "'w server \<Rightarrow> nat" where
  "server_work s = 2 * length (ms_pending s) + length (filter (\<lambda>task. snd task = None) (ms_tasks s))"

lemma subscription_Cons [simp]:
  "subscription (Inl n # items) = subscription items"
  "subscription (Inr m # items) = m # subscription items"
  by (simp_all add: subscription_def List.map_filter_def)

lemma filter_update:
  "i < length xs \<Longrightarrow> \<not> P (xs ! i) \<Longrightarrow>
    length (filter P (xs[i := x])) = length (filter P xs) + (if P x then 1 else 0)"
  "i < length xs \<Longrightarrow> P (xs ! i) \<Longrightarrow>
    length (filter P (xs[i := x])) + 1 = length (filter P xs) + (if P x then 1 else 0)"
  by (induction xs arbitrary: i; auto split: nat.splits)+

lemma server_step_inv:
  assumes "server_step T t0 guest s s'" and "server_inv all s"
  shows "server_inv all s'" and "server_work s' < server_work s"
proof -
  from assms(1) have "server_inv all s' \<and> server_work s' < server_work s"
  proof (cases rule: server_step.cases)
    case (next_item item rest)
    then show ?thesis using assms(2)
      by (cases item) (auto simp: server_inv_def server_work_def take_item_def failed_def)
  next
    case (end_of_task i message)
    obtain r w where res: "task_handle T t0 guest message (ms_world s) = (r, w)" by (rule prod.exhaust)
    have old: "\<not> failed (ms_tasks s ! i)" "snd (ms_tasks s ! i) = None"
      using end_of_task by (simp_all add: failed_def)
    have "map fst ((ms_tasks s)[i := (message, Some r)]) = map fst (ms_tasks s)"
      using end_of_task by (metis fst_conv list_update_id map_update)
    moreover note filter_update(1) [of i "ms_tasks s" failed "(message, Some r)", OF _ old(1)]
      filter_update(2) [of i "ms_tasks s" "\<lambda>task. snd task = None" "(message, Some r)"]
    ultimately show ?thesis using assms(2) end_of_task old res
      by (auto simp: server_inv_def server_work_def end_task_def failed_def split: sum.splits)
  qed
  then show "server_inv all s'" and "server_work s' < server_work s" by simp_all
qed

lemma server_run_inv:
  "(server_step T t0 guest ^^ n) s s' \<Longrightarrow> server_inv all s \<Longrightarrow> server_inv all s' \<and> n + server_work s' \<le> server_work s"
proof (induction n arbitrary: s')
  case 0
  then show ?case by simp
next
  case (Suc n)
  then obtain s1 where s1: "(server_step T t0 guest ^^ n) s s1" "server_step T t0 guest s1 s'" by auto
  with Suc.IH [OF s1(1) Suc.prems(2)] server_step_inv [OF s1(2)] show ?case by fastforce
qed

lemma server_stuck:
  assumes "\<nexists>s'. server_step T t0 guest s s'"
  shows "ms_pending s = []" and "\<forall>task \<in> set (ms_tasks s). snd task \<noteq> None"
proof -
  show "ms_pending s = []"
  proof (rule ccontr)
    assume "ms_pending s \<noteq> []"
    then obtain item rest where "ms_pending s = item # rest" by (cases "ms_pending s") auto
    from next_item [OF this, of T t0 guest] assms show False by blast
  qed
  show "\<forall>task \<in> set (ms_tasks s). snd task \<noteq> None"
  proof
    fix task assume "task \<in> set (ms_tasks s)"
    then obtain i where "i < length (ms_tasks s)" "ms_tasks s ! i = task" by (auto simp: in_set_conv_nth)
    then show "snd task \<noteq> None"
      using assms end_of_task [of i s "fst task" T t0 guest] by (cases task) auto
  qed
qed

section \<open>Properties\<close>


text \<open>A guest that fails on one of two messages around a lag.\<close>

definition picky_guest :: "nat \<Rightarrow> (nat, msg_entry option list, unit) msg_trap" where
  "picky_guest h v = (if cv_ctx v = 0 then (Inl (Anyhow ''no''), v\<lparr>cv_ctx := 1\<rparr>) else (Inr (), v))"


end
