(* ===== verification/Sdk.thy ===== *)
theory Sdk
  imports StrOps HttpHeaders
begin

text \<open>
  qwasr-sdk: the domain errors (\<open>src/error.rs\<close>), the type-state builder that runs a request
  (\<open>src/api.rs\<close>, \<open>src/api/request.rs\<close>), replies (\<open>src/api/reply.rs\<close>), their HTTP form
  (\<open>src/api/into_http.rs\<close>) and \<open>ensure_env!\<close> (\<open>src/lib.rs\<close>).

  A guest's own \<open>Handler\<close> is the record \<open>handler_ops\<close>: how it parses its input and what it
  does with a context, on a state \<open>'s\<close> of the world it runs in.
\<close>

section \<open>Errors\<close>

datatype sdk_error =
    BadRequest string string    \<comment> \<open>code, description\<close>
  | NotFound string string
  | ServerError string string
  | BadGateway string string

fun error_status :: "sdk_error \<Rightarrow> u16" where
  "error_status (BadRequest c d) = 400"
| "error_status (NotFound c d) = 404"
| "error_status (ServerError c d) = 500"
| "error_status (BadGateway c d) = 502"

fun error_code :: "sdk_error \<Rightarrow> string" where
  "error_code (BadRequest code d) = code"
| "error_code (NotFound code d) = code"
| "error_code (ServerError code d) = code"
| "error_code (BadGateway code d) = code"

fun error_description :: "sdk_error \<Rightarrow> string" where
  "error_description (BadRequest c description) = description"
| "error_description (NotFound c description) = description"
| "error_description (ServerError c description) = description"
| "error_description (BadGateway c description) = description"

text \<open>The \<open>#[error("\<dots>")]\<close> attribute is the same for all four variants.\<close>

definition error_display :: "sdk_error \<Rightarrow> string" where
  "error_display e = ''code: '' @ error_code e @ '', description: '' @ error_description e"

text \<open>
  An \<open>anyhow::Error\<close> that reaches the conversion: one of these errors, another error with the
  messages of its sources, or an error with a context in front of it.
\<close>

datatype guest_anyhow =
    OfError sdk_error
  | OfOther string "string list"
  | WithContext string guest_anyhow

fun error_chain :: "guest_anyhow \<Rightarrow> string list" where
  "error_chain (OfError e) = [error_display e]"
| "error_chain (OfOther msg sources) = msg # sources"
| "error_chain (WithContext context err) = context # error_chain err"

text \<open>\<open>downcast_ref\<close> looks through contexts.\<close>

fun downcast_error :: "guest_anyhow \<Rightarrow> sdk_error option" where
  "downcast_error (OfError e) = Some e"
| "downcast_error (OfOther msg sources) = None"
| "downcast_error (WithContext context err) = downcast_error err"

definition error_from_anyhow :: "guest_anyhow \<Rightarrow> sdk_error" where
  "error_from_anyhow err = (let chain = join '': '' (error_chain err) in
     case downcast_error err of
       Some inner \<Rightarrow> (case inner of
           BadRequest code _ \<Rightarrow> BadRequest code chain
         | NotFound code _ \<Rightarrow> NotFound code chain
         | ServerError code _ \<Rightarrow> ServerError code chain
         | BadGateway code _ \<Rightarrow> BadGateway code chain)
     | None \<Rightarrow> ServerError ''server_error'' chain)"

text \<open>The argument is the printed \<open>serde_json::Error\<close>.\<close>

definition error_from_json :: "string \<Rightarrow> sdk_error" where
  "error_from_json err = BadRequest ''serde_json'' err"

text \<open>The macros, applied to the text that \<open>format!\<close> gives.\<close>

definition bad_request :: "string \<Rightarrow> sdk_error" where
  "bad_request desc = BadRequest ''bad_request'' desc"

definition server_error :: "string \<Rightarrow> sdk_error" where
  "server_error desc = ServerError ''server_error'' desc"

definition bad_gateway :: "string \<Rightarrow> sdk_error" where
  "bad_gateway desc = BadGateway ''bad_gateway'' desc"

text \<open>\<open>ensure_env!\<close>: the panic message, or nothing.\<close>

definition ensure_env :: "(string \<Rightarrow> string option) \<Rightarrow> string list \<Rightarrow> string + unit" where
  "ensure_env var vars = (let missing = filter (\<lambda>v. var v = None) vars in
     if missing \<noteq> [] then Inl (''Missing required environment variables: '' @ join '', '' missing) else Inr ())"

section \<open>Replies\<close>

record ('m, 'b) sdk_reply =
  rp_status :: u16
  rp_headers :: 'm
  rp_body :: 'b

text \<open>\<open>m0\<close> is \<open>HeaderMap::new()\<close>.\<close>

definition reply_ok :: "'m \<Rightarrow> 'b \<Rightarrow> ('m, 'b) sdk_reply" where
  "reply_ok m0 body = \<lparr>rp_status = 200, rp_headers = m0, rp_body = body\<rparr>"

definition reply_created :: "'m \<Rightarrow> 'b \<Rightarrow> ('m, 'b) sdk_reply" where
  "reply_created m0 body = \<lparr>rp_status = 201, rp_headers = m0, rp_body = body\<rparr>"

definition reply_accepted :: "'m \<Rightarrow> 'b \<Rightarrow> ('m, 'b) sdk_reply" where
  "reply_accepted m0 body = \<lparr>rp_status = 202, rp_headers = m0, rp_body = body\<rparr>"

definition reply_is_success :: "('m, 'b) sdk_reply \<Rightarrow> bool" where
  "reply_is_success r \<longleftrightarrow> 200 \<le> rp_status r \<and> rp_status r < 300"

definition reply_status :: "u16 \<Rightarrow> ('m, 'b) sdk_reply \<Rightarrow> ('m, 'b) sdk_reply" where
  "reply_status status r = r\<lparr>rp_status := status\<rparr>"

definition reply_headers :: "'m \<Rightarrow> ('m, 'b) sdk_reply \<Rightarrow> ('m, 'b) sdk_reply" where
  "reply_headers headers r = r\<lparr>rp_headers := headers\<rparr>"

definition reply_from :: "'m \<Rightarrow> 'b \<Rightarrow> ('m, 'b) sdk_reply" where
  "reply_from m0 body = \<lparr>rp_status = 200, rp_headers = m0, rp_body = body\<rparr>"

text \<open>
  What is handed to axum: a status with a text, or a status with headers and a body.
  \<open>into_body\<close> is the reply type's own encoder; its error is the printed one.
\<close>

datatype 'm axum_response = TextResponse u16 string | FullResponse u16 'm bytes

definition reply_into_response ::
  "'m header_ops \<Rightarrow> ('b \<Rightarrow> string + bytes) \<Rightarrow> ('m, 'b) sdk_reply \<Rightarrow> 'm axum_response" where
  "reply_into_response H into_body r = (case into_body (rp_body r) of
      Inl e \<Rightarrow> TextResponse 500 (''body encoding error: '' @ e)
    | Inr body \<Rightarrow>
        let hm = rp_headers r;
            hm = (if hd_get H ''content-type'' hm = None
                  then hd_insert H ''content-type'' ''text/plain; charset=utf-8'' hm else hm)
        in FullResponse (rp_status r) hm body)"

record http_error =
  he_status :: u16
  he_error :: string

definition http_error_from :: "sdk_error \<Rightarrow> http_error" where
  "http_error_from e = \<lparr>he_status = error_status e, he_error = error_display e\<rparr>"

definition http_error_from_anyhow :: "guest_anyhow \<Rightarrow> http_error" where
  "http_error_from_anyhow e =
     (let error = hd (error_chain e) @ '', caused by: '' @ last (error_chain e);
          status = (case downcast_error e of None \<Rightarrow> 500 | Some inner \<Rightarrow> error_status inner)
      in \<lparr>he_status = status, he_error = error\<rparr>)"

definition http_error_into_response :: "http_error \<Rightarrow> 'm axum_response" where
  "http_error_into_response e = TextResponse (he_status e) (he_error e)"

section \<open>Running a request\<close>

text \<open>The markers of the type state are types here too, so a model term is as constrained as the code.\<close>

datatype no_owner = NoOwner
datatype owner_set = OwnerSet string
datatype no_provider = NoProvider
datatype 'p provider_set = ProviderSet 'p
datatype no_request = NoRequest
datatype 'r request_set = RequestSet 'r

record ('r, 'o, 'p, 'm) request_handler =
  rh_request :: 'r
  rh_headers :: 'm
  rh_owner :: 'o
  rh_provider :: 'p

record ('p, 'm) handler_context =
  cx_owner :: string
  cx_provider :: 'p
  cx_headers :: 'm

record ('i, 'r, 's, 'p, 'm, 'e, 'b) handler_ops =
  ho_from_input :: "'i \<Rightarrow> 'e + 'r"
  ho_handle :: "'r \<Rightarrow> ('p, 'm) handler_context \<Rightarrow> ('s, 'e, ('m, 'b) sdk_reply) op"

text \<open>\<open>RequestHandler::new()\<close>; \<open>m0\<close> is the empty header map.\<close>

definition rh_new :: "'m \<Rightarrow> (no_request, no_owner, no_provider, 'm) request_handler" where
  "rh_new m0 = \<lparr>rh_request = NoRequest, rh_headers = m0, rh_owner = NoOwner, rh_provider = NoProvider\<rparr>"

definition set_owner ::
  "string \<Rightarrow> ('r, no_owner, 'p, 'm) request_handler \<Rightarrow> ('r, owner_set, 'p, 'm) request_handler" where
  "set_owner owner rh = \<lparr>rh_request = rh_request rh, rh_headers = rh_headers rh,
     rh_owner = OwnerSet owner, rh_provider = rh_provider rh\<rparr>"

definition set_provider ::
  "'p \<Rightarrow> ('r, 'o, no_provider, 'm) request_handler \<Rightarrow> ('r, 'o, 'p provider_set, 'm) request_handler" where
  "set_provider provider rh = \<lparr>rh_request = rh_request rh, rh_headers = rh_headers rh,
     rh_owner = rh_owner rh, rh_provider = ProviderSet provider\<rparr>"

definition set_request ::
  "'r \<Rightarrow> (no_request, 'o, 'p, 'm) request_handler \<Rightarrow> ('r request_set, 'o, 'p, 'm) request_handler" where
  "set_request request rh = \<lparr>rh_request = RequestSet request, rh_headers = rh_headers rh,
     rh_owner = rh_owner rh, rh_provider = rh_provider rh\<rparr>"

definition set_headers ::
  "'m \<Rightarrow> ('r, 'o, 'p, 'm) request_handler \<Rightarrow> ('r, 'o, 'p, 'm) request_handler" where
  "set_headers headers rh = rh\<lparr>rh_headers := headers\<rparr>"

fun the_owner :: "owner_set \<Rightarrow> string" where "the_owner (OwnerSet owner) = owner"
fun the_provider :: "'p provider_set \<Rightarrow> 'p" where "the_provider (ProviderSet p) = p"
fun the_request :: "'r request_set \<Rightarrow> 'r" where "the_request (RequestSet r) = r"

definition rh_handle ::
  "('i, 'r, 's, 'p, 'm, 'e, 'b) handler_ops \<Rightarrow>
   ('r request_set, owner_set, 'p provider_set, 'm) request_handler \<Rightarrow> ('s, 'e, ('m, 'b) sdk_reply) op" where
  "rh_handle R rh =
     (let ctx = \<lparr>cx_owner = the_owner (rh_owner rh), cx_provider = the_provider (rh_provider rh),
                 cx_headers = rh_headers rh\<rparr>
      in ho_handle R (the_request (rh_request rh)) ctx)"

definition handler_for ::
  "('i, 'r, 's, 'p, 'm, 'e, 'b) handler_ops \<Rightarrow> 'm \<Rightarrow> 'i \<Rightarrow>
   'e + ('r request_set, no_owner, no_provider, 'm) request_handler" where
  "handler_for R m0 input = res_bind (ho_from_input R input) (\<lambda>request. Inr (set_request request (rh_new m0)))"

record 'p client =
  cl_owner :: string
  cl_provider :: 'p

definition client_new :: "string \<Rightarrow> no_provider client" where
  "client_new owner = \<lparr>cl_owner = owner, cl_provider = NoProvider\<rparr>"

definition client_provider :: "'p \<Rightarrow> no_provider client \<Rightarrow> 'p client" where
  "client_provider provider cl = \<lparr>cl_owner = cl_owner cl, cl_provider = provider\<rparr>"

text \<open>\<open>Client::request\<close>, through \<open>RequestHandler::from_client\<close>.\<close>

definition request_from_client ::
  "'m \<Rightarrow> 'p client \<Rightarrow> 'r \<Rightarrow> ('r request_set, owner_set, 'p provider_set, 'm) request_handler" where
  "request_from_client m0 cl request = \<lparr>rh_request = RequestSet request, rh_headers = m0,
     rh_owner = OwnerSet (cl_owner cl), rh_provider = ProviderSet (cl_provider cl)\<rparr>"

section \<open>Lemmas\<close>

text \<open>\<open>err.context(c1).context(c2)\<dots>\<close>: the last context comes first.\<close>

definition with_contexts :: "string list \<Rightarrow> guest_anyhow \<Rightarrow> guest_anyhow" where
  "with_contexts contexts err = fold WithContext contexts err"

lemma chain_with_contexts: "error_chain (with_contexts cs err) = rev cs @ error_chain err"
  by (induction cs arbitrary: err) (simp_all add: with_contexts_def)

lemma downcast_with_contexts: "downcast_error (with_contexts cs err) = downcast_error err"
  by (induction cs arbitrary: err) (simp_all add: with_contexts_def)

lemmas builder_defs = rh_new_def set_owner_def set_provider_def set_request_def set_headers_def
  client_new_def client_provider_def request_from_client_def

lemma error_from_anyhow_error:
  "error_status (error_from_anyhow err) =
     (case downcast_error err of None \<Rightarrow> 500 | Some inner \<Rightarrow> error_status inner) \<and>
   error_code (error_from_anyhow err) =
     (case downcast_error err of None \<Rightarrow> ''server_error'' | Some inner \<Rightarrow> error_code inner) \<and>
   error_description (error_from_anyhow err) = join '': '' (error_chain err)"
  by (simp add: error_from_anyhow_def Let_def split: option.splits sdk_error.splits)

text \<open>
  The builder.  Whatever the order in which owner, provider and request are set, and wherever
  the headers are set among them, handling runs the request's own handler exactly once, with
  that owner, that provider and those headers (no headers, if none were set), and returns its
  result unchanged; a client does the same with its own owner and provider.
\<close>

lemma builder_order_irrelevant:
  "let run = ho_handle R request \<lparr>cx_owner = owner, cx_provider = provider, cx_headers = headers\<rparr> in
   rh_handle R (set_request request (set_provider provider (set_owner owner (set_headers headers (rh_new m0))))) = run \<and>
   rh_handle R (set_provider provider (set_request request (set_headers headers (set_owner owner (rh_new m0))))) = run \<and>
   rh_handle R (set_request request (set_headers headers (set_owner owner (set_provider provider (rh_new m0))))) = run \<and>
   rh_handle R (set_headers headers (set_owner owner (set_request request (set_provider provider (rh_new m0))))) = run \<and>
   rh_handle R (set_provider provider (set_owner owner (set_headers headers (set_request request (rh_new m0))))) = run \<and>
   rh_handle R (set_headers headers (set_owner owner (set_provider provider (set_request request (rh_new m0))))) = run \<and>
   rh_handle R (set_headers headers (request_from_client m0 (client_provider provider (client_new owner)) request)) = run \<and>
   rh_handle R (request_from_client m0 (client_provider provider (client_new owner)) request) =
     ho_handle R request \<lparr>cx_owner = owner, cx_provider = provider, cx_headers = m0\<rparr>"
  by (simp add: builder_defs rh_handle_def Let_def)

section \<open>Properties\<close>

text \<open>
  C26: Context never changes what an error is.  An error of the guest that passes through any
  number of \<open>context\<close> layers keeps its HTTP status and its code, on both ways out (the domain
  error and the HTTP error), and its description is the contexts, latest first, followed by
  the printed error; any other error ends as a 500 with the code \<open>server_error\<close>.
\<close>

theorem context_keeps_error:
  "error_status (error_from_anyhow (with_contexts cs (OfError e))) = error_status e \<and>
   he_status (http_error_from_anyhow (with_contexts cs (OfError e))) = error_status e \<and>
   error_code (error_from_anyhow (with_contexts cs (OfError e))) = error_code e \<and>
   error_description (error_from_anyhow (with_contexts cs (OfError e))) =
     join '': '' (rev cs @ [''code: '' @ error_code e @ '', description: '' @ error_description e]) \<and>
   error_from_anyhow (with_contexts cs (OfOther msg sources)) =
     ServerError ''server_error'' (join '': '' (rev cs @ msg # sources)) \<and>
   he_status (http_error_from_anyhow (with_contexts cs (OfOther msg sources))) = 500"
proof (intro conjI)
  show "error_from_anyhow (with_contexts cs (OfOther msg sources)) =
      ServerError ''server_error'' (join '': '' (rev cs @ msg # sources))"
    by (simp add: error_from_anyhow_def downcast_with_contexts chain_with_contexts)
qed (simp_all add: error_from_anyhow_error downcast_with_contexts chain_with_contexts
    http_error_from_anyhow_def error_display_def Let_def del: join.simps)

end
