(* ===== verification/GuestMacro.thy ===== *)
theory GuestMacro
  imports Sdk
begin

text \<open>
  guest-macro: what the \<open>guest!\<close> macro accepts and what the code it generates does
  (\<open>src/guest.rs\<close>, \<open>src/http.rs\<close>, \<open>src/messaging.rs\<close>).

  Reading the tokens is in MacroSyntax: the model starts from the list of items that
  \<open>Punctuated::parse_terminated\<close> yields, and covers every check the macro makes on them.
  Names are ASCII.  The router of \<open>axum\<close> is outside: a request arrives at its endpoint with the
  path parameters, the raw query and the body that axum's extractors hand over.
\<close>

section \<open>The configuration\<close>

record route_handler =
  hn_method :: string
  hn_request :: string
  hn_reply :: string
  hn_with_body :: bool
  hn_with_query :: bool

record route =
  rt_path :: string
  rt_params :: "string list"
  rt_handler :: route_handler
  rt_function :: string

record topic =
  tp_pattern :: string
  tp_message :: string
  tp_handler :: string

record guest_config =
  gc_owner :: string
  gc_provider :: string
  gc_http :: "route list option"
  gc_messaging :: "topic list option"

text \<open>
  \<open>format_ident!\<close> makes an identifier of a text, raw when it begins with \<open>r#\<close>, and panics when it is
  none.  A panic ends the macro as an error does, with its message as the compiler's.
\<close>

definition ident_start :: "char \<Rightarrow> bool" where
  "ident_start c \<longleftrightarrow> c = CHR ''_'' \<or> (let n = of_char c :: nat in (65 \<le> n \<and> n \<le> 90) \<or> (97 \<le> n \<and> n \<le> 122))"

definition ident_text :: "string \<Rightarrow> bool" where
  "ident_text s \<longleftrightarrow> s \<noteq> [] \<and> ident_start (hd s) \<and> list_all (\<lambda>c. ident_start c \<or> is_digit c) (tl s)"

definition format_ident :: "string \<Rightarrow> string + string" where
  "format_ident s = (case strip_prefix ''r#'' s of
      Some raw \<Rightarrow> (if ident_text raw \<and> raw \<notin> {''_'', ''super'', ''self'', ''Self'', ''crate''} then Inr s
        else Inl ''panicked: not a valid identifier'')
    | None \<Rightarrow> (if ident_text s then Inr s else Inl ''panicked: not a valid identifier''))"

text \<open>A handler method name from an HTTP path or messaging topic.\<close>

definition handler_name :: "string \<Rightarrow> string + string" where
  "handler_name path =
     (let name = dropWhile (\<lambda>c. c = CHR ''/'') path;
          name = map (\<lambda>c. if c \<in> {CHR ''/'', CHR ''-'', CHR ''.''} then CHR ''_'' else c) name;
          name = filter (\<lambda>c. c \<notin> {CHR ''{'', CHR ''}''}) name
      in format_ident (to_ascii_lowercase name))"

definition extract_params :: "string \<Rightarrow> string + string list" where
  "extract_params path = res_all (\<lambda>s. format_ident (take (length s - 2) (drop 1 s)))
     (filter (\<lambda>s. starts_with ''{'' s \<and> ends_with ''}'' s) (split_on CHR ''/'' path))"

text \<open>The paths of the tests, and paths that leave no name.\<close>

lemma handler_name_tests:
  "handler_name ''/set-trip/{vehicle_id}/{trip_id}'' = Inr ''set_trip_vehicle_id_trip_id''"
  "handler_name ''/some/path/data.json'' = Inr ''some_path_data_json''"
  "extract_params ''{vehicle_id}/{trip_id}'' = Inr [''vehicle_id'', ''trip_id'']"
  "\<not> is_ok (handler_name ''/'')" "\<not> is_ok (handler_name ''/123'')" "\<not> is_ok (extract_params ''/{*x}'')"
  by code_simp+

text \<open>The optional word after the request type.\<close>

datatype body_flag = NoFlag | WithBody | WithQuery

definition parse_handler :: "string \<Rightarrow> string \<Rightarrow> body_flag \<Rightarrow> string \<Rightarrow> string + route_handler" where
  "parse_handler method request flag reply =
     (let with_body = (flag = WithBody); with_query = (flag = WithQuery)
      in if method = ''get'' \<and> with_body then
           Inl ''GET requests should not have a body; consider using query parameters''
         else if method = ''post'' \<and> with_query then
           Inl ''POST requests should not have query parameters; consider using body''
         else Inr \<lparr>hn_method = method, hn_request = request, hn_reply = reply,
                  hn_with_body = with_body, hn_with_query = with_query\<rparr>)"

text \<open>The handlers after the path, separated by \<open>|\<close>.\<close>

fun route_handlers :: "route_handler option \<Rightarrow> route_handler list \<Rightarrow> string + route_handler option" where
  "route_handlers acc [] = Inr acc"
| "route_handlers acc (h # hs) =
     (if acc \<noteq> None then Inl ''cannot specify second handler'' else route_handlers (Some h) hs)"

definition parse_route :: "string \<Rightarrow> route_handler list \<Rightarrow> string + route" where
  "parse_route path hs = res_bind (route_handlers None hs) (\<lambda>acc. case acc of
      None \<Rightarrow> Inl ''route is missing handler (e.g., `get(Request, Response)` or `post(Request, Response)`)''
    | Some h \<Rightarrow>
        res_bind (extract_params path) (\<lambda>params.
        res_bind (handler_name path) (\<lambda>function.
        Inr \<lparr>rt_path = path, rt_params = params, rt_handler = h, rt_function = function\<rparr>)))"

definition parse_topic :: "string \<Rightarrow> string \<Rightarrow> string + topic" where
  "parse_topic pat message =
     res_bind (handler_name pat) (\<lambda>handler. Inr \<lparr>tp_pattern = pat, tp_message = message, tp_handler = handler\<rparr>)"

datatype guest_opt =
    OptOwner string
  | OptProvider string
  | OptHttp "route list"
  | OptMessaging "topic list"

record config_acc =
  ca_owner :: "string option"
  ca_provider :: "string option"
  ca_http :: "route list option"
  ca_messaging :: "topic list option"

fun config_step :: "guest_opt \<Rightarrow> config_acc \<Rightarrow> string + config_acc" where
  "config_step (OptOwner x) acc =
     (if ca_owner acc \<noteq> None then Inl ''cannot specify second owner'' else Inr (acc\<lparr>ca_owner := Some x\<rparr>))"
| "config_step (OptProvider p) acc =
     (if ca_provider acc \<noteq> None then Inl ''cannot specify second provider''
      else Inr (acc\<lparr>ca_provider := Some p\<rparr>))"
| "config_step (OptHttp h) acc = Inr (acc\<lparr>ca_http := Some h\<rparr>)"
| "config_step (OptMessaging m) acc = Inr (acc\<lparr>ca_messaging := Some m\<rparr>)"

fun config_loop :: "guest_opt list \<Rightarrow> config_acc \<Rightarrow> string + config_acc" where
  "config_loop [] acc = Inr acc"
| "config_loop (x # xs) acc = res_bind (config_step x acc) (config_loop xs)"

definition parse_config :: "guest_opt list \<Rightarrow> string + guest_config" where
  "parse_config settings =
     res_bind (config_loop settings \<lparr>ca_owner = None, ca_provider = None, ca_http = None, ca_messaging = None\<rparr>)
      (\<lambda>acc. case ca_owner acc of
          None \<Rightarrow> Inl ''missing `owner`''
        | Some owner \<Rightarrow> (case ca_provider acc of
            None \<Rightarrow> Inl ''missing `provider`''
          | Some provider \<Rightarrow> Inr \<lparr>gc_owner = owner, gc_provider = provider,
              gc_http = ca_http acc, gc_messaging = ca_messaging acc\<rparr>))"

section \<open>The generated HTTP endpoint\<close>

record http_input =
  hi_params :: "string list"        \<comment> \<open>the values of the path parameters\<close>
  hi_query :: "string option"
  hi_body :: bytes

datatype endpoint_input =
    UnitInput
  | QueryInput "string option"
  | ParamInput string
  | ParamsInput "string list"
  | BodyInput bytes

text \<open>
  The arguments that \<open>expand_get_args\<close> and \<open>expand_post_args\<close> extract and the expression that
  \<open>expand_get_input\<close> and \<open>expand_post_input\<close> build from them.
\<close>

definition get_input :: "string list \<Rightarrow> bool \<Rightarrow> http_input \<Rightarrow> endpoint_input" where
  "get_input params with_query req =
     (if params = [] then (if with_query then QueryInput (hi_query req) else UnitInput)
      else if length params = 1 then ParamInput (hd (hi_params req))
      else ParamsInput (hi_params req))"

definition post_input :: "bool \<Rightarrow> http_input \<Rightarrow> endpoint_input" where
  "post_input with_body req = (if with_body then BodyInput (hi_body req) else UnitInput)"

definition endpoint_input :: "route \<Rightarrow> http_input \<Rightarrow> endpoint_input" where
  "endpoint_input r req =
     (if hn_method (rt_handler r) = ''get'' then get_input (rt_params r) (hn_with_query (rt_handler r)) req
      else post_input (hn_with_body (rt_handler r)) req)"

text \<open>
  The generated function of a route: \<open>R\<close> is the handler of its request type, \<open>into\<close> the
  conversion of the handler's error, \<open>new\<close> the provider's constructor.
\<close>

definition http_endpoint ::
  "(endpoint_input, 'r, 's, 'p, 'm, 'e, 'b) handler_ops \<Rightarrow> ('e \<Rightarrow> http_error) \<Rightarrow> 'm \<Rightarrow> (string \<Rightarrow> 'p) \<Rightarrow>
   guest_config \<Rightarrow> route \<Rightarrow> http_input \<Rightarrow> ('s, http_error, ('m, 'b) sdk_reply) op" where
  "http_endpoint R into m0 new cfg r req =
     op_bind (op_lift (res_map_err into (handler_for R m0 (endpoint_input r req))))
       (\<lambda>rh. op_map_err into
          (rh_handle R (set_owner (gc_owner cfg) (set_provider (new (gc_provider cfg)) rh))))"

text \<open>\<open>HttpResult\<close> as a response.\<close>

fun http_result_response ::
  "'m header_ops \<Rightarrow> ('b \<Rightarrow> string + bytes) \<Rightarrow> http_error + ('m, 'b) sdk_reply \<Rightarrow> 'm axum_response" where
  "http_result_response H into_body (Inl e) = http_error_into_response e"
| "http_result_response H into_body (Inr r) = reply_into_response H into_body r"

section \<open>The generated message handler\<close>

definition run_processor ::
  "(bytes, 'r, 's, 'p, 'm, 'e, 'b) handler_ops \<Rightarrow> 'm \<Rightarrow> (string \<Rightarrow> 'p) \<Rightarrow> guest_config \<Rightarrow>
   bytes \<Rightarrow> ('s, 'e, unit) op" where
  "run_processor R m0 new cfg payload =
     op_bind (op_lift (handler_for R m0 payload))
       (\<lambda>rh. op_bind (rh_handle R (set_owner (gc_owner cfg) (set_provider (new (gc_provider cfg)) rh)))
          (\<lambda>_. op_return ()))"

text \<open>
  The arms of the generated \<open>match\<close>: the first whose pattern occurs in the topic.  \<open>Rs\<close> gives
  the handler of each message type and \<open>show\<close> prints an error.
\<close>

fun topic_arms ::
  "(string \<Rightarrow> (bytes, 'r, 's, 'p, 'm, 'e, 'b) handler_ops) \<Rightarrow> 'm \<Rightarrow> (string \<Rightarrow> 'p) \<Rightarrow> ('e \<Rightarrow> string) \<Rightarrow>
   guest_config \<Rightarrow> topic list \<Rightarrow> string \<Rightarrow> bytes \<Rightarrow> ('s, string, unit) op" where
  "topic_arms Rs m0 new show cfg [] topic payload = op_fail (''unhandled topic: '' @ topic)"
| "topic_arms Rs m0 new show cfg (tp # tps) topic payload =
     (if contains (tp_pattern tp) topic
      then op_map_err show (run_processor (Rs (tp_message tp)) m0 new cfg payload)
      else topic_arms Rs m0 new show cfg tps topic payload)"

definition handle_message ::
  "(string \<Rightarrow> (bytes, 'r, 's, 'p, 'm, 'e, 'b) handler_ops) \<Rightarrow> 'm \<Rightarrow> (string \<Rightarrow> 'p) \<Rightarrow> ('e \<Rightarrow> string) \<Rightarrow>
   guest_config \<Rightarrow> topic list \<Rightarrow> string option \<Rightarrow> bytes \<Rightarrow> ('s, string, unit) op" where
  "handle_message Rs m0 new show cfg tps topic payload =
     op_bind (op_lift (ok_or ''message is missing topic'' topic))
       (\<lambda>topic. topic_arms Rs m0 new show cfg tps topic payload)"

section \<open>Lemmas\<close>

lemma contains_trans: "contains a b \<Longrightarrow> contains b c \<Longrightarrow> contains a c"
  by (fastforce simp: contains_iff intro: exI [of _ "_ @ _"])

lemma arms_skip:
  "\<forall>tp \<in> set tps. \<not> contains (tp_pattern tp) topic \<Longrightarrow>
   topic_arms Rs m0 new show cfg (tps @ tps') topic payload = topic_arms Rs m0 new show cfg tps' topic payload"
  by (induction tps) auto

lemma arms_append:
  "topic_arms Rs m0 new show cfg (tps @ tps') topic payload =
     (if list_ex (\<lambda>tp. contains (tp_pattern tp) topic) tps
      then topic_arms Rs m0 new show cfg tps topic payload
      else topic_arms Rs m0 new show cfg tps' topic payload)"
  by (induction tps) auto

definition owners :: "guest_opt list \<Rightarrow> string list" where
  "owners xs = List.map_filter (\<lambda>x. case x of OptOwner y \<Rightarrow> Some y | _ \<Rightarrow> None) xs"

definition providers :: "guest_opt list \<Rightarrow> string list" where
  "providers xs = List.map_filter (\<lambda>x. case x of OptProvider p \<Rightarrow> Some p | _ \<Rightarrow> None) xs"

definition last_http :: "guest_opt list \<Rightarrow> route list option \<Rightarrow> route list option" where
  "last_http xs d = fold (\<lambda>x acc. case x of OptHttp h \<Rightarrow> Some h | _ \<Rightarrow> acc) xs d"

definition last_messaging :: "guest_opt list \<Rightarrow> topic list option \<Rightarrow> topic list option" where
  "last_messaging xs d = fold (\<lambda>x acc. case x of OptMessaging m \<Rightarrow> Some m | _ \<Rightarrow> acc) xs d"

lemmas config_views = owners_def providers_def last_http_def last_messaging_def List.map_filter_def

text \<open>What the loop over the settings collects: an error as soon as a second owner or provider appears.\<close>

fun opt_list :: "'a option \<Rightarrow> 'a list" where
  "opt_list None = []" | "opt_list (Some x) = [x]"

lemma config_loop_spec:
  "(is_ok (config_loop xs acc) \<longleftrightarrow>
      length (opt_list (ca_owner acc) @ owners xs) \<le> 1 \<and> length (opt_list (ca_provider acc) @ providers xs) \<le> 1) \<and>
   (\<forall>acc'. config_loop xs acc = Inr acc' \<longrightarrow>
      opt_list (ca_owner acc') = opt_list (ca_owner acc) @ owners xs \<and>
      opt_list (ca_provider acc') = opt_list (ca_provider acc) @ providers xs \<and>
      ca_http acc' = last_http xs (ca_http acc) \<and> ca_messaging acc' = last_messaging xs (ca_messaging acc))"
proof (induction xs arbitrary: acc)
  case Nil
  show ?case by (cases "ca_owner acc"; cases "ca_provider acc") (simp_all add: config_views)
next
  case (Cons x xs)
  show ?case
  proof (cases "config_step x acc")
    case (Inl e)
    then show ?thesis
      by (cases x) (auto simp: config_views split: if_splits)
  next
    case (Inr acc1)
    then show ?thesis using Cons.IH [of acc1]
      by (cases x) (auto simp: config_views split: if_splits)
  qed
qed

text \<open>What a handler does with an accepted input, under the configuration's owner and provider.\<close>

definition handled ::
  "('i, 'r, 's, 'p, 'm, 'e, 'b) handler_ops \<Rightarrow> 'm \<Rightarrow> (string \<Rightarrow> 'p) \<Rightarrow> guest_config \<Rightarrow> 'i \<Rightarrow>
   ('s, 'e, ('m, 'b) sdk_reply) op" where
  "handled R m0 new cfg input s = (case ho_from_input R input of
      Inl e \<Rightarrow> (Inl e, s)
    | Inr r \<Rightarrow> ho_handle R r
        \<lparr>cx_owner = gc_owner cfg, cx_provider = new (gc_provider cfg), cx_headers = m0\<rparr> s)"

lemma handler_for_run:
  "op_bind (op_lift (handler_for R m0 input))
     (\<lambda>rh. rh_handle R (set_owner (gc_owner cfg) (set_provider (new (gc_provider cfg)) rh))) s =
   handled R m0 new cfg input s"
  by (cases "ho_from_input R input")
    (simp_all add: handler_for_def handled_def builder_defs rh_handle_def op_bind_def Let_def)

lemma run_processor_run:
  "run_processor R m0 new cfg payload s =
     op_bind (handled R m0 new cfg payload) (\<lambda>_. op_return ()) s"
  by (cases "ho_from_input R payload")
    (simp_all add: run_processor_def handler_for_def handled_def builder_defs rh_handle_def op_bind_def Let_def)

section \<open>Properties\<close>

text \<open>
  The configuration.  The macro accepts a list of settings exactly when it has one owner and
  one provider, in any order and position, and takes them; a repeated \<open>http\<close> or \<open>messaging\<close>
  section is not an error: the last one silently replaces the earlier ones.
\<close>

theorem parse_config_spec:
  "case parse_config xs of
     Inl e \<Rightarrow> \<not> (length (owners xs) = 1 \<and> length (providers xs) = 1)
   | Inr cfg \<Rightarrow> owners xs = [gc_owner cfg] \<and> providers xs = [gc_provider cfg] \<and>
       gc_http cfg = last_http xs None \<and> gc_messaging cfg = last_messaging xs None"
proof -
  let ?acc = "\<lparr>ca_owner = None, ca_provider = None, ca_http = None, ca_messaging = None\<rparr>"
  note spec = config_loop_spec [of xs ?acc]
  show ?thesis
  proof (cases "config_loop xs ?acc")
    case (Inl e)
    then show ?thesis using spec by (auto simp: parse_config_def is_ok_iff)
  next
    case (Inr acc)
    then show ?thesis using spec
      by (cases "ca_owner acc"; cases "ca_provider acc") (auto simp: parse_config_def)
  qed
qed

text \<open>
  Message dispatch.  A message goes to the first topic, in the order of the configuration,
  whose pattern occurs anywhere in its topic: its payload is parsed and handled under the
  configured owner and provider with no headers, the handler's error is answered as text, and
  no other handler runs.  A message with no topic or no matching pattern is an error that
  changes nothing; and a topic whose pattern contains an earlier pattern is never reached.
\<close>

theorem message_first_match:
  assumes "\<forall>t \<in> set earlier. \<not> contains (tp_pattern t) topic"
    and "contains (tp_pattern tp) topic"
    and "contains (tp_pattern tp) (tp_pattern hidden)"
  shows "handle_message Rs m0 new show cfg (earlier @ tp # later) (Some topic) payload s =
      op_map_err show (op_bind (handled (Rs (tp_message tp)) m0 new cfg payload) (\<lambda>_. op_return ())) s \<and>
    handle_message Rs m0 new show cfg earlier (Some topic) payload s = (Inl (''unhandled topic: '' @ topic), s) \<and>
    handle_message Rs m0 new show cfg later None payload s = (Inl ''message is missing topic'', s) \<and>
    handle_message Rs m0 new show cfg (tp # later @ hidden # others) (Some any) payload s =
      handle_message Rs m0 new show cfg (tp # later @ others) (Some any) payload s"
proof (intro conjI)
  show "handle_message Rs m0 new show cfg (earlier @ tp # later) (Some topic) payload s =
      op_map_err show (op_bind (handled (Rs (tp_message tp)) m0 new cfg payload) (\<lambda>_. op_return ())) s"
    by (simp add: handle_message_def arms_skip [OF assms(1)] assms(2) op_map_err_def run_processor_run)
  show "handle_message Rs m0 new show cfg earlier (Some topic) payload s = (Inl (''unhandled topic: '' @ topic), s)"
    using arms_skip [OF assms(1), of Rs m0 new "show" cfg "[]" payload] by (simp add: handle_message_def)
  show "handle_message Rs m0 new show cfg later None payload s = (Inl ''message is missing topic'', s)"
    by (simp add: handle_message_def)
  have "contains (tp_pattern hidden) any \<Longrightarrow> contains (tp_pattern tp) any"
    by (rule contains_trans [OF assms(3)])
  then show "handle_message Rs m0 new show cfg (tp # later @ hidden # others) (Some any) payload s =
      handle_message Rs m0 new show cfg (tp # later @ others) (Some any) payload s"
    by (auto simp: handle_message_def arms_append)
qed

text \<open>A guest for the witness: its state is the log of the payload sizes it handled.\<close>

definition demo_guest :: "string \<Rightarrow> (bytes, nat, (string \<times> nat) list, unit, unit, string, unit) handler_ops" where
  "demo_guest name = \<lparr>ho_from_input = (\<lambda>b. if b = [] then Inl ''empty'' else Inr (length b)),
     ho_handle = (\<lambda>n ctx log. (Inr (reply_ok () ()), log @ [(name @ cx_owner ctx, n)]))\<rparr>"

definition demo_config :: guest_config where
  "demo_config = \<lparr>gc_owner = ''at'', gc_provider = ''P'', gc_http = None, gc_messaging = None\<rparr>"

definition demo_topic :: "string \<Rightarrow> string \<Rightarrow> topic" where
  "demo_topic pat message = \<lparr>tp_pattern = pat, tp_message = message, tp_handler = pat\<rparr>"

lemma demo_topic_parsed: "parse_topic ''a'' m = Inr (demo_topic ''a'' m)" "parse_topic ''b'' m = Inr (demo_topic ''b'' m)"
proof -
  have "handler_name ''a'' = Inr ''a''" "handler_name ''b'' = Inr ''b''" by code_simp+
  then show "parse_topic ''a'' m = Inr (demo_topic ''a'' m)" "parse_topic ''b'' m = Inr (demo_topic ''b'' m)"
    by (simp_all add: parse_topic_def demo_topic_def)
qed

theorem message_first_match_witness:
  "handle_message demo_guest () (\<lambda>_. ()) id demo_config
     ([demo_topic ''zz'' ''Z''] @ demo_topic ''r9k'' ''A'' # [demo_topic ''r9k.v1'' ''B''])
     (Some ''dev-r9k.v1'') [1, 2] [] = (Inr (), [(''Aat'', 2)])"
proof -
  have "\<forall>t \<in> set [demo_topic ''zz'' ''Z'']. \<not> contains (tp_pattern t) ''dev-r9k.v1''"
    and "contains (tp_pattern (demo_topic ''r9k'' ''A'')) ''dev-r9k.v1''"
    and "contains (tp_pattern (demo_topic ''r9k'' ''A'')) (tp_pattern (demo_topic ''r9k.v1'' ''B''))"
    by (simp_all add: demo_topic_def)
  from message_first_match [OF this, of demo_guest "()" "\<lambda>_. ()" id demo_config
      "[demo_topic ''r9k.v1'' ''B'']" "[1, 2]" "[]"]
  show ?thesis
    by (simp add: op_map_err_def op_bind_def handled_def demo_guest_def demo_topic_def demo_config_def)
qed

text \<open>
  The HTTP endpoint.  The input is the body for a \<open>post\<close> route, whatever path parameters it
  has, and the path parameters or the raw query for a \<open>get\<close> route; an input that does not
  parse is answered with the error's own status and text before the handler runs, and
  otherwise the answer is the status of the handler's error with its text, or the handler's
  reply: its status and body, with a content type added only when it has none.
\<close>

theorem http_endpoint_answers:
  "(case http_endpoint R http_error_from m0 new cfg
      \<lparr>rt_path = path, rt_params = ps,
       rt_handler = \<lparr>hn_method = ''post'', hn_request = rq, hn_reply = rp, hn_with_body = True, hn_with_query = False\<rparr>, rt_function = f\<rparr>
      req s of (answer, s') \<Rightarrow> (http_result_response H into_body answer, s')) =
   (case handled R m0 new cfg (BodyInput (hi_body req)) s of
      (Inl e, s') \<Rightarrow> (TextResponse (error_status e) (error_display e), s')
    | (Inr r, s') \<Rightarrow> (case into_body (rp_body r) of
        Inl e \<Rightarrow> TextResponse 500 (''body encoding error: '' @ e)
      | Inr body \<Rightarrow> FullResponse (rp_status r)
          (if hd_get H ''content-type'' (rp_headers r) = None
           then hd_insert H ''content-type'' ''text/plain; charset=utf-8'' (rp_headers r)
           else rp_headers r) body, s')) \<and>
   http_endpoint R into m0 new cfg
      \<lparr>rt_path = path, rt_params = ps,
       rt_handler = \<lparr>hn_method = ''get'', hn_request = rq, hn_reply = rp, hn_with_body = False, hn_with_query = wq\<rparr>, rt_function = f\<rparr>
      req s =
   op_map_err into (handled R m0 new cfg
      (if ps \<noteq> []
       then (if length ps = 1 then ParamInput (hd (hi_params req)) else ParamsInput (hi_params req))
       else if wq then QueryInput (hi_query req) else UnitInput)) s"
proof -
  have run: "http_endpoint R g m0 new cfg r req t = op_map_err g (handled R m0 new cfg (endpoint_input r req)) t"
    for g r t
    by (cases "ho_from_input R (endpoint_input r req)")
      (simp_all add: http_endpoint_def handler_for_def handled_def builder_defs rh_handle_def op_bind_def
        op_map_err_def Let_def)
  have input: "endpoint_input \<lparr>rt_path = path, rt_params = ps, rt_handler = h, rt_function = f\<rparr> req =
      (if hn_method h = ''get'' then get_input ps (hn_with_query h) req else post_input (hn_with_body h) req)" for h ps
    by (simp add: endpoint_input_def)
  show ?thesis
    by (simp add: run input get_input_def post_input_def op_map_err_def http_error_into_response_def
        http_error_from_def reply_into_response_def Let_def split: prod.splits sum.splits)
qed

end
