(* ===== verification/MessagingFlow.thy ===== *)
theory MessagingFlow
  imports MessagingServer Capabilities GuestMacro
begin

text \<open>
  A message from end to end: a guest publishes it (theory Capabilities), the host's client sends it
  to the broker (Messaging), the server hands it to a task (MessagingServer), and the guest that
  the \<open>guest!\<close> macro generated runs the handler of its topic (GuestMacro).

  This theory adds the guest side of the call, \<open>handle\<close> of \<open>incoming-handler\<close> on a message of the
  host's table, and what the server does with its answer (\<open>wasi-messaging/src/host/server.rs\<close>):
  \<open>call_handle(\<dots>).await.map(|_| ())\<close> keeps a trap and drops the guest's own result.
\<close>

section \<open>The guest's call\<close>

text \<open>
  \<open>message.topic()\<close> and \<open>message.data()\<close> are calls back into the host, which trap for a bad handle;
  \<open>handler\<close> is the generated match on the topic, which runs in the context's state.
\<close>

definition incoming_handle ::
  "'t msg_table \<Rightarrow> (string option \<Rightarrow> bytes \<Rightarrow> ('w, string, unit) op) \<Rightarrow> nat \<Rightarrow> ('w, 't, string + unit) msg_trap" where
  "incoming_handle T handler message =
     op_bind (msg_topic T message) (\<lambda>topic.
     op_bind (msg_data T message) (\<lambda>payload.
     op_try (on_ctx (handler topic payload)) op_return))"

definition guest_call_handle ::
  "'t msg_table \<Rightarrow> (string option \<Rightarrow> bytes \<Rightarrow> ('w, string, unit) op) \<Rightarrow> nat \<Rightarrow> ('w, 't, unit) msg_trap" where
  "guest_call_handle T handler message = op_bind (incoming_handle T handler message) (\<lambda>_. op_return ())"

section \<open>Lemmas\<close>

lemma incoming_handle_run:
  assumes "t_get T h (cv_table v) = Inr (MProxy m)"
  shows "incoming_handle T handler h v =
    (let (r, w) = handler (if mg_topic (message_of m) = [] then None else Some (mg_topic (message_of m)))
        (mg_payload (message_of m)) (cv_ctx v)
     in (Inr r, v\<lparr>cv_ctx := w\<rparr>))"
  using find_message_ok [OF assms]
  by (simp add: incoming_handle_def msg_topic_def msg_data_def op_bind_def op_try_def on_ctx_def split_def Let_def)

lemma task_handle_run:
  assumes "table_laws T" and "t_push T (MProxy m) t0 = Inr (h, t1)"
  shows "task_handle T t0 (guest_call_handle T handler) m w =
    (Inr (), snd (handler (if mg_topic (message_of m) = [] then None else Some (mg_topic (message_of m)))
      (mg_payload (message_of m)) w))"
proof -
  have "t_get T h t1 = Inr (MProxy m)" using table_push_get(1) [OF assms] .
  then show ?thesis
    by (simp add: task_handle_def server_handle_def push_entry_def assms(2) guest_call_handle_def incoming_handle_run
        op_bind_def op_map_err_def split_def Let_def)
qed

lemma handle_message_first:
  assumes "\<forall>t \<in> set earlier. \<not> contains (tp_pattern t) topic" and "contains (tp_pattern tp) topic"
  shows "handle_message Rs m0 new show cfg (earlier @ tp # later) (Some topic) payload =
    op_map_err show (op_bind (handled (Rs (tp_message tp)) m0 new cfg payload) (\<lambda>_. op_return ()))"
  by (rule ext) (simp add: handle_message_def arms_skip [OF assms(1)] assms(2) op_map_err_def run_processor_run)

section \<open>Properties\<close>

text \<open>
  C9: From publisher to handler.  A message that a guest publishes under a topic reaches the guest
  that subscribes to it: its task runs the handler of the first configured topic whose pattern
  occurs in the published one, under the configured owner and provider, on exactly the
  published payload.  The task ends well whatever that handler answers: its error is dropped.
\<close>

theorem message_end_to_end:
  assumes "table_laws T" and "publisher_send T sender topic message v = (Inr (), v')" and "topic \<noteq> []"
    and "t_push T (MProxy (InMem ((message_from (pm_payload message))\<lparr>mg_topic := topic\<rparr>))) t0 = Inr (h, t1)"
    and "\<forall>t \<in> set earlier. \<not> contains (tp_pattern t) topic" and "contains (tp_pattern tp) topic"
  shows "\<exists>m. sender m (cv_ctx v) = (Inr (), cv_ctx v') \<and>
    task_handle T t0 (guest_call_handle T (handle_message Rs m0 new show cfg (earlier @ tp # later))) m w =
      (Inr (), snd (handled (Rs (tp_message tp)) m0 new cfg (pm_payload message) w))"
proof -
  let ?m = "InMem ((message_from (pm_payload message))\<lparr>mg_topic := topic\<rparr>)"
  let ?handler = "handle_message Rs m0 new show cfg (earlier @ tp # later)"
  have sent: "sender ?m (cv_ctx v) = (Inr (), cv_ctx v')"
    using publisher_sends [OF assms(1,2)] by (simp add: message_from_def)
  have "snd (?handler (Some topic) (pm_payload message) w) =
      snd (handled (Rs (tp_message tp)) m0 new cfg (pm_payload message) w)"
    by (auto simp: handle_message_first [OF assms(5,6)] op_map_err_def op_bind_def split: prod.split sum.split)
  then have "task_handle T t0 (guest_call_handle T ?handler) ?m w =
      (Inr (), snd (handled (Rs (tp_message tp)) m0 new cfg (pm_payload message) w))"
    unfolding task_handle_run [OF assms(1,4)] using assms(3) by (simp add: message_from_def)
  with sent show ?thesis by blast
qed

text \<open>Two guests for two topics; the message is for the second.\<close>

theorem message_end_to_end_witness:
  "\<exists>m. log_sender m [] = (Inr (), [m]) \<and>
    task_handle slot_table [] (guest_call_handle slot_table (handle_message demo_guest () (\<lambda>_. ()) id demo_config
        ([demo_topic ''a'' ''A''] @ demo_topic ''b'' ''B'' # []))) m [] = (Inr (), [(''Bat'', 2)])"
proof -
  let ?pm = "\<lparr>pm_payload = [1, 2], pm_headers = []\<rparr>"
  let ?v = "\<lparr>cv_ctx = [], cv_table = []\<rparr> :: (dyn_message list, msg_entry option list) ctx_view"
  obtain v' where send: "publisher_send slot_table log_sender ''xb'' ?pm ?v = (Inr (), v')"
    by (simp add: publisher_send_def msg_connect_def msg_new_def msg_push_def new_message_def push_entry_def
        producer_send_def get_client_def get_message_def get_entry_def client_send_def log_sender_def on_ctx_def
        slot_table_def slot_get_def op_bind_def op_map_err_def)
  obtain h t1 where push: "t_push slot_table (MProxy (InMem ((message_from (pm_payload ?pm))\<lparr>mg_topic := ''xb''\<rparr>))) [] = Inr (h, t1)"
    by (simp add: slot_table_def)
  have "\<forall>t \<in> set [demo_topic ''a'' ''A'']. \<not> contains (tp_pattern t) ''xb''"
    and "contains (tp_pattern (demo_topic ''b'' ''B'')) ''xb''"
    by (simp_all add: demo_topic_def)
  then obtain m where "log_sender m (cv_ctx ?v) = (Inr (), cv_ctx v')" and
    "task_handle slot_table [] (guest_call_handle slot_table (handle_message demo_guest () (\<lambda>_. ()) id demo_config
        ([demo_topic ''a'' ''A''] @ demo_topic ''b'' ''B'' # []))) m [] =
      (Inr (), snd (handled (demo_guest (tp_message (demo_topic ''b'' ''B''))) () (\<lambda>_. ()) demo_config [1, 2] []))"
    using message_end_to_end [OF slot_table_laws send _ push, of "[demo_topic ''a'' ''A'']" "demo_topic ''b'' ''B''"
        demo_guest "()" "\<lambda>_. ()" id demo_config "[]" "[]"] by auto
  moreover have "snd (handled (demo_guest (tp_message (demo_topic ''b'' ''B''))) () (\<lambda>_. ()) demo_config [1, 2] []) =
      [(''Bat'', 2)]"
    by (simp add: handled_def demo_guest_def demo_topic_def demo_config_def)
  ultimately show ?thesis by (intro exI [of _ m]) (simp add: log_sender_def)
qed

end
