(* ===== verification/Sql.thy ===== *)
theory Sql
  imports ResourceTable StrOps
begin

text \<open>
  wasi-sql: the conversions and row loop of the SQLite backend (\<open>src/host/default_impl.rs\<close>), the
  handlers (\<open>readwrite_impl.rs\<close>, \<open>types_impl.rs\<close>) and the guest's JSON output (\<open>src/guest.rs\<close>).

  SQLite itself (rusqlite) is a parameter: preparing yields the column names or an error,
  executing yields the rows one by one.  Floating-point numbers are abstract: \<open>'f\<close> for \<open>f32\<close>, \<open>'d\<close>
  for \<open>f64\<close> and a widening; so are base64 and the JSON rendering of a float.
\<close>

section \<open>Values\<close>

record formatted_value =
  fv_value :: string
  fv_format :: string

datatype ('f, 'd) data_type =
    Int32 "32 word option"
  | Int64 "64 word option"
  | Uint32 "32 word option"
  | Uint64 "64 word option"
  | Float "'f option"
  | Double "'d option"
  | Str "string option"
  | Boolean "bool option"
  | Date "formatted_value option"
  | Time "formatted_value option"
  | Timestamp "formatted_value option"
  | Binary "bytes option"

datatype 'd sqlite_value = SqNull | SqInteger i64 | SqReal 'd | SqText bytes | SqBlob bytes

definition string_bytes :: "string \<Rightarrow> bytes" where
  "string_bytes s = map (\<lambda>c. of_nat (of_char c)) s"

text \<open>
  \<open>std::str::from_utf8\<close>.  A string of the program stands for its bytes, so a valid byte string is its
  own text; \<open>utf8_valid\<close> is the well-formedness that the standard library checks: no overlong form,
  no surrogate, nothing beyond \<open>U+10FFFF\<close>.
\<close>

definition utf8_cont :: "8 word \<Rightarrow> bool" where
  "utf8_cont b \<longleftrightarrow> 0x80 \<le> b \<and> b \<le> 0xBF"

fun utf8_valid :: "bytes \<Rightarrow> bool" where
  "utf8_valid [] = True"
| "utf8_valid (b # bs) =
     (if b \<le> 0x7F then utf8_valid bs
      else if 0xC2 \<le> b \<and> b \<le> 0xDF then (case bs of
          c # cs \<Rightarrow> utf8_cont c \<and> utf8_valid cs
        | [] \<Rightarrow> False)
      else if 0xE0 \<le> b \<and> b \<le> 0xEF then (case bs of
          c # d # cs \<Rightarrow> utf8_cont c \<and> (b = 0xE0 \<longrightarrow> 0xA0 \<le> c) \<and> (b = 0xED \<longrightarrow> c \<le> 0x9F) \<and> utf8_cont d \<and> utf8_valid cs
        | _ \<Rightarrow> False)
      else if 0xF0 \<le> b \<and> b \<le> 0xF4 then (case bs of
          c # d # e # cs \<Rightarrow> utf8_cont c \<and> (b = 0xF0 \<longrightarrow> 0x90 \<le> c) \<and> (b = 0xF4 \<longrightarrow> c \<le> 0x8F) \<and>
            utf8_cont d \<and> utf8_cont e \<and> utf8_valid cs
        | _ \<Rightarrow> False)
      else False)"

definition bytes_string :: "bytes \<Rightarrow> string" where
  "bytes_string bs = map (\<lambda>b. char_of (unat b)) bs"

definition from_utf8 :: "bytes \<Rightarrow> string option" where
  "from_utf8 bs = (if utf8_valid bs then Some (bytes_string bs) else None)"

lemma bytes_string_roundtrip [simp]: "bytes_string (string_bytes s) = s"
  by (simp add: bytes_string_def string_bytes_def comp_def unat_of_nat)

fun datatype_to_rusqlite_value :: "('f \<Rightarrow> 'd) \<Rightarrow> ('f, 'd) data_type \<Rightarrow> 'd sqlite_value" where
  "datatype_to_rusqlite_value widen (Boolean (Some b)) = SqInteger (if b then 1 else 0)"
| "datatype_to_rusqlite_value widen (Int32 (Some i)) = SqInteger (scast i)"
| "datatype_to_rusqlite_value widen (Int64 (Some i)) = SqInteger i"
| "datatype_to_rusqlite_value widen (Uint32 (Some u)) = SqInteger (ucast u)"
| "datatype_to_rusqlite_value widen (Uint64 (Some u)) = SqInteger u"
| "datatype_to_rusqlite_value widen (Float (Some f)) = SqReal (widen f)"
| "datatype_to_rusqlite_value widen (Double (Some f)) = SqReal f"
| "datatype_to_rusqlite_value widen (Str (Some s)) = SqText (string_bytes s)"
| "datatype_to_rusqlite_value widen (Binary (Some b)) = SqBlob b"
| "datatype_to_rusqlite_value widen _ = SqNull"

fun rusqlite_value_to_datatype ::
  "'d sqlite_value \<Rightarrow> anyhow + ('f, 'd) data_type" where
  "rusqlite_value_to_datatype SqNull = Inr (Str None)"
| "rusqlite_value_to_datatype (SqInteger i) = Inr (Int64 (Some i))"
| "rusqlite_value_to_datatype (SqReal f) = Inr (Double (Some f))"
| "rusqlite_value_to_datatype (SqText t) =
     res_bind (ok_or (Context ''invalid UTF-8 in text value'' (Foreign ''Utf8Error'')) (from_utf8 t))
       (\<lambda>s. Inr (Str (Some s)))"
| "rusqlite_value_to_datatype (SqBlob b) = Inr (Binary (Some b))"

section \<open>The backend\<close>

record ('f, 'd) field =
  fd_name :: string
  fd_value :: "('f, 'd) data_type"

record ('f, 'd) row =
  rw_index :: string
  rw_fields :: "('f, 'd) field list"

text \<open>
  A prepared statement: its column names, the rows that a query with the given parameters
  yields (a failing step ends them), and the effect of executing it.
\<close>

record ('w, 'd) sq_statement =
  st_columns :: "string list"
  st_query :: "'d sqlite_value list \<Rightarrow> ('w, anyhow, (anyhow + 'd sqlite_value list) list) op"
  st_execute :: "'d sqlite_value list \<Rightarrow> ('w, anyhow, nat) op"

record ('w, 'd, 'c) sqlite_ops =
  sq_open :: "string \<Rightarrow> ('w, anyhow, 'c) op"
  sq_prepare :: "'c \<Rightarrow> string \<Rightarrow> ('w, anyhow, ('w, 'd) sq_statement) op"

definition sql_connect_with :: "('w, 'd, 'c) sqlite_ops \<Rightarrow> string \<Rightarrow> ('w, anyhow, string) op" where
  "sql_connect_with Q database = op_map_err (Context ''failed to open SQLite database'')
     (op_bind (sq_open Q database) (\<lambda>_. op_return database))"

definition sql_open :: "('w, 'd, 'c) sqlite_ops \<Rightarrow> string \<Rightarrow> string \<Rightarrow> ('w, anyhow, 'c) op" where
  "sql_open Q database_path name = op_map_err (Context ''failed to open SQLite database'') (sq_open Q database_path)"

fun row_fields ::
  "'d sqlite_value list \<Rightarrow> nat \<Rightarrow> string list \<Rightarrow> anyhow + ('f, 'd) field list" where
  "row_fields cells i [] = Inr []"
| "row_fields cells i (name # names) =
     (if i < length cells then
        res_bind (rusqlite_value_to_datatype (cells ! i)) (\<lambda>x.
        res_bind (row_fields cells (i + 1) names) (\<lambda>fds.
        Inr (\<lparr>fd_name = name, fd_value = x\<rparr> # fds)))
      else Inl (Context ''failed to get column value'' (Foreign ''InvalidColumnIndex'')))"

fun collect_rows ::
  "string list \<Rightarrow> nat \<Rightarrow> (anyhow + 'd sqlite_value list) list
    \<Rightarrow> anyhow + ('f, 'd) row list" where
  "collect_rows names index [] = Inr []"
| "collect_rows names index (Inl e # rows) = Inl (Context ''failed to fetch row'' e)"
| "collect_rows names index (Inr cells # rows) =
     res_bind (row_fields cells 0 names) (\<lambda>fds.
     res_bind (collect_rows names (index + 1) rows) (\<lambda>result_rows.
     Inr (\<lparr>rw_index = nat_str index, rw_fields = fds\<rparr> # result_rows)))"

definition conn_query ::
  "('w, 'd, 'c) sqlite_ops \<Rightarrow> ('f \<Rightarrow> 'd) \<Rightarrow> 'c \<Rightarrow> string \<Rightarrow> ('f, 'd) data_type list
    \<Rightarrow> ('w, anyhow, ('f, 'd) row list) op" where
  "conn_query Q widen conn query params =
     op_bind (op_map_err (Context ''failed to prepare statement'') (sq_prepare Q conn query)) (\<lambda>stmt.
     op_bind (op_map_err (Context ''failed to execute query'')
         (st_query stmt (map (datatype_to_rusqlite_value widen) params))) (\<lambda>rows.
     op_lift (collect_rows (st_columns stmt) 0 rows)))"

text \<open>\<open>rows_affected as u32\<close>\<close>

definition conn_exec ::
  "('w, 'd, 'c) sqlite_ops \<Rightarrow> ('f \<Rightarrow> 'd) \<Rightarrow> 'c \<Rightarrow> string \<Rightarrow> ('f, 'd) data_type list \<Rightarrow> ('w, anyhow, u32) op" where
  "conn_exec Q widen conn query params =
     op_bind (op_map_err (Context ''failed to prepare statement'') (sq_prepare Q conn query)) (\<lambda>stmt.
     op_bind (op_map_err (Context ''failed to execute statement'')
         (st_execute stmt (map (datatype_to_rusqlite_value widen) params))) (\<lambda>rows_affected.
     op_return (of_nat rows_affected)))"

section \<open>The handlers\<close>

record ('f, 'd) statement =
  sm_query :: string
  sm_params :: "('f, 'd) data_type list"

datatype ('c, 'f, 'd) sql_entry = SConn 'c | SStmt "('f, 'd) statement" | SErr anyhow

fun as_conn :: "('c, 'f, 'd) sql_entry \<Rightarrow> 'c option" where
  "as_conn (SConn c) = Some c" | "as_conn _ = None"

fun as_stmt :: "('c, 'f, 'd) sql_entry \<Rightarrow> ('f, 'd) statement option" where
  "as_stmt (SStmt s) = Some s" | "as_stmt _ = None"

fun as_sql_err :: "('c, 'f, 'd) sql_entry \<Rightarrow> anyhow option" where
  "as_sql_err (SErr e) = Some e" | "as_sql_err _ = None"

type_synonym ('w, 't, 'a) sql_call = "(('w, 't) ctx_view, anyhow, 'a) op"

definition sql_find ::
  "('t, ('c, 'f, 'd) sql_entry) table_ops \<Rightarrow> (('c, 'f, 'd) sql_entry \<Rightarrow> 'a option) \<Rightarrow> nat \<Rightarrow> ('w, 't, 'a) sql_call" where
  "sql_find T proj h = op_map_err table_anyhow (get_entry T proj h)"

definition sql_push ::
  "('t, ('c, 'f, 'd) sql_entry) table_ops \<Rightarrow> ('c, 'f, 'd) sql_entry \<Rightarrow> ('w, 't, nat) sql_call" where
  "sql_push T e = op_map_err table_anyhow (push_entry T e)"

text \<open>\<open>match backend.await { Ok(x) => Ok(x), Err(err) => Err(table.push(err)?) }\<close>\<close>

definition or_error_handle ::
  "('t, ('c, 'f, 'd) sql_entry) table_ops \<Rightarrow> ('w, anyhow, 'a) op \<Rightarrow> ('w, 't, nat + 'a) sql_call" where
  "or_error_handle T m = op_try (on_ctx m) (\<lambda>r. case r of
      Inr x \<Rightarrow> op_return (Inr x)
    | Inl err \<Rightarrow> op_bind (sql_push T (SErr err)) (\<lambda>h. op_return (Inl h)))"

definition host_sql_open ::
  "('t, ('c, 'f, 'd) sql_entry) table_ops \<Rightarrow> ('w, 'd, 'c) sqlite_ops \<Rightarrow> string \<Rightarrow> string
    \<Rightarrow> ('w, 't, nat + nat) sql_call" where
  "host_sql_open T Q path name =
     op_bind (or_error_handle T (sql_open Q path name)) (\<lambda>r. case r of
         Inl h \<Rightarrow> op_return (Inl h)
       | Inr conn \<Rightarrow> op_bind (sql_push T (SConn conn)) (\<lambda>h. op_return (Inr h)))"

definition host_prepare ::
  "('t, ('c, 'f, 'd) sql_entry) table_ops \<Rightarrow> string \<Rightarrow> ('f, 'd) data_type list \<Rightarrow> ('w, 't, nat + nat) sql_call" where
  "host_prepare T query params =
     op_bind (sql_push T (SStmt \<lparr>sm_query = query, sm_params = params\<rparr>)) (\<lambda>h. op_return (Inr h))"

definition host_query ::
  "('t, ('c, 'f, 'd) sql_entry) table_ops \<Rightarrow> ('w, 'd, 'c) sqlite_ops \<Rightarrow> ('f \<Rightarrow> 'd) 
    \<Rightarrow> nat \<Rightarrow> nat \<Rightarrow> ('w, 't, nat + ('f, 'd) row list) sql_call" where
  "host_query T Q widen c q =
     op_bind (sql_find T as_conn c) (\<lambda>connection.
     op_bind (sql_find T as_stmt q) (\<lambda>statement.
     or_error_handle T (conn_query Q widen connection (sm_query statement) (sm_params statement))))"

definition host_exec ::
  "('t, ('c, 'f, 'd) sql_entry) table_ops \<Rightarrow> ('w, 'd, 'c) sqlite_ops \<Rightarrow> ('f \<Rightarrow> 'd)
    \<Rightarrow> nat \<Rightarrow> nat \<Rightarrow> ('w, 't, nat + u32) sql_call" where
  "host_exec T Q widen c q =
     op_bind (sql_find T as_conn c) (\<lambda>connection.
     op_bind (sql_find T as_stmt q) (\<lambda>statement.
     or_error_handle T (conn_exec Q widen connection (sm_query statement) (sm_params statement))))"

definition host_trace :: "('t, ('c, 'f, 'd) sql_entry) table_ops \<Rightarrow> nat \<Rightarrow> ('w, 't, string) sql_call" where
  "host_trace T self = op_bind (sql_find T as_sql_err self) (\<lambda>err. op_return (anyhow_display err))"

definition sql_drop :: "('t, ('c, 'f, 'd) sql_entry) table_ops \<Rightarrow> nat \<Rightarrow> ('w, 't, unit) sql_call" where
  "sql_drop T rep = op_map_err table_anyhow (delete_entry T rep)"

section \<open>JSON output of the guest\<close>

datatype 'd json_value = JNull | JBool bool | JInt int | JReal 'd | JString string
  | JArray "'d json_value list" | JObject "(string \<times> 'd json_value) list"

text \<open>\<open>fin\<close> tells whether \<open>Number::from_f64\<close> accepts a float.\<close>

fun field_json :: "('d \<Rightarrow> bool) \<Rightarrow> ('f \<Rightarrow> 'd) \<Rightarrow> (bytes \<Rightarrow> string) \<Rightarrow> ('f, 'd) data_type \<Rightarrow> 'd json_value" where
  "field_json fin widen b64 (Int32 (Some v)) = JInt (sint v)"
| "field_json fin widen b64 (Int64 (Some v)) = JInt (sint v)"
| "field_json fin widen b64 (Uint32 (Some v)) = JInt (uint v)"
| "field_json fin widen b64 (Uint64 (Some v)) = JInt (uint v)"
| "field_json fin widen b64 (Float (Some v)) = (if fin (widen v) then JReal (widen v) else JNull)"
| "field_json fin widen b64 (Double (Some v)) = (if fin v then JReal v else JNull)"
| "field_json fin widen b64 (Str (Some v)) = JString v"
| "field_json fin widen b64 (Boolean (Some v)) = JBool v"
| "field_json fin widen b64 (Date (Some v)) = JString (fv_value v)"
| "field_json fin widen b64 (Time (Some v)) = JString (fv_value v)"
| "field_json fin widen b64 (Timestamp (Some v)) = JString (fv_value v)"
| "field_json fin widen b64 (Binary (Some v)) = JString (b64 v)"
| "field_json fin widen b64 _ = JNull"

definition row_object ::
  "('d \<Rightarrow> bool) \<Rightarrow> ('f \<Rightarrow> 'd) \<Rightarrow> (bytes \<Rightarrow> string) \<Rightarrow> ('f, 'd) field list \<Rightarrow> (string, 'd json_value) hashmap" where
  "row_object fin widen b64 fds =
     fold (\<lambda>f m. hm_insert (fd_name f) (field_json fin widen b64 (fd_value f)) m) fds []"

definition into_json ::
  "('d \<Rightarrow> bool) \<Rightarrow> ('f \<Rightarrow> 'd) \<Rightarrow> (bytes \<Rightarrow> string) \<Rightarrow> ('f, 'd) row list \<Rightarrow> 'd json_value" where
  "into_json fin widen b64 rows =
     JArray (map (\<lambda>r. JObject (row_object fin widen b64 (rw_fields r))) rows)"

section \<open>Lemmas\<close>

lemma row_fields_names:
  "row_fields cells i names = Inr fds \<Longrightarrow> map fd_name fds = names \<and> i + length names \<le> max i (length cells)"
  by (induction names arbitrary: i fds) (fastforce simp: res_bind_Inr_iff split: if_splits)+

lemma row_fields_values:
  "row_fields cells i names = Inr fds \<Longrightarrow> j < length names \<Longrightarrow>
     rusqlite_value_to_datatype (cells ! (i + j)) = Inr (fd_value (fds ! j))"
proof (induction names arbitrary: i fds j)
  case Nil
  then show ?case by simp
next
  case (Cons name names)
  then obtain x fs where x: "rusqlite_value_to_datatype (cells ! i) = Inr x"
      "row_fields cells (i + 1) names = Inr fs" "fds = \<lparr>fd_name = name, fd_value = x\<rparr> # fs"
    by (auto simp: res_bind_Inr_iff split: if_splits)
  show ?case
  proof (cases j)
    case 0
    then show ?thesis using x by simp
  next
    case (Suc k)
    then show ?thesis using Cons.IH [OF x(2), of k] Cons.prems(2) x(3) by simp
  qed
qed

lemma collect_rows_shape:
  "collect_rows names n items = Inr rows \<Longrightarrow>
     (\<exists>cells. items = map Inr cells \<and> length rows = length cells \<and>
       (\<forall>i < length rows. rw_index (rows ! i) = nat_str (n + i) \<and>
          row_fields (cells ! i) 0 names = Inr (rw_fields (rows ! i))))"
proof (induction items arbitrary: n rows)
  case Nil
  then show ?case by simp
next
  case (Cons item items)
  then obtain cells fds rs where r: "item = Inr cells" "row_fields cells 0 names = Inr fds"
      "collect_rows names (n + 1) items = Inr rs" "rows = \<lparr>rw_index = nat_str n, rw_fields = fds\<rparr> # rs"
    by (cases item) (auto simp: res_bind_Inr_iff)
  obtain cs where cs: "items = map Inr cs" "length rs = length cs"
      "\<forall>i < length rs. rw_index (rs ! i) = nat_str (n + 1 + i) \<and>
          row_fields (cs ! i) 0 names = Inr (rw_fields (rs ! i))"
    using Cons.IH [OF r(3)] by blast
  show ?case
    using cs r by (intro exI [of _ "cells # cs"]) (auto simp: nth_Cons split: nat.splits)
qed

lemma row_object_get:
  "hm_get (row_object fin widen b64 fds) =
     map_of (rev (map (\<lambda>f. (fd_name f, field_json fin widen b64 (fd_value f))) fds))"
proof -
  have "fold (\<lambda>f m. hm_insert (fd_name f) (field_json fin widen b64 (fd_value f)) m) fds [] =
      fold (\<lambda>(k, x). hm_insert k x) (map (\<lambda>f. (fd_name f, field_json fin widen b64 (fd_value f))) fds) []"
    by (simp add: fold_map comp_def)
  then show ?thesis by (simp add: row_object_def hm_fold_insert del: rev_map)
qed

section \<open>Properties\<close>

text \<open>
  C6: Parameters and results.  A query whose statement returns its parameters, one per column, gives
  one row, numbered 0, with a field per column that holds what the parameter reads back as:
  integers as signed 64-bit values (an unsigned 64-bit value keeps its bits, so from \<open>2 ^ 63\<close> on it
  reads back negative), booleans as 0 and 1, single floats widened, text and binary themselves,
  every absent value as an absent text, and so every date, time and timestamp that is present, and
  a NaN, which SQLite stores as \<open>NULL\<close>.  Such a statement, \<open>SELECT ?1, ?2, \<dots>\<close>, gives its values no column
  affinity; \<open>echoes\<close> is what SQLite documents of it.  The strings of parameters are valid UTF-8, as
  every \<open>String\<close> of Rust is.
\<close>

definition bound_value :: "('d \<Rightarrow> bool) \<Rightarrow> 'd sqlite_value \<Rightarrow> 'd sqlite_value" where
  "bound_value nan x = (case x of SqReal d \<Rightarrow> (if nan d then SqNull else x) | _ \<Rightarrow> x)"

definition echoes :: "('d \<Rightarrow> bool) \<Rightarrow> ('w, 'd) sq_statement \<Rightarrow> bool" where
  "echoes nan stmt \<longleftrightarrow> (\<forall>ps w. length ps = length (st_columns stmt) \<longrightarrow>
     (\<exists>w'. st_query stmt ps w = (Inr [Inr (map (bound_value nan) ps)], w')))"

definition rust_text :: "('f, 'd) data_type \<Rightarrow> bool" where
  "rust_text p = (case p of Str (Some s) \<Rightarrow> utf8_valid (string_bytes s) | _ \<Rightarrow> True)"

lemma nat_str_0: "nat_str 0 = ''0''"
  by code_simp

lemma row_fields_all:
  assumes "length xs = length names" and "i + length names \<le> length cells"
    and "\<And>j. j < length names \<Longrightarrow> rusqlite_value_to_datatype (cells ! (i + j)) = Inr (xs ! j)"
  shows "row_fields cells i names = Inr (map (\<lambda>(name, x). \<lparr>fd_name = name, fd_value = x\<rparr>) (zip names xs))"
  using assms
proof (induction names arbitrary: i xs)
  case Nil
  then show ?case by simp
next
  case (Cons name names)
  then obtain x ys where xs: "xs = x # ys" "length ys = length names" by (cases xs) auto
  have "rusqlite_value_to_datatype (cells ! i) = Inr x" using Cons.prems(3) [of 0] xs(1) by simp
  moreover have "row_fields cells (i + 1) names = Inr (map (\<lambda>(name, x). \<lparr>fd_name = name, fd_value = x\<rparr>) (zip names ys))"
  proof (rule Cons.IH [OF xs(2)])
    show "i + 1 + length names \<le> length cells" using Cons.prems(2) by simp
    show "rusqlite_value_to_datatype (cells ! (i + 1 + j)) = Inr (ys ! j)" if "j < length names" for j
      using Cons.prems(3) [of "Suc j"] that xs(1) by simp
  qed
  ultimately show ?case using Cons.prems(2) by (simp add: xs(1))
qed

theorem sql_value_roundtrip:
  assumes "sq_prepare Q conn query w = (Inr stmt, w1)" and "echoes nan stmt"
    and "length params = length (st_columns stmt)" and "list_all rust_text params"
  shows "\<exists>w'. conn_query Q widen conn query params w = (Inr [\<lparr>rw_index = ''0'', rw_fields =
    map (\<lambda>(name, p). \<lparr>fd_name = name, fd_value = (case p of
        Boolean (Some b) \<Rightarrow> Int64 (Some (if b then 1 else 0))
      | Int32 (Some i) \<Rightarrow> Int64 (Some (word_of_int (sint i)))
      | Int64 (Some i) \<Rightarrow> Int64 (Some i)
      | Uint32 (Some u) \<Rightarrow> Int64 (Some (word_of_int (uint u)))
      | Uint64 (Some u) \<Rightarrow> Int64 (Some u)
      | Float (Some f) \<Rightarrow> (if nan (widen f) then Str None else Double (Some (widen f)))
      | Double (Some d) \<Rightarrow> (if nan d then Str None else Double (Some d))
      | Str (Some s) \<Rightarrow> Str (Some s)
      | Binary (Some b) \<Rightarrow> Binary (Some b)
      | _ \<Rightarrow> Str None)\<rparr>) (zip (st_columns stmt) params)\<rparr>], w')"
    (is "\<exists>w'. _ = (Inr [\<lparr>rw_index = _, rw_fields = map (\<lambda>(name, p). \<lparr>fd_name = name, fd_value = ?back p\<rparr>) _\<rparr>], w')")
proof -
  let ?cells = "map (bound_value nan) (map (datatype_to_rusqlite_value widen) params)"
  obtain w' where run: "st_query stmt (map (datatype_to_rusqlite_value widen) params) w1 = (Inr [Inr ?cells], w')"
    using assms(2,3) unfolding echoes_def by (metis length_map)
  have cell: "rusqlite_value_to_datatype (bound_value nan (datatype_to_rusqlite_value widen p)) = Inr (?back p)"
    if "rust_text p" for p
    using that by (cases p) (auto simp: bound_value_def rust_text_def from_utf8_def split: option.splits)
  have "row_fields ?cells 0 (st_columns stmt) =
      Inr (map (\<lambda>(name, x). \<lparr>fd_name = name, fd_value = x\<rparr>) (zip (st_columns stmt) (map ?back params)))"
    using assms(3,4) cell by (intro row_fields_all) (simp_all add: list_all_length)
  with assms(1) run show ?thesis
    by (simp add: conn_query_def zip_map2 comp_def case_prod_unfold nat_str_0)
qed

definition echo_sqlite :: "(unit, int, unit) sqlite_ops" where
  "echo_sqlite = \<lparr>sq_open = (\<lambda>_. op_return ()),
     sq_prepare = (\<lambda>_ q. op_return \<lparr>st_columns = [''a'', ''b'', ''c''],
       st_query = (\<lambda>ps. op_return [Inr (map (bound_value (\<lambda>d. d < 0)) ps)]), st_execute = (\<lambda>ps. op_return 0)\<rparr>)\<rparr>"

theorem sql_value_roundtrip_witness:
  "fst (conn_query echo_sqlite (\<lambda>f :: int. f) () ''SELECT ?1, ?2, ?3''
      [Uint32 (Some 0xFFFFFFFF), Str (Some ''ok''), Timestamp (Some \<lparr>fv_value = ''2024-01-01'', fv_format = ''%F''\<rparr>)] ()) =
    Inr [\<lparr>rw_index = ''0'', rw_fields = [\<lparr>fd_name = ''a'', fd_value = Int64 (Some 0xFFFFFFFF)\<rparr>,
      \<lparr>fd_name = ''b'', fd_value = Str (Some ''ok'')\<rparr>, \<lparr>fd_name = ''c'', fd_value = Str None\<rparr>]\<rparr>]"
proof -
  let ?ps = "[Uint32 (Some 0xFFFFFFFF), Str (Some ''ok''), Timestamp (Some \<lparr>fv_value = ''2024-01-01'', fv_format = ''%F''\<rparr>)]
    :: (int, int) data_type list"
  let ?stmt = "\<lparr>st_columns = [''a'', ''b'', ''c''], st_query = (\<lambda>ps. op_return [Inr (map (bound_value (\<lambda>d. d < 0)) ps)]),
    st_execute = (\<lambda>ps. op_return 0)\<rparr> :: (unit, int) sq_statement"
  have prep: "sq_prepare echo_sqlite () ''SELECT ?1, ?2, ?3'' () = (Inr ?stmt, ())" by (simp add: echo_sqlite_def)
  have echo: "echoes (\<lambda>d. d < 0) ?stmt" by (simp add: echoes_def)
  have cols: "length ?ps = length (st_columns ?stmt)" by simp
  have texts: "list_all rust_text ?ps" by (simp add: rust_text_def string_bytes_def)
  obtain w' where "conn_query echo_sqlite (\<lambda>f :: int. f) () ''SELECT ?1, ?2, ?3'' ?ps () = (Inr [\<lparr>rw_index = ''0'', rw_fields =
      [\<lparr>fd_name = ''a'', fd_value = Int64 (Some 0xFFFFFFFF)\<rparr>,
       \<lparr>fd_name = ''b'', fd_value = Str (Some ''ok'')\<rparr>, \<lparr>fd_name = ''c'', fd_value = Str None\<rparr>]\<rparr>], w')"
    using sql_value_roundtrip [OF prep echo cols texts, of "\<lambda>f. f"] by auto
  then show ?thesis by simp
qed

text \<open>
  Rows of a query.  A successful query delivered every row without a fetch error; the
  result has one row per delivered row, in order, numbered in decimal from 0, with one field
  per column, named as the columns are and holding the converted cell.
\<close>

theorem conn_query_rows:
  assumes "conn_query Q widen conn query params w = (Inr rows, w')"
  shows "\<exists>stmt w1 cells. sq_prepare Q conn query w = (Inr stmt, w1) \<and>
    st_query stmt (map (datatype_to_rusqlite_value widen) params) w1 = (Inr (map Inr cells), w') \<and>
    length rows = length cells \<and>
    (\<forall>i < length rows. rw_index (rows ! i) = nat_str i \<and>
       map fd_name (rw_fields (rows ! i)) = st_columns stmt \<and>
       (\<forall>j < length (st_columns stmt). rusqlite_value_to_datatype (cells ! i ! j) =
          Inr (fd_value (rw_fields (rows ! i) ! j))))"
proof -
  obtain stmt w1 items where s: "sq_prepare Q conn query w = (Inr stmt, w1)"
      "st_query stmt (map (datatype_to_rusqlite_value widen) params) w1 = (Inr items, w')"
      "collect_rows (st_columns stmt) 0 items = Inr rows"
    using assms by (auto simp: conn_query_def op_bind_Inr op_lift_def)
  obtain cells where c: "items = map Inr cells" "length rows = length cells"
      "\<forall>i < length rows. rw_index (rows ! i) = nat_str (0 + i) \<and>
          row_fields (cells ! i) 0 (st_columns stmt) = Inr (rw_fields (rows ! i))"
    using collect_rows_shape [OF s(3)] by blast
  have "map fd_name (rw_fields (rows ! i)) = st_columns stmt \<and>
       (\<forall>j < length (st_columns stmt). rusqlite_value_to_datatype (cells ! i ! j) =
          Inr (fd_value (rw_fields (rows ! i) ! j)))" if "i < length rows" for i
  proof -
    have f: "row_fields (cells ! i) 0 (st_columns stmt) = Inr (rw_fields (rows ! i))"
      using c(3) that by simp
    show ?thesis using row_fields_names [OF f] row_fields_values [OF f] by simp
  qed
  with s(1,2) c show ?thesis by auto
qed

definition demo_sqlite :: "(unit, int, unit) sqlite_ops" where
  "demo_sqlite = \<lparr>sq_open = (\<lambda>_. op_return ()),
     sq_prepare = (\<lambda>_ q. if q = ''bad'' then op_fail (Foreign ''syntax error'') else
       op_return \<lparr>st_columns = [''a'', ''b''],
         st_query = (\<lambda>ps. op_return [Inr (take 2 ps), Inr [SqNull, SqInteger 5]]),
         st_execute = (\<lambda>ps. op_return 3)\<rparr>)\<rparr>"

lemma demo_query:
  "conn_query demo_sqlite (\<lambda>f. f :: int) () ''q'' [Boolean (Some True), Int64 None] () =
    (Inr [\<lparr>rw_index = nat_str 0, rw_fields = [\<lparr>fd_name = ''a'', fd_value = Int64 (Some 1)\<rparr>, \<lparr>fd_name = ''b'', fd_value = Str None\<rparr>]\<rparr>,
          \<lparr>rw_index = nat_str 1, rw_fields = [\<lparr>fd_name = ''a'', fd_value = Str None\<rparr>, \<lparr>fd_name = ''b'', fd_value = Int64 (Some 5)\<rparr>]\<rparr>], ())"
  by (simp add: conn_query_def demo_sqlite_def)

theorem conn_query_rows_witness:
  "\<exists>rows stmt w1. conn_query demo_sqlite (\<lambda>f. f :: int) () ''q'' [Boolean (Some True), Int64 None] () = (Inr rows, ()) \<and>
     sq_prepare demo_sqlite () ''q'' () = (Inr stmt, w1) \<and> length rows = 2 \<and> rw_index (rows ! 1) = nat_str 1"
proof -
  obtain stmt w1 where "sq_prepare demo_sqlite () ''q'' () = (Inr stmt, w1)"
    using conn_query_rows [OF demo_query] by blast
  then show ?thesis using demo_query by (intro exI conjI) (assumption | simp)+
qed

text \<open>
  Errors of the database reach the guest as error handles.  With valid connection and
  statement handles, a query that the backend answers returns its rows and leaves the table
  alone; one that it refuses returns a handle that was not in use, on which \<open>trace\<close> gives the
  outermost message of the error only, not the cause SQLite reported.
\<close>

theorem host_query_outcome:
  assumes "t_get T c (cv_table v) = Inr (SConn conn)" and "t_get T q (cv_table v) = Inr (SStmt s)"
    and "conn_query Q widen conn (sm_query s) (sm_params s) (cv_ctx v) = (r, w)"
    and "table_laws T"
  shows "case r of
      Inr rows \<Rightarrow> host_query T Q widen c q v = (Inr (Inr rows), v\<lparr>cv_ctx := w\<rparr>)
    | Inl err \<Rightarrow> (\<forall>h v'. host_query T Q widen c q v = (Inr (Inl h), v') \<longrightarrow>
        cv_ctx v' = w \<and> t_get T h (cv_table v) = Inl NotPresent \<and>
        host_trace T h v' = (Inr (anyhow_display err), v'))"
proof (cases r)
  case (Inr rows)
  then show ?thesis
    using assms(1-3) by (simp add: host_query_def sql_find_def get_entry_def or_error_handle_def)
next
  case (Inl err)
  have "cv_ctx v' = w \<and> t_get T h (cv_table v) = Inl NotPresent \<and> host_trace T h v' = (Inr (anyhow_display err), v')"
    if run: "host_query T Q widen c q v = (Inr (Inl h), v')" for h v'
  proof -
    obtain t where t: "t_push T (SErr err) (cv_table v) = Inr (h, t)" "v' = v\<lparr>cv_ctx := w, cv_table := t\<rparr>"
      using run assms(1-3) Inl
      by (auto simp: host_query_def sql_find_def get_entry_def or_error_handle_def op_bind_Inr sql_push_def
          push_entry_Inr)
    then show ?thesis
      using table_push_get(1,2) [OF assms(4) t(1)]
      by (simp add: host_trace_def sql_find_def get_entry_def)
  qed
  with Inl show ?thesis by simp
qed

definition demo_sql_view :: "(unit, (unit, int, int) sql_entry option list) ctx_view" where
  "demo_sql_view = \<lparr>cv_ctx = (), cv_table = [Some (SConn ()), Some (SStmt \<lparr>sm_query = ''bad'', sm_params = []\<rparr>)]\<rparr>"

theorem host_query_outcome_witness:
  "\<exists>h v'. host_query slot_table demo_sqlite (\<lambda>f. f) 0 1 demo_sql_view = (Inr (Inl h), v') \<and>
     host_trace slot_table h v' = (Inr ''failed to prepare statement'', v')"
proof -
  have t: "t_get slot_table 0 (cv_table demo_sql_view) = Inr (SConn ())"
      "t_get slot_table 1 (cv_table demo_sql_view) = Inr (SStmt \<lparr>sm_query = ''bad'', sm_params = []\<rparr>)"
    by (simp_all add: demo_sql_view_def slot_table_def slot_get_def)
  have q: "conn_query demo_sqlite (\<lambda>f. f) () (sm_query \<lparr>sm_query = ''bad'', sm_params = ([] :: (int, int) data_type list)\<rparr>)
      (sm_params \<lparr>sm_query = ''bad'', sm_params = []\<rparr>) (cv_ctx demo_sql_view) =
      (Inl (Context ''failed to prepare statement'' (Foreign ''syntax error'')), ())"
    by (simp add: conn_query_def demo_sqlite_def)
  have "\<exists>h v'. host_query slot_table demo_sqlite (\<lambda>f. f) 0 1 demo_sql_view = (Inr (Inl h), v')"
    using q t by (simp add: host_query_def sql_find_def get_entry_def or_error_handle_def sql_push_def
        push_entry_def slot_table_def)
  then obtain h v' where r: "host_query slot_table demo_sqlite (\<lambda>f. f) 0 1 demo_sql_view = (Inr (Inl h), v')"
    by blast
  with host_query_outcome [OF t q slot_table_laws] show ?thesis by auto
qed

text \<open>
  JSON rows.  \<open>into_json\<close> gives one object per row, in order; in it a name has the value of
  the last column of that name (an earlier column of the same name is lost) and no other name
  occurs.
\<close>

theorem into_json_objects:
  "\<exists>objs. into_json fin widen b64 rows = JArray (map JObject objs) \<and>
    map hm_get objs =
      map (\<lambda>row. map_of (rev (map (\<lambda>f. (fd_name f, field_json fin widen b64 (fd_value f))) (rw_fields row)))) rows"
  by (rule exI [of _ "map (\<lambda>r. row_object fin widen b64 (rw_fields r)) rows"])
    (simp add: into_json_def row_object_get comp_def del: rev_map)

end
