(* ===== verification/WebSockets.thy ===== *)
theory WebSockets
  imports ResourceTable StrOps HttpHeaders
begin

text \<open>
  wasi-websockets: the server with its peer map (\<open>src/host/server.rs\<close>), the default backend
  (\<open>src/host/default_impl.rs\<close>) and the handlers (\<open>src/host/store_impl.rs\<close>).

  Outside the source: socket addresses (printing, parsing and the loopback test), the JSON
  codec of \<open>PublishMessage\<close> and the accept key; they are the record \<open>ws_env\<close>.  The unbounded
  channel of a peer is a number, and the state records what was sent to each, in order.
\<close>

record publish_message =
  pm_peers :: string
  pm_content :: string

record 'a ws_env =
  we_parse :: "string \<Rightarrow> 'a option"
  we_show :: "'a \<Rightarrow> string"
  we_loopback :: "'a \<Rightarrow> bool"
  we_to_json :: "publish_message \<Rightarrow> string"
  we_from_json :: "string \<Rightarrow> publish_message option"
  we_is_json :: "string \<Rightarrow> bool"

definition ws_env_laws :: "'a ws_env \<Rightarrow> bool" where
  "ws_env_laws E \<longleftrightarrow> (\<forall>m. we_from_json E (we_to_json E m) = Some m) \<and>
     (\<forall>a. we_parse E (we_show E a) = Some a \<and> CHR '','' \<notin> set (we_show E a)) \<and>
     we_parse E [] = None \<and> we_parse E ''all'' = None"

record peer_info =
  pi_is_service :: bool
  pi_query :: string
  pi_sender :: nat

record 'a ws_state =
  ws_peers :: "('a, peer_info) hashmap option"   \<comment> \<open>\<open>None\<close> before the server runs\<close>
  ws_sent :: "(nat \<times> string) list"

definition get_peer_map :: "'a ws_state \<Rightarrow> anyhow + ('a, peer_info) hashmap" where
  "get_peer_map s = ok_or (Anyhow ''Peer map not initialized'') (ws_peers s)"

section \<open>Sending\<close>

definition recipients :: "'a ws_env \<Rightarrow> string \<Rightarrow> ('a, peer_info) hashmap \<Rightarrow> peer_info list" where
  "recipients E targets peers =
     (if targets = ''all'' then map snd peers
      else (let target_peers = List.map_filter (we_parse E) (split_on CHR '','' targets)
            in List.map_filter (hm_get peers) target_peers))"

fun deliver :: "string \<Rightarrow> peer_info list \<Rightarrow> 'a ws_state \<Rightarrow> 'a ws_state" where
  "deliver content [] s = s"
| "deliver content (recp # recps) s =
     (if pi_is_service recp then deliver content recps s
      else deliver content recps (s\<lparr>ws_sent := ws_sent s @ [(pi_sender recp, content)]\<rparr>))"

definition send_message :: "'a ws_env \<Rightarrow> string \<Rightarrow> ('a ws_state, anyhow, unit) op" where
  "send_message E text s = (case we_from_json E text of
      None \<Rightarrow> (Inr (), s)
    | Some message \<Rightarrow> (case get_peer_map s of
          Inl e \<Rightarrow> (Inl e, s)
        | Inr peers \<Rightarrow> (Inr (), deliver (pm_content message) (recipients E (pm_peers message) peers) s)))"

record ws_peer =
  wp_address :: string
  wp_query :: string

definition ws_get_peers :: "'a ws_env \<Rightarrow> 'a ws_state \<Rightarrow> ws_peer list" where
  "ws_get_peers E s = (case get_peer_map s of
      Inl e \<Rightarrow> []
    | Inr peers \<Rightarrow> map (\<lambda>(key, peer). \<lparr>wp_address = we_show E key, wp_query = pi_query peer\<rparr>)
        (filter (\<lambda>(_, peer). \<not> pi_is_service peer) peers))"

definition ws_send_peers :: "'a ws_env \<Rightarrow> string \<Rightarrow> string list \<Rightarrow> ('a ws_state, anyhow, unit) op" where
  "ws_send_peers E message peers =
     send_message E (we_to_json E \<lparr>pm_peers = join '','' peers, pm_content = message\<rparr>)"

definition ws_send_all :: "'a ws_env \<Rightarrow> string \<Rightarrow> ('a ws_state, anyhow, unit) op" where
  "ws_send_all E message = send_message E (we_to_json E \<lparr>pm_peers = ''all'', pm_content = message\<rparr>)"

section \<open>Connections\<close>

datatype ws_message = WsText string | WsPing bytes | WsOther

definition register_peer :: "'a ws_env \<Rightarrow> 'a \<Rightarrow> nat \<Rightarrow> ('a, peer_info) hashmap \<Rightarrow> ('a, peer_info) hashmap" where
  "register_peer E peer tx = hm_insert peer \<lparr>pi_is_service = we_loopback E peer, pi_query = [], pi_sender = tx\<rparr>"

text \<open>One incoming message: the new peer map, or the end of the connection.\<close>

definition incoming_message ::
  "'a ws_env \<Rightarrow> 'a \<Rightarrow> ws_message \<Rightarrow> ('a, peer_info) hashmap \<Rightarrow> ('a, peer_info) hashmap option" where
  "incoming_message E peer msg peers =
     (if we_loopback E peer then Some peers
      else (case msg of
          WsText text \<Rightarrow>
            if we_is_json E text then
              Some (case hm_get peers peer of
                  Some peer_info \<Rightarrow> hm_insert peer (peer_info\<lparr>pi_query := text\<rparr>) peers
                | None \<Rightarrow> peers)
            else None
        | _ \<Rightarrow> Some peers))"

fun incoming_loop ::
  "'a ws_env \<Rightarrow> 'a \<Rightarrow> ws_message list \<Rightarrow> ('a, peer_info) hashmap \<Rightarrow> ('a, peer_info) hashmap" where
  "incoming_loop E peer [] peers = peers"
| "incoming_loop E peer (msg # msgs) peers = (case incoming_message E peer msg peers of
      None \<Rightarrow> peers
    | Some peers' \<Rightarrow> incoming_loop E peer msgs peers')"

text \<open>A connection from its registration to its removal, with the messages that arrive on it.\<close>

definition accept_connection ::
  "'a ws_env \<Rightarrow> 'a \<Rightarrow> nat \<Rightarrow> ws_message list \<Rightarrow> ('a, peer_info) hashmap \<Rightarrow> ('a, peer_info) hashmap" where
  "accept_connection E peer tx msgs peers =
     hm_remove peer (incoming_loop E peer msgs (register_peer E peer tx peers))"

record 'm upgrade_request =
  ur_method :: string
  ur_http11 :: bool      \<comment> \<open>the version is at least HTTP/1.1\<close>
  ur_uri :: string
  ur_headers :: 'm

definition header_text_is :: "'m header_ops \<Rightarrow> string \<Rightarrow> (string \<Rightarrow> bool) \<Rightarrow> 'm \<Rightarrow> bool" where
  "header_text_is H name P headers = (case Option.bind (hd_get H name headers) (hd_to_str H) of
      None \<Rightarrow> False | Some text \<Rightarrow> P text)"

definition wants_upgrade :: "'m header_ops \<Rightarrow> 'm upgrade_request \<Rightarrow> bool" where
  "wants_upgrade H req \<longleftrightarrow>
     \<not> (ur_method req \<noteq> ''GET'' \<or> \<not> ur_http11 req \<or>
        \<not> header_text_is H ''connection'' (\<lambda>h. list_ex (\<lambda>p. eq_ignore_ascii_case p ''Upgrade'')
            (split_by (\<lambda>c. c = CHR '' '' \<or> c = CHR '','') h)) (ur_headers req) \<or>
        \<not> header_text_is H ''upgrade'' (\<lambda>h. eq_ignore_ascii_case h ''websocket'') (ur_headers req) \<or>
        hd_get H ''sec-websocket-version'' (ur_headers req) \<noteq> Some ''13'' \<or>
        hd_get H ''sec-websocket-key'' (ur_headers req) = None \<or>
        ur_uri req \<noteq> ''/'')"

text \<open>
  The response, and whether a connection is accepted; \<open>derive\<close> is \<open>derive_accept_key\<close> and \<open>m0\<close>
  the empty header map of a new response, where the code's \<open>append\<close> of three different names
  is an insertion.
\<close>

definition ws_handle_request ::
  "'m header_ops \<Rightarrow> (string \<Rightarrow> string) \<Rightarrow> bytes \<Rightarrow> 'm \<Rightarrow> 'm upgrade_request \<Rightarrow> 'm response \<times> bool" where
  "ws_handle_request H derive refusal m0 req =
     (case hd_get H ''sec-websocket-key'' (ur_headers req) of
        Some key \<Rightarrow>
          if wants_upgrade H req then
            (\<lparr>rs_status = 101,
              rs_headers = hd_insert H ''sec-websocket-accept'' (derive key)
                (hd_insert H ''upgrade'' ''websocket'' (hd_insert H ''connection'' ''Upgrade'' m0)),
              rs_body = []\<rparr>, True)
          else (\<lparr>rs_status = 400, rs_headers = m0, rs_body = refusal\<rparr>, False)
      | None \<Rightarrow> (\<lparr>rs_status = 400, rs_headers = m0, rs_body = refusal\<rparr>, False))"

section \<open>Starting and checking the server\<close>

text \<open>
  \<open>run_server\<close> sets \<open>PEER_MAP\<close>, which keeps an earlier value, before it accepts connections.
\<close>

definition run_server_start :: "'a ws_state \<Rightarrow> 'a ws_state" where
  "run_server_start s = (case ws_peers s of None \<Rightarrow> s\<lparr>ws_peers := Some []\<rparr> | Some _ \<Rightarrow> s)"

definition ws_address :: "(string, string) hashmap \<Rightarrow> string" where
  "ws_address env = (case hm_get env ''WEBSOCKETS_ADDR'' of None \<Rightarrow> ''0.0.0.0:80'' | Some addr \<Rightarrow> addr)"

text \<open>
  The health check: the client of the server's own service is connected once and kept in the cell
  \<open>SERVICE_CLIENT\<close>; a failing connection panics.  \<open>connect\<close> and \<open>ping\<close> are the network's, in the
  second half of the state.
\<close>

datatype ws_fault = WsErr anyhow | WsPanic

definition service_client ::
  "(string \<Rightarrow> ('n, anyhow, 'c) op) \<Rightarrow> (string, string) hashmap \<Rightarrow> ('c option \<times> 'n, ws_fault, 'c) op" where
  "service_client connect env s = (case fst s of
      Some client \<Rightarrow> (Inr client, s)
    | None \<Rightarrow> (case connect (''ws://'' @ ws_address env) (snd s) of
          (Inl e, n) \<Rightarrow> (Inl WsPanic, (None, n))
        | (Inr client, n) \<Rightarrow> (Inr client, (Some client, n))))"

definition ws_health_check ::
  "(string \<Rightarrow> ('n, anyhow, 'c) op) \<Rightarrow> ('c \<Rightarrow> ('n, anyhow, unit) op) \<Rightarrow> (string, string) hashmap \<Rightarrow>
   ('c option \<times> 'n, ws_fault, string) op" where
  "ws_health_check connect ping env = op_bind (service_client connect env) (\<lambda>client (cell, n).
     case ping client n of
       (Inl e, n') \<Rightarrow> (Inl (WsErr e), (cell, n'))
     | (Inr _, n') \<Rightarrow> (Inr ''websockets service is healthy'', (cell, n')))"

section \<open>The handlers\<close>

datatype ws_entry = WsServer | WsNotServer

fun as_server :: "ws_entry \<Rightarrow> unit option" where
  "as_server WsServer = Some ()" | "as_server WsNotServer = None"

type_synonym ('a, 't, 'r) ws_call = "(('a ws_state, 't) ctx_view, anyhow, 'r) op"

definition host_get_server :: "('t, ws_entry) table_ops \<Rightarrow> ('a, 't, nat) ws_call" where
  "host_get_server T = op_map_err table_anyhow (push_entry T WsServer)"

definition use_server :: "('t, ws_entry) table_ops \<Rightarrow> nat \<Rightarrow> (('w, 't) ctx_view, anyhow, unit) op" where
  "use_server T self = op_map_err (\<lambda>e. Context ''Failed to get WebSocket server'' (table_anyhow e))
     (get_entry T as_server self)"

definition host_get_peers :: "'a ws_env \<Rightarrow> ('t, ws_entry) table_ops \<Rightarrow> nat \<Rightarrow> ('a, 't, ws_peer list) ws_call" where
  "host_get_peers E T self = op_bind (use_server T self) (\<lambda>_. on_ctx (\<lambda>s. (Inr (ws_get_peers E s), s)))"

definition host_send_peers ::
  "'a ws_env \<Rightarrow> ('t, ws_entry) table_ops \<Rightarrow> nat \<Rightarrow> string \<Rightarrow> string list \<Rightarrow> ('a, 't, unit) ws_call" where
  "host_send_peers E T self message peers =
     op_bind (use_server T self) (\<lambda>_. on_ctx (ws_send_peers E message peers))"

definition host_send_all :: "'a ws_env \<Rightarrow> ('t, ws_entry) table_ops \<Rightarrow> nat \<Rightarrow> string \<Rightarrow> ('a, 't, unit) ws_call" where
  "host_send_all E T self message = op_bind (use_server T self) (\<lambda>_. on_ctx (ws_send_all E message))"

definition host_drop_server :: "nat \<Rightarrow> ('a, 't, unit) ws_call" where
  "host_drop_server r = op_return ()"

definition host_health_check ::
  "(string \<Rightarrow> ('n, anyhow, 'c) op) \<Rightarrow> ('c \<Rightarrow> ('n, anyhow, unit) op) \<Rightarrow> (string, string) hashmap \<Rightarrow>
   ('t, ws_entry) table_ops \<Rightarrow> nat \<Rightarrow> (('c option \<times> 'n, 't) ctx_view, ws_fault, string) op" where
  "host_health_check connect ping env T self =
     op_bind (op_map_err WsErr (use_server T self)) (\<lambda>_. on_ctx (ws_health_check connect ping env))"

section \<open>Lemmas\<close>

text \<open>
  Once a client is connected, every later check pings that client: after it has lost its
  connection, the check fails for good, because nothing connects again.
\<close>

lemma health_check_same_client:
  assumes "fst s = Some client" and "ws_health_check connect ping env s = (r, s')"
  shows "fst s' = Some client" and "snd s' = snd (ping client (snd s))"
    and "r = res_bind (res_map_err WsErr (fst (ping client (snd s)))) (\<lambda>_. Inr ''websockets service is healthy'')"
  using assms
  by (cases s; auto simp: ws_health_check_def service_client_def op_bind_def split: prod.splits sum.splits)+

lemma map_filter_Cons: "List.map_filter f (x # xs) = (case f x of None \<Rightarrow> List.map_filter f xs | Some y \<Rightarrow> y # List.map_filter f xs)"
  by (simp add: List.map_filter_def split: option.splits)

lemma map_filter_Nil: "List.map_filter f [] = []"
  by (simp add: List.map_filter_def)

lemma deliver_sent:
  "deliver content recps s = s\<lparr>ws_sent := ws_sent s @
     map (\<lambda>p. (pi_sender p, content)) (filter (\<lambda>p. \<not> pi_is_service p) recps)\<rparr>"
  by (induction recps arbitrary: s) auto

lemma parse_shown:
  assumes "ws_env_laws E"
  shows "List.map_filter (we_parse E) (split_on CHR '','' (join '','' (map (we_show E) as))) = as"
proof (cases as)
  case Nil
  then show ?thesis using assms by (simp add: split_on_def map_filter_Cons map_filter_Nil ws_env_laws_def)
next
  case (Cons a list)
  have "split_on CHR '','' (join '','' (map (we_show E) as)) = map (we_show E) as"
    by (rule split_by_join) (use assms Cons in \<open>auto simp: ws_env_laws_def\<close>)
  moreover have "List.map_filter (we_parse E) (map (we_show E) xs) = xs" for xs
    using assms by (induction xs) (auto simp: map_filter_Cons map_filter_Nil ws_env_laws_def)
  ultimately show ?thesis by simp
qed

lemma shown_not_all:
  assumes "ws_env_laws E"
  shows "join '','' (map (we_show E) as) \<noteq> ''all''"
proof
  assume "join '','' (map (we_show E) as) = ''all''"
  then have "as = List.map_filter (we_parse E) (split_on CHR '','' ''all'')"
    using parse_shown [OF assms, of as] by simp
  also have "\<dots> = []"
    using assms by (simp add: split_on_def map_filter_Cons map_filter_Nil ws_env_laws_def)
  finally have "as = []" .
  then show False using \<open>join '','' (map (we_show E) as) = ''all''\<close> by simp
qed

definition targets_of :: "'a list \<Rightarrow> ('a, peer_info) hashmap \<Rightarrow> peer_info list" where
  "targets_of as peers = filter (\<lambda>p. \<not> pi_is_service p) (List.map_filter (hm_get peers) as)"

lemma incoming_loop_others:
  "a \<noteq> peer \<Longrightarrow> hm_get (incoming_loop E peer msgs peers) a = hm_get peers a"
  by (induction msgs arbitrary: peers)
    (auto simp: incoming_message_def split: option.splits ws_message.splits if_splits)

section \<open>Properties\<close>

lemma send_peers_run:
  assumes "ws_env_laws E" and "ws_peers s = Some peers"
  shows "ws_send_peers E message (map (we_show E) as) s =
    (Inr (), s\<lparr>ws_sent := ws_sent s @ map (\<lambda>p. (pi_sender p, message)) (targets_of as peers)\<rparr>)"
proof -
  have "we_from_json E (we_to_json E m) = Some m" for m using assms(1) by (simp add: ws_env_laws_def)
  then show ?thesis
    by (simp add: ws_send_peers_def send_message_def get_peer_map_def assms(2) recipients_def
        shown_not_all [OF assms(1)] parse_shown [OF assms(1)] deliver_sent targets_of_def Let_def)
qed

text \<open>
  C20: Addressed messages.  With the server running, \<open>send_peers\<close> on printed addresses succeeds and
  sends the message once for every listed address, in the order listed, that belongs to a
  connected peer which is not a service peer (twice for an address listed twice), and to
  nobody else; the peer map is unchanged.
\<close>

theorem ws_send_peers_delivers:
  assumes "ws_env_laws E" and "ws_peers s = Some peers"
  shows "ws_send_peers E message (map (we_show E) as) s =
    (Inr (), s\<lparr>ws_sent := ws_sent s @ map (\<lambda>p. (pi_sender p, message)) (targets_of as peers)\<rparr>)"
  using assms by (rule send_peers_run)

text \<open>An environment for the witnesses: an address is a digit, a message its two fields.\<close>

definition demo_ws_env :: "nat ws_env" where
  "demo_ws_env = \<lparr>we_parse = (\<lambda>s. if s \<noteq> [] \<and> set s \<subseteq> {CHR ''x''} then Some (length s - 1) else None),
     we_show = (\<lambda>n. replicate (n + 1) CHR ''x''), we_loopback = (\<lambda>n. n = 0),
     we_to_json = (\<lambda>m. replicate (length (pm_peers m)) CHR ''#'' @ CHR ''|'' # pm_peers m @ pm_content m),
     we_from_json = (\<lambda>s. let n = length (takeWhile (\<lambda>c. c = CHR ''#'') s); rest = drop (n + 1) s
        in Some \<lparr>pm_peers = take n rest, pm_content = drop n rest\<rparr>),
     we_is_json = (\<lambda>s. s \<noteq> [])\<rparr>"

lemma demo_ws_env_laws: "ws_env_laws demo_ws_env"
proof -
  have "takeWhile (\<lambda>c. c = CHR ''#'') (replicate n CHR ''#'' @ CHR ''|'' # t) = replicate n CHR ''#''" for n t
    by (induction n) auto
  then show ?thesis by (auto simp: ws_env_laws_def demo_ws_env_def Let_def)
qed

definition demo_ws :: "nat ws_state" where
  "demo_ws = \<lparr>ws_peers = Some [(0, \<lparr>pi_is_service = True, pi_query = [], pi_sender = 10\<rparr>),
     (1, \<lparr>pi_is_service = False, pi_query = [], pi_sender = 11\<rparr>),
     (2, \<lparr>pi_is_service = False, pi_query = [], pi_sender = 12\<rparr>)], ws_sent = []\<rparr>"

theorem ws_send_peers_delivers_witness:
  "ws_send_peers demo_ws_env ''hi'' (map (we_show demo_ws_env) [2, 0, 7, 2]) demo_ws =
     (Inr (), demo_ws\<lparr>ws_sent := [(12, ''hi''), (12, ''hi'')]\<rparr>)"
proof -
  have "ws_peers demo_ws = Some (the (ws_peers demo_ws))" by (simp add: demo_ws_def)
  from ws_send_peers_delivers [OF demo_ws_env_laws this, of "''hi''" "[2, 0, 7, 2]"]
  show ?thesis by (simp add: targets_of_def demo_ws_def map_filter_Cons map_filter_Nil)
qed

text \<open>
  Broadcasts.  \<open>send_all\<close> sends the message exactly once to every connected peer that is not a
  service peer; and \<open>send_peers\<close> with the single peer name \<open>all\<close> is the same broadcast, although
  no peer has that address.
\<close>

theorem ws_send_all_broadcasts:
  assumes "ws_env_laws E" and "ws_peers s = Some peers"
  shows "ws_send_all E message s =
      (Inr (), s\<lparr>ws_sent := ws_sent s @
         map (\<lambda>(a, p). (pi_sender p, message)) (filter (\<lambda>(a, p). \<not> pi_is_service p) peers)\<rparr>) \<and>
    ws_send_peers E message [''all''] s = ws_send_all E message s"
proof -
  have "we_from_json E (we_to_json E m) = Some m" for m using assms(1) by (simp add: ws_env_laws_def)
  moreover have "map (\<lambda>p. (pi_sender p, message)) (filter (\<lambda>p. \<not> pi_is_service p) (map snd peers)) =
      map (\<lambda>(a, p). (pi_sender p, message)) (filter (\<lambda>(a, p). \<not> pi_is_service p) peers)"
    by (simp add: filter_map comp_def split_def)
  ultimately show ?thesis
    by (simp add: ws_send_peers_def ws_send_all_def send_message_def get_peer_map_def assms(2) recipients_def
        deliver_sent)
qed

theorem ws_send_all_broadcasts_witness:
  "ws_send_peers demo_ws_env ''hi'' [''all''] demo_ws =
     (Inr (), demo_ws\<lparr>ws_sent := [(11, ''hi''), (12, ''hi'')]\<rparr>)"
proof -
  have "ws_peers demo_ws = Some (the (ws_peers demo_ws))" by (simp add: demo_ws_def)
  from ws_send_all_broadcasts [OF demo_ws_env_laws this, of "''hi''"] show ?thesis by (simp add: demo_ws_def)
qed

text \<open>
  C22: The life of a connection.  While it lasts, a peer is in the map under its address with its
  own channel, marked as a service peer exactly when its address is loopback; other peers are
  untouched by its messages; and when it ends, for whatever messages came, the address is
  gone and every other peer is as before.
\<close>

theorem ws_connection_life:
  "(\<exists>info. hm_get (incoming_loop E peer msgs (register_peer E peer tx peers)) peer = Some info \<and>
      pi_sender info = tx \<and> pi_is_service info = we_loopback E peer \<and>
      (pi_query info = [] \<or> WsText (pi_query info) \<in> set msgs \<and> we_is_json E (pi_query info))) \<and>
   hm_get (accept_connection E peer tx msgs peers) a = (if a = peer then None else hm_get peers a)"
proof (intro conjI)
  have "\<exists>info. hm_get (incoming_loop E peer msgs m) peer = Some info \<and>
      pi_sender info = tx \<and> pi_is_service info = we_loopback E peer \<and>
      (pi_query info = q \<or> WsText (pi_query info) \<in> set msgs \<and> we_is_json E (pi_query info))"
    if "hm_get m peer = Some \<lparr>pi_is_service = we_loopback E peer, pi_query = q, pi_sender = tx\<rparr>" for m q
    using that
  proof (induction msgs arbitrary: m q)
    case Nil
    then show ?case by simp
  next
    case (Cons msg msgs)
    show ?case
    proof (cases "incoming_message E peer msg m")
      case None
      with Cons.prems show ?thesis by simp
    next
      case (Some m')
      then consider "m' = m"
        | t where "msg = WsText t" "we_is_json E t"
            "hm_get m' peer = Some \<lparr>pi_is_service = we_loopback E peer, pi_query = t, pi_sender = tx\<rparr>"
        using Cons.prems
        by (auto simp: incoming_message_def split: if_splits ws_message.splits)
      then show ?thesis
      proof cases
        case 1
        then show ?thesis using Cons.IH [OF Cons.prems] Some by auto
      next
        case 2
        then show ?thesis using Cons.IH [OF 2(3)] Some by auto
      qed
    qed
  qed
  then show "\<exists>info. hm_get (incoming_loop E peer msgs (register_peer E peer tx peers)) peer = Some info \<and>
      pi_sender info = tx \<and> pi_is_service info = we_loopback E peer \<and>
      (pi_query info = [] \<or> WsText (pi_query info) \<in> set msgs \<and> we_is_json E (pi_query info))"
    by (simp add: register_peer_def)
  show "hm_get (accept_connection E peer tx msgs peers) a = (if a = peer then None else hm_get peers a)"
    by (simp add: accept_connection_def incoming_loop_others register_peer_def)
qed

end
