(* ===== verification/RuntimeMacro.thy ===== *)
theory RuntimeMacro
  imports StrOps
begin

text \<open>
  runtime-macro: the \<open>runtime!\<close> configuration (\<open>src/runtime.rs\<close>) and the runtime it expands to
  (\<open>src/expand.rs\<close>).

  Reading the tokens is in MacroSyntax, printing them is the work of \<open>quote\<close>: the model starts from
  the parsed settings, and the printed form of a path and of a path segment is the record
  \<open>token_text\<close>, whose law says that a lone identifier is printed as itself.  Names are ASCII.
\<close>

section \<open>The configuration\<close>

text \<open>A segment is its identifier and its generic arguments (empty when it has none).\<close>

record rust_path =
  ph_leading_colon :: bool
  ph_segments :: "(string \<times> string) list"

definition get_ident :: "rust_path \<Rightarrow> string option" where
  "get_ident p = (case ph_segments p of
      [(i, args)] \<Rightarrow> if \<not> ph_leading_colon p \<and> args = [] then Some i else None
    | _ \<Rightarrow> None)"

record token_text =
  tt_path :: "rust_path \<Rightarrow> string"
  tt_segment :: "string \<times> string \<Rightarrow> string"

definition token_text_laws :: "token_text \<Rightarrow> bool" where
  "token_text_laws X \<longleftrightarrow> (\<forall>i. tt_segment X (i, []) = i) \<and>
     (\<forall>i. tt_path X \<lparr>ph_leading_colon = False, ph_segments = [(i, [])]\<rparr> = i)"

record host_backend =
  hb_type :: rust_path
  hb_backend :: rust_path

record runtime_config =
  rc_gen_main :: bool
  rc_hosts :: "host_backend list"
  rc_backends :: "rust_path list"

datatype runtime_opt = OptMain bool | OptHosts "host_backend list"

fun config_settings :: "runtime_opt list \<Rightarrow> bool \<times> host_backend list \<Rightarrow> bool \<times> host_backend list" where
  "config_settings [] acc = acc"
| "config_settings (OptMain m # xs) acc = config_settings xs (m, snd acc)"
| "config_settings (OptHosts h # xs) acc = config_settings xs (fst acc, h)"

fun dedup_backends :: "host_backend list \<Rightarrow> rust_path list \<Rightarrow> rust_path list" where
  "dedup_backends [] backends = backends"
| "dedup_backends (host # hosts) backends =
     (if list_ex (\<lambda>b. get_ident b = get_ident (hb_backend host)) backends
      then dedup_backends hosts backends
      else dedup_backends hosts (backends @ [hb_backend host]))"

definition parse_runtime :: "runtime_opt list \<Rightarrow> runtime_config" where
  "parse_runtime settings = (let (main, hosts) = config_settings settings (False, [])
     in \<lparr>rc_gen_main = main, rc_hosts = hosts, rc_backends = dedup_backends hosts []\<rparr>)"

section \<open>Names\<close>

definition is_upper :: "char \<Rightarrow> bool" where
  "is_upper c \<longleftrightarrow> (of_char c :: nat) \<ge> 65 \<and> (of_char c :: nat) \<le> 90"

fun snake_case :: "string \<Rightarrow> string \<Rightarrow> string" where
  "snake_case field [] = field"
| "snake_case field (c # cs) =
     (if is_upper c then snake_case ((if field \<noteq> [] then field @ ''_'' else field) @ [lower_char c]) cs
      else snake_case (field @ [c]) cs)"

definition field_ident :: "token_text \<Rightarrow> rust_path \<Rightarrow> string" where
  "field_ident X p = (if ph_segments p = [] then ''field''
     else snake_case [] (tt_segment X (last (ph_segments p))))"

text \<open>\<open>str::replace\<close> for a pattern that is not empty.\<close>

function replace_all :: "string \<Rightarrow> string \<Rightarrow> string \<Rightarrow> string" where
  "replace_all pat repl [] = []"
| "replace_all pat repl (c # cs) =
     (if pat \<noteq> [] \<and> starts_with pat (c # cs) then repl @ replace_all pat repl (drop (length pat) (c # cs))
      else c # replace_all pat repl cs)"
  by pat_completeness auto
termination
  by (relation "measure (\<lambda>(pat, repl, s). length s)") (auto simp: neq_Nil_conv)

definition wasi_ident :: "token_text \<Rightarrow> rust_path \<Rightarrow> string" where
  "wasi_ident X p = (if ph_segments p = [] then ''wasi''
     else to_ascii_lowercase (replace_all ''Wasi'' ''qwasr_wasi_'' (tt_segment X (last (ph_segments p)))))"

section \<open>The expansion\<close>

record expanded =
  ex_context_fields :: "(string \<times> rust_path) list"    \<comment> \<open>field name and backend type\<close>
  ex_store_ctx_fields :: "(string \<times> rust_path) list"
  ex_store_ctx_values :: "(string \<times> string) list"      \<comment> \<open>store field and context field it is cloned from\<close>
  ex_host_trait_impls :: "rust_path list"
  ex_wasi_view_impls :: "(string \<times> string) list"       \<comment> \<open>module and store field\<close>
  ex_main_fn :: bool

fun context_fields :: "token_text \<Rightarrow> rust_path list \<Rightarrow> string list \<Rightarrow> (string \<times> rust_path) list" where
  "context_fields X [] seen = []"
| "context_fields X (backend # backends) seen =
     (let backend_str = tt_path X backend
      in if backend_str \<in> set seen then context_fields X backends seen
         else (field_ident X backend, backend) # context_fields X backends (seen @ [backend_str]))"

definition expand_runtime :: "token_text \<Rightarrow> runtime_config \<Rightarrow> expanded" where
  "expand_runtime X cfg =
     \<lparr>ex_context_fields = context_fields X (rc_backends cfg) [],
      ex_store_ctx_fields = map (\<lambda>h. (wasi_ident X (hb_type h), hb_backend h)) (rc_hosts cfg),
      ex_store_ctx_values = map (\<lambda>h. (wasi_ident X (hb_type h), field_ident X (hb_backend h))) (rc_hosts cfg),
      ex_host_trait_impls = map hb_type (rc_hosts cfg),
      ex_wasi_view_impls = map (\<lambda>h. (wasi_ident X (hb_type h), wasi_ident X (hb_type h))) (rc_hosts cfg),
      ex_main_fn = rc_gen_main cfg\<rparr>"

text \<open>
  The generated \<open>Context::new\<close>: link every host, pre-instantiate, then connect every backend.
  \<open>link\<close>, \<open>pre\<close> and \<open>connect\<close> are the host's, wasmtime's and the backends' own code.
\<close>

fun connect_all ::
  "(rust_path \<Rightarrow> ('s, 'e, 'c) op) \<Rightarrow> (string \<times> rust_path) list \<Rightarrow> ('s, 'e, (string \<times> 'c) list) op" where
  "connect_all connect [] = op_return []"
| "connect_all connect ((field, backend) # flds) =
     op_bind (connect backend) (\<lambda>c. op_bind (connect_all connect flds) (\<lambda>cs. op_return ((field, c) # cs)))"

definition context_new ::
  "(rust_path \<Rightarrow> ('s, 'e, unit) op) \<Rightarrow> ('s, 'e, 'i) op \<Rightarrow> (rust_path \<Rightarrow> ('s, 'e, 'c) op) \<Rightarrow>
   expanded \<Rightarrow> ('s, 'e, 'i \<times> (string \<times> 'c) list) op" where
  "context_new link pre connect ex =
     op_bind (op_for link (ex_host_trait_impls ex)) (\<lambda>_.
     op_bind pre (\<lambda>instance.
     op_bind (connect_all connect (ex_context_fields ex)) (\<lambda>flds. op_return (instance, flds))))"

text \<open>
  The generated \<open>store\<close>: each store field is a clone of a field of the context.  \<open>None\<close> stands
  for a name that the generated \<open>Context\<close> does not have, which the compiler rejects.
\<close>

definition store_fields :: "expanded \<Rightarrow> (string \<times> 'c) list \<Rightarrow> (string \<times> 'c option) list" where
  "store_fields ex flds = map (\<lambda>(name, field). (name, map_of flds field)) (ex_store_ctx_values ex)"

section \<open>Lemmas\<close>

definition first_occurrences :: "'a list \<Rightarrow> 'a list" where
  "first_occurrences xs = rev (remdups (rev xs))"

lemma first_occurrences_snoc:
  "first_occurrences (xs @ [x]) = (if x \<in> set xs then first_occurrences xs else first_occurrences xs @ [x])"
  by (simp add: first_occurrences_def)

lemma first_occurrences_set [simp]: "set (first_occurrences xs) = set xs"
  by (simp add: first_occurrences_def)

lemma first_occurrences_distinct: "distinct (first_occurrences xs)"
  by (simp add: first_occurrences_def)

lemma get_ident_Some: "get_ident p = Some i \<longleftrightarrow> p = \<lparr>ph_leading_colon = False, ph_segments = [(i, [])]\<rparr>"
  by (cases p) (auto simp: get_ident_def split: list.splits prod.splits if_splits)

lemma get_ident_eq: "get_ident p \<noteq> None \<Longrightarrow> get_ident q = get_ident p \<longleftrightarrow> q = p"
  by (metis get_ident_Some option.exhaust)

lemma dedup_append: "dedup_backends (hs @ hs') acc = dedup_backends hs' (dedup_backends hs acc)"
  by (induction hs arbitrary: acc) auto

lemma dedup_grows: "set acc \<subseteq> set (dedup_backends hs acc)"
  by (induction hs arbitrary: acc) fastforce+

lemma dedup_simple:
  "\<forall>h \<in> set hs. get_ident (hb_backend h) \<noteq> None \<Longrightarrow>
   dedup_backends hs [] = first_occurrences (map hb_backend hs)"
proof (induction hs rule: rev_induct)
  case Nil
  show ?case by (simp add: first_occurrences_def)
next
  case (snoc h hs)
  have "list_ex (\<lambda>b. get_ident b = get_ident (hb_backend h)) bs \<longleftrightarrow> hb_backend h \<in> set bs" for bs
    using snoc.prems get_ident_eq [of "hb_backend h"] by (auto simp: list_ex_iff)
  then show ?case
    using snoc by (simp add: dedup_append first_occurrences_snoc del: list_ex_iff)
qed

lemma context_fields_distinct:
  assumes "token_text_laws X"
  shows "distinct bs \<Longrightarrow> \<forall>b \<in> set bs. \<exists>i. get_ident b = Some i \<and> i \<notin> set seen \<Longrightarrow>
     context_fields X bs seen = map (\<lambda>b. (field_ident X b, b)) bs"
proof (induction bs arbitrary: seen)
  case Nil
  then show ?case by simp
next
  case (Cons b bs)
  from Cons.prems obtain i where i: "get_ident b = Some i" "i \<notin> set seen" by auto
  have shown: "tt_path X b = i"
    using assms i(1) by (simp add: token_text_laws_def get_ident_Some)
  have "\<forall>c \<in> set bs. \<exists>j. get_ident c = Some j \<and> j \<notin> set (seen @ [i])"
  proof
    fix c assume c: "c \<in> set bs"
    with Cons.prems obtain j where j: "get_ident c = Some j" "j \<notin> set seen" by auto
    moreover have "j \<noteq> i" using c Cons.prems(1) i(1) j(1) by (auto simp: get_ident_Some)
    ultimately show "\<exists>j. get_ident c = Some j \<and> j \<notin> set (seen @ [i])" by auto
  qed
  then have "context_fields X bs (seen @ [i]) = map (\<lambda>b. (field_ident X b, b)) bs"
    using Cons.IH Cons.prems(1) by simp
  then show ?case using i(2) by (simp add: shown)
qed

lemma connect_all_names:
  "connect_all connect fs s = (Inr cs, t) \<Longrightarrow> map fst cs = map fst fs"
  by (induction fs arbitrary: s t cs) (auto simp: op_bind_Inr)

lemma connect_all_runs:
  assumes "\<And>b s. fst (connect b s) = Inr (conn b)"
  shows "\<exists>t. connect_all connect fs s = (Inr (map (\<lambda>(f, b). (f, conn b)) fs), t)"
proof (induction fs arbitrary: s)
  case Nil
  show ?case by simp
next
  case (Cons fb fs)
  obtain f b where fb: "fb = (f, b)" by (cases fb)
  obtain s1 where "connect b s = (Inr (conn b), s1)"
    using assms [of b s] by (cases "connect b s") auto
  moreover obtain t where "connect_all connect fs s1 = (Inr (map (\<lambda>(f, b). (f, conn b)) fs), t)"
    using Cons.IH by blast
  ultimately show ?case by (simp add: fb op_bind_def)
qed

lemma op_for_runs:
  assumes "\<And>x s. fst (f x s) = Inr ()"
  shows "\<exists>t. op_for f xs s = (Inr (), t)"
proof (induction xs arbitrary: s)
  case Nil
  show ?case by simp
next
  case (Cons x xs)
  obtain s1 where "f x s = (Inr (), s1)" using assms [of x s] by (cases "f x s") auto
  then show ?case using Cons.IH [of s1] by (simp add: op_bind_def)
qed

lemma context_new_runs:
  assumes "\<And>p s. fst (link p s) = Inr ()" and "\<And>s. fst (pre s) = Inr inst"
    and "\<And>b s. fst (connect b s) = Inr (conn b)"
  shows "\<exists>t. context_new link pre connect ex s = (Inr (inst, map (\<lambda>(f, b). (f, conn b)) (ex_context_fields ex)), t)"
proof -
  obtain s1 where 1: "op_for link (ex_host_trait_impls ex) s = (Inr (), s1)"
    using op_for_runs [where f = link and s = s, OF assms(1)] by blast
  obtain s2 where 2: "pre s1 = (Inr inst, s2)" using assms(2) [of s1] by (cases "pre s1") auto
  obtain t where "connect_all connect (ex_context_fields ex) s2 =
      (Inr (map (\<lambda>(f, b). (f, conn b)) (ex_context_fields ex)), t)"
    using connect_all_runs [where connect = connect and conn = conn, OF assms(3)] by blast
  then show ?thesis using 1 2 by (simp add: context_new_def)
qed

lemma map_of_image:
  "inj_on f (set bs) \<Longrightarrow> b \<in> set bs \<Longrightarrow> map_of (map (\<lambda>b. (f b, g b)) bs) (f b) = Some (g b)"
  by (induction bs) (auto simp: inj_on_def)

lemma context_fields_sub:
  "(f, b) \<in> set (context_fields X bs seen) \<Longrightarrow> b \<in> set bs \<and> f = field_ident X b"
  by (induction bs arbitrary: seen) (auto simp: Let_def split: if_splits)

lemma dedup_sub: "set (dedup_backends hs acc) \<subseteq> set acc \<union> hb_backend ` set hs"
  by (induction hs arbitrary: acc) (auto split: if_splits, fastforce+)

section \<open>Properties\<close>

text \<open>
  C32: The runtime that the macro builds.  When every backend is named by a plain identifier and no
  two of them have the same field name, and linking, pre-instantiation and the connections
  succeed, the context connects every distinct backend exactly once, in the order of its first
  use, and the store gives every host, in order, the connection of the very backend that was
  configured for it, so hosts with the same backend share one connection.
\<close>

theorem runtime_backends_connected:
  assumes "token_text_laws X"
    and simple: "\<forall>h \<in> set hosts. get_ident (hb_backend h) \<noteq> None"
    and "inj_on (field_ident X) (hb_backend ` set hosts)"
    and "\<And>p s. fst (link p s) = Inr ()" and "\<And>s. fst (pre s) = Inr inst"
    and "\<And>b s. fst (connect b s) = Inr (conn b)"
  shows "let ex = expand_runtime X (parse_runtime [OptMain m, OptHosts hosts]);
             flds = map (\<lambda>b. (field_ident X b, conn b)) (first_occurrences (map hb_backend hosts))
         in (\<exists>t. context_new link pre connect ex s = (Inr (inst, flds), t)) \<and>
            store_fields ex flds = map (\<lambda>h. (wasi_ident X (hb_type h), Some (conn (hb_backend h)))) hosts"
proof -
  let ?bs = "first_occurrences (map hb_backend hosts)"
  let ?ex = "expand_runtime X (parse_runtime [OptMain m, OptHosts hosts])"
  let ?flds = "map (\<lambda>b. (field_ident X b, conn b)) ?bs"
  have "context_fields X ?bs [] = map (\<lambda>b. (field_ident X b, b)) ?bs"
    by (rule context_fields_distinct [OF assms(1) first_occurrences_distinct]) (use simple in auto)
  then have "ex_context_fields ?ex = map (\<lambda>b. (field_ident X b, b)) ?bs"
    by (simp add: expand_runtime_def parse_runtime_def dedup_simple [OF simple])
  then have "\<exists>t. context_new link pre connect ?ex s = (Inr (inst, ?flds), t)"
    using context_new_runs [where link = link and pre = pre and connect = connect and conn = conn and
        ex = ?ex and s = s, OF assms(4-6)] by (simp add: comp_def)
  moreover have "map_of ?flds (field_ident X (hb_backend h)) = Some (conn (hb_backend h))"
    if "h \<in> set hosts" for h
    by (rule map_of_image) (use assms(3) that in auto)
  then have "store_fields ?ex ?flds = map (\<lambda>h. (wasi_ident X (hb_type h), Some (conn (hb_backend h)))) hosts"
    by (simp add: store_fields_def expand_runtime_def parse_runtime_def)
  ultimately show ?thesis by (simp only: Let_def)
qed

text \<open>A configuration for the witnesses; a segment is printed as its identifier and arguments.\<close>

definition demo_text :: token_text where
  "demo_text = \<lparr>tt_path = (\<lambda>p. concat (map (\<lambda>(i, args). i @ args) (ph_segments p))),
     tt_segment = (\<lambda>(i, args). i @ args)\<rparr>"

definition ident_path :: "string \<Rightarrow> rust_path" where
  "ident_path i = \<lparr>ph_leading_colon = False, ph_segments = [(i, [])]\<rparr>"

lemma demo_text_laws: "token_text_laws demo_text"
  by (simp add: token_text_laws_def demo_text_def)

lemmas names_eval = demo_text_def ident_path_def field_ident_def wasi_ident_def is_upper_def lower_char_def
  to_ascii_lowercase_def hm_contains_def

definition demo_hosts :: "host_backend list" where
  "demo_hosts = [\<lparr>hb_type = ident_path ''WasiHttp'', hb_backend = ident_path ''HttpDefault''\<rparr>,
     \<lparr>hb_type = ident_path ''WasiKeyValue'', hb_backend = ident_path ''Redis''\<rparr>,
     \<lparr>hb_type = ident_path ''WasiBlobstore'', hb_backend = ident_path ''Redis''\<rparr>]"

theorem runtime_backends_connected_witness:
  "(\<exists>t. context_new (\<lambda>_. op_return ()) (op_return ()) (\<lambda>b. op_return (length (fst (hd (ph_segments b)))))
      (expand_runtime demo_text (parse_runtime [OptMain True, OptHosts demo_hosts])) () =
     (Inr ((), [(''http_default'', 11), (''redis'', 5)]), t)) \<and>
   store_fields (expand_runtime demo_text (parse_runtime [OptMain True, OptHosts demo_hosts]))
     [(''http_default'', 11::nat), (''redis'', 5)] =
     [(''qwasr_wasi_http'', Some 11), (''qwasr_wasi_keyvalue'', Some 5), (''qwasr_wasi_blobstore'', Some 5)]"
proof -
  have simple: "\<forall>h \<in> set demo_hosts. get_ident (hb_backend h) \<noteq> None"
    by (simp add: demo_hosts_def get_ident_def ident_path_def)
  have inj: "inj_on (field_ident demo_text) (hb_backend ` set demo_hosts)"
    by (simp add: demo_hosts_def names_eval)
  have names: "wasi_ident demo_text (ident_path ''WasiHttp'') = ''qwasr_wasi_http''"
    "wasi_ident demo_text (ident_path ''WasiKeyValue'') = ''qwasr_wasi_keyvalue''"
    "wasi_ident demo_text (ident_path ''WasiBlobstore'') = ''qwasr_wasi_blobstore''"
    "field_ident demo_text (ident_path ''HttpDefault'') = ''http_default''"
    "field_ident demo_text (ident_path ''Redis'') = ''redis''"
    by (simp_all add: names_eval char_of_def bit_0)
  have first: "first_occurrences (map hb_backend demo_hosts) = [ident_path ''HttpDefault'', ident_path ''Redis'']"
    by (simp add: first_occurrences_def demo_hosts_def ident_path_def)
  let ?conn = "\<lambda>b. length (fst (hd (ph_segments b)))"
  have conn: "?conn (ident_path ''HttpDefault'') = 11" "?conn (ident_path ''Redis'') = 5"
    by (simp_all add: ident_path_def)
  have flds: "map (\<lambda>b. (field_ident demo_text b, ?conn b)) (first_occurrences (map hb_backend demo_hosts)) =
      [(''http_default'', 11), (''redis'', 5)]"
    by (simp only: first list.map names conn)
  have stored: "map (\<lambda>h. (wasi_ident demo_text (hb_type h), Some (?conn (hb_backend h)))) demo_hosts =
      [(''qwasr_wasi_http'', Some 11), (''qwasr_wasi_keyvalue'', Some 5), (''qwasr_wasi_blobstore'', Some 5)]"
    by (simp only: demo_hosts_def list.map names conn host_backend.simps)
  have "let ex = expand_runtime demo_text (parse_runtime [OptMain True, OptHosts demo_hosts]);
            flds = map (\<lambda>b. (field_ident demo_text b, ?conn b)) (first_occurrences (map hb_backend demo_hosts))
        in (\<exists>t. context_new (\<lambda>_. op_return ()) (op_return ()) (\<lambda>b. op_return (?conn b)) ex () = (Inr ((), flds), t)) \<and>
           store_fields ex flds = map (\<lambda>h. (wasi_ident demo_text (hb_type h), Some (?conn (hb_backend h)))) demo_hosts"
    by (rule runtime_backends_connected [OF demo_text_laws simple inj]) simp_all
  then show ?thesis by (simp only: Let_def flds stored)
qed

text \<open>
  Qualified backends.  Of the backends that are not plain identifiers (a path such as
  \<open>redis::Client\<close>) only the first is kept: every later one is taken for a duplicate of it,
  whatever its path, so the context never gets its field, and the host that was configured
  with it refers to a field that does not exist: the expansion does not compile.
\<close>

theorem qualified_backend_dropped:
  assumes "get_ident (hb_backend h) = None" and "get_ident (hb_backend h') = None"
    and "\<forall>g \<in> set (hs @ h # hs' @ hs''). field_ident X (hb_backend g) \<noteq> field_ident X (hb_backend h')"
  shows "let cfg = parse_runtime [OptHosts (hs @ h # hs' @ h' # hs'')]; ex = expand_runtime X cfg
    in rc_backends cfg = rc_backends (parse_runtime [OptHosts (hs @ h # hs' @ hs'')]) \<and>
       (wasi_ident X (hb_type h'), None) \<in>
         set (store_fields ex (map (\<lambda>(f, b). (f, conn b)) (ex_context_fields ex)))"
proof -
  let ?cfg = "parse_runtime [OptHosts (hs @ h # hs' @ h' # hs'')]"
  let ?ex = "expand_runtime X ?cfg"
  let ?flds = "map (\<lambda>(f, b). (f, conn b)) (ex_context_fields ?ex)"
  let ?acc = "dedup_backends (hs @ [h]) []"
  have "list_ex (\<lambda>b. get_ident b = None) ?acc"
    using assms(1) by (simp add: dedup_append)
  then have "list_ex (\<lambda>b. get_ident b = None) (dedup_backends hs' ?acc)"
    using dedup_grows [of ?acc hs'] by (auto simp: list_ex_iff)
  then have "dedup_backends ((hs @ [h]) @ hs' @ h' # hs'') [] = dedup_backends ((hs @ [h]) @ hs' @ hs'') []"
    using assms(2) by (simp only: dedup_append dedup_backends.simps if_True)
  then have same: "rc_backends ?cfg = rc_backends (parse_runtime [OptHosts (hs @ h # hs' @ hs'')])"
    by (simp add: parse_runtime_def)
  have "b \<in> hb_backend ` set (hs @ h # hs' @ hs'')" if "b \<in> set (rc_backends ?cfg)" for b
    using that dedup_sub [of "hs @ h # hs' @ hs''" "[]"] unfolding same by (auto simp: parse_runtime_def)
  then have "field_ident X b \<noteq> field_ident X (hb_backend h')" if "b \<in> set (rc_backends ?cfg)" for b
    using assms(3) that by fastforce
  then have "fst fb \<noteq> field_ident X (hb_backend h')" if "fb \<in> set (ex_context_fields ?ex)" for fb
    using that context_fields_sub [of "fst fb" "snd fb" X "rc_backends ?cfg" "[]"]
    by (auto simp: expand_runtime_def)
  then have "\<forall>fb \<in> set (ex_context_fields ?ex). fst fb \<noteq> field_ident X (hb_backend h')"
    by (rule ballI)
  then have "field_ident X (hb_backend h') \<notin> fst ` set (ex_context_fields ?ex)"
    by (simp add: image_iff eq_commute [of "field_ident X (hb_backend h')"])
  then have "map_of ?flds (field_ident X (hb_backend h')) = None"
    by (force simp: map_of_eq_None_iff)
  then have "(wasi_ident X (hb_type h'), None) \<in> set (store_fields ?ex ?flds)"
    by (force simp: store_fields_def expand_runtime_def parse_runtime_def)
  with same show ?thesis by (simp only: Let_def)
qed

theorem qualified_backend_dropped_witness:
  "let redis = \<lparr>ph_leading_colon = False, ph_segments = [(''be'', []), (''Redis'', [])]\<rparr>;
       nats = \<lparr>ph_leading_colon = False, ph_segments = [(''be'', []), (''Nats'', [])]\<rparr>;
       cfg = parse_runtime [OptHosts [\<lparr>hb_type = ident_path ''WasiHttp'', hb_backend = redis\<rparr>,
                                      \<lparr>hb_type = ident_path ''WasiMessaging'', hb_backend = nats\<rparr>]]
   in rc_backends cfg = [redis]"
proof -
  let ?redis = "\<lparr>ph_leading_colon = False, ph_segments = [(''be'', []), (''Redis'', [])]\<rparr>"
  let ?nats = "\<lparr>ph_leading_colon = False, ph_segments = [(''be'', []), (''Nats'', [])]\<rparr>"
  let ?h = "\<lparr>hb_type = ident_path ''WasiHttp'', hb_backend = ?redis\<rparr>"
  let ?h' = "\<lparr>hb_type = ident_path ''WasiMessaging'', hb_backend = ?nats\<rparr>"
  have a: "get_ident (hb_backend ?h) = None" and b: "get_ident (hb_backend ?h') = None"
    by (simp_all add: get_ident_def)
  have c: "\<forall>g \<in> set ([] @ ?h # [] @ []). field_ident demo_text (hb_backend g) \<noteq> field_ident demo_text (hb_backend ?h')"
    by (simp add: names_eval)
  from qualified_backend_dropped [OF a b c] show ?thesis
    by (simp add: Let_def parse_runtime_def get_ident_def)
qed

end
