(* ===== verification/MacroSyntax.thy ===== *)
theory MacroSyntax
  imports GuestMacro RuntimeMacro
begin

text \<open>
  The syntax of the two macros: how \<open>guest!\<close> (\<open>guest-macro/src/guest.rs\<close>, \<open>http.rs\<close>, \<open>messaging.rs\<close>)
  and \<open>runtime!\<close> (\<open>runtime-macro/src/runtime.rs\<close>) read their tokens before they check them, with the
  parts of \<open>syn\<close> they use: literals, identifiers, punctuation, groups that must be read to their
  end, and the two kinds of punctuated lists.  Reading a Rust path is \<open>syn\<close>'s own; the record
  \<open>path_syntax\<close> gives its reader and its printed form.

  Where several errors are present, \<open>syn\<close> reports an unread rest of a group last; the model
  reports it at the end of the group.
\<close>

section \<open>Tokens and readers\<close>

text \<open>\<open>TWord\<close> is a word that Rust reserves, so no identifier; a group has its opening delimiter.\<close>

datatype token = TIdent string | TWord string | TLit string | TPunct char | TGroup char "token list"

type_synonym 'a reader = "token list \<Rightarrow> string + 'a \<times> token list"

definition rd_return :: "'a \<Rightarrow> 'a reader" where
  "rd_return x ts = Inr (x, ts)"

definition rd_bind :: "'a reader \<Rightarrow> ('a \<Rightarrow> 'b reader) \<Rightarrow> 'b reader" where
  "rd_bind m f ts = (case m ts of Inl e \<Rightarrow> Inl e | Inr (x, rest) \<Rightarrow> f x rest)"

definition rd_check :: "string + 'a \<Rightarrow> 'a reader" where
  "rd_check r ts = res_bind r (\<lambda>x. Inr (x, ts))"

fun rd_lit :: "string reader" where
  "rd_lit (TLit s # ts) = Inr (s, ts)"
| "rd_lit _ = Inl ''expected string literal''"

fun rd_ident :: "string reader" where
  "rd_ident (TIdent i # ts) = Inr (i, ts)"
| "rd_ident _ = Inl ''expected identifier''"

fun rd_bool :: "bool reader" where
  "rd_bool (TWord w # ts) = (if w = ''true'' then Inr (True, ts) else if w = ''false'' then Inr (False, ts)
     else Inl ''expected boolean literal'')"
| "rd_bool _ = Inl ''expected boolean literal''"

definition rd_punct :: "char \<Rightarrow> unit reader" where
  "rd_punct c ts = (case ts of
      TPunct d # rest \<Rightarrow> if d = c then Inr ((), rest) else Inl ''expected punctuation''
    | _ \<Rightarrow> Inl ''expected punctuation'')"

definition peek_word :: "token list \<Rightarrow> string option" where
  "peek_word ts = (case ts of TIdent i # _ \<Rightarrow> Some i | _ \<Rightarrow> None)"

definition rd_group :: "char \<Rightarrow> 'a reader \<Rightarrow> 'a reader" where
  "rd_group d content ts = (case ts of
      TGroup d' inner # rest \<Rightarrow>
        if d' = d then (case content inner of
            Inl e \<Rightarrow> Inl e
          | Inr (x, left) \<Rightarrow> if left = [] then Inr (x, rest) else Inl ''unexpected token'')
        else Inl ''expected delimiter''
    | _ \<Rightarrow> Inl ''expected delimiter'')"

text \<open>
  \<open>Punctuated::parse_terminated\<close> with commas reads to the end of its input, with an optional comma
  at the end.  The test on the lengths holds for every reader that consumes a token.
\<close>

function rd_terminated :: "'a reader \<Rightarrow> token list \<Rightarrow> string + 'a list" where
  "rd_terminated item ts = (if ts = [] then Inr []
     else (case item ts of
         Inl e \<Rightarrow> Inl e
       | Inr (x, rest) \<Rightarrow> if rest = [] then Inr [x]
           else (case rd_punct CHR '','' rest of
               Inl e \<Rightarrow> Inl e
             | Inr (_, rest') \<Rightarrow> if length rest' < length ts
                 then res_bind (rd_terminated item rest') (\<lambda>xs. Inr (x # xs))
                 else Inl ''no progress'')))"
  by pat_completeness auto
termination
  by (relation "measure (\<lambda>(item, ts). length ts)") auto

declare rd_terminated.simps [simp del]

definition rd_list :: "'a reader \<Rightarrow> 'a list reader" where
  "rd_list item ts = res_bind (rd_terminated item ts) (\<lambda>xs. Inr (xs, []))"

text \<open>\<open>Punctuated::parse_separated_nonempty\<close> goes on as long as it sees the separator.\<close>

function rd_separated :: "char \<Rightarrow> 'a reader \<Rightarrow> 'a list reader" where
  "rd_separated sep item ts = (case item ts of
      Inl e \<Rightarrow> Inl e
    | Inr (x, rest) \<Rightarrow> (case rd_punct sep rest of
          Inl e \<Rightarrow> Inr ([x], rest)
        | Inr (_, rest') \<Rightarrow> if length rest' < length ts
            then res_bind (rd_separated sep item rest') (\<lambda>(xs, left). Inr (x # xs, left))
            else Inl ''no progress''))"
  by pat_completeness auto
termination
  by (relation "measure (\<lambda>(sep, item, ts). length ts)") auto

declare rd_separated.simps [simp del]

record 'p path_syntax =
  ps_read :: "'p reader"
  ps_show :: "'p \<Rightarrow> token list"

text \<open>A path ends at the end of its input, at a comma, at a single colon and at an identifier.\<close>

fun ends_path :: "token list \<Rightarrow> bool" where
  "ends_path [] = True"
| "ends_path (TPunct c # ts) = (c = CHR '','' \<or> c = CHR '':'')"
| "ends_path (TIdent i # ts) = True"
| "ends_path (t # ts) = False"

definition path_syntax_laws :: "'p path_syntax \<Rightarrow> bool" where
  "path_syntax_laws P \<longleftrightarrow> (\<forall>p rest. ends_path rest \<longrightarrow> ps_read P (ps_show P p @ rest) = Inr (p, rest)) \<and>
     (\<forall>p. ps_show P p \<noteq> [])"

section \<open>The guest macro\<close>

definition rd_flag :: "body_flag reader" where
  "rd_flag ts = (if peek_word ts = Some ''with_body'' then Inr (WithBody, tl ts)
     else if peek_word ts = Some ''with_query'' then Inr (WithQuery, tl ts) else Inr (NoFlag, ts))"

definition rd_handler :: "string path_syntax \<Rightarrow> route_handler reader" where
  "rd_handler P =
     rd_bind rd_ident (\<lambda>verb.
     rd_bind (rd_group CHR ''('' (rd_bind (ps_read P) (\<lambda>request. rd_bind rd_flag (\<lambda>flag.
       rd_bind (rd_punct CHR '','') (\<lambda>_. rd_bind (ps_read P) (\<lambda>reply. rd_return (request, flag, reply))))))) (\<lambda>(request, flag, reply).
     rd_check (parse_handler verb request flag reply)))"

definition rd_http_opt :: "string path_syntax \<Rightarrow> route_handler reader" where
  "rd_http_opt P ts = (if peek_word ts = Some ''get'' \<or> peek_word ts = Some ''post'' then rd_handler P ts
     else Inl ''expected `get` or `post`'')"

definition rd_route :: "string path_syntax \<Rightarrow> route reader" where
  "rd_route P = rd_bind rd_lit (\<lambda>path. rd_bind (rd_punct CHR '':'') (\<lambda>_.
     rd_bind (rd_separated CHR ''|'' (rd_http_opt P)) (\<lambda>fields. rd_check (parse_route path fields))))"

definition rd_http :: "string path_syntax \<Rightarrow> route list reader" where
  "rd_http P = rd_list (rd_route P)"

definition rd_topic :: "string path_syntax \<Rightarrow> topic reader" where
  "rd_topic P = rd_bind rd_lit (\<lambda>pat. rd_bind (rd_punct CHR '':'') (\<lambda>_.
     rd_bind (ps_read P) (\<lambda>message. rd_check (parse_topic pat message))))"

definition rd_messaging :: "string path_syntax \<Rightarrow> topic list reader" where
  "rd_messaging P = rd_list (rd_topic P)"

definition rd_guest_opt :: "string path_syntax \<Rightarrow> guest_opt reader" where
  "rd_guest_opt P ts =
     (if peek_word ts = Some ''owner'' then
        rd_bind rd_ident (\<lambda>_. rd_bind (rd_punct CHR '':'') (\<lambda>_. rd_bind rd_lit (\<lambda>o'. rd_return (OptOwner o')))) ts
      else if peek_word ts = Some ''provider'' then
        rd_bind rd_ident (\<lambda>_. rd_bind (rd_punct CHR '':'') (\<lambda>_. rd_bind rd_ident (\<lambda>p. rd_return (OptProvider p)))) ts
      else if peek_word ts = Some ''http'' then
        rd_bind rd_ident (\<lambda>_. rd_bind (rd_punct CHR '':'') (\<lambda>_.
          rd_bind (rd_group CHR ''['' (rd_http P)) (\<lambda>h. rd_return (OptHttp h)))) ts
      else if peek_word ts = Some ''messaging'' then
        rd_bind rd_ident (\<lambda>_. rd_bind (rd_punct CHR '':'') (\<lambda>_.
          rd_bind (rd_group CHR ''['' (rd_messaging P)) (\<lambda>m. rd_return (OptMessaging m)))) ts
      else Inl ''expected one of: `owner`, `provider`, `http`, `messaging`'')"

text \<open>The input of a macro must be read to its end.\<close>

definition rd_all :: "'a reader \<Rightarrow> token list \<Rightarrow> string + 'a" where
  "rd_all m ts = (case m ts of
      Inl e \<Rightarrow> Inl e
    | Inr (x, rest) \<Rightarrow> if rest = [] then Inr x else Inl ''unexpected token'')"

definition read_guest :: "string path_syntax \<Rightarrow> token list \<Rightarrow> string + guest_config" where
  "read_guest P = rd_all (rd_bind (rd_group CHR ''{'' (rd_list (rd_guest_opt P)))
     (\<lambda>settings. rd_check (parse_config settings)))"

section \<open>The runtime macro\<close>

definition rd_host :: "rust_path path_syntax \<Rightarrow> host_backend reader" where
  "rd_host P = rd_bind (ps_read P) (\<lambda>type. rd_bind (rd_punct CHR '':'') (\<lambda>_.
     rd_bind (ps_read P) (\<lambda>backend. rd_return \<lparr>hb_type = type, hb_backend = backend\<rparr>)))"

definition rd_hosts :: "rust_path path_syntax \<Rightarrow> host_backend list reader" where
  "rd_hosts P = rd_list (rd_host P)"

definition rd_runtime_opt :: "rust_path path_syntax \<Rightarrow> runtime_opt reader" where
  "rd_runtime_opt P ts =
     (if peek_word ts = Some ''main'' then
        rd_bind rd_ident (\<lambda>_. rd_bind (rd_punct CHR '':'') (\<lambda>_. rd_bind rd_bool (\<lambda>b. rd_return (OptMain b)))) ts
      else if peek_word ts = Some ''hosts'' then
        rd_bind rd_ident (\<lambda>_. rd_bind (rd_punct CHR '':'') (\<lambda>_.
          rd_bind (rd_group CHR ''{'' (rd_hosts P)) (\<lambda>h. rd_return (OptHosts h)))) ts
      else Inl ''expected `main` or `hosts`'')"

definition read_runtime :: "rust_path path_syntax \<Rightarrow> token list \<Rightarrow> string + runtime_config" where
  "read_runtime P = rd_all (rd_bind (rd_group CHR ''{'' (rd_list (rd_runtime_opt P)))
     (\<lambda>settings. rd_return (parse_runtime settings)))"

section \<open>Writing\<close>

text \<open>What a programmer writes, as it is before the macro's checks.\<close>

datatype raw_handler = RawHandler string string body_flag string

type_synonym raw_route = "string \<times> raw_handler list"

datatype raw_setting =
    RawOwner string | RawProvider string | RawHttp "raw_route list" | RawMessaging "(string \<times> string) list"

fun show_flag :: "body_flag \<Rightarrow> token list" where
  "show_flag NoFlag = []"
| "show_flag WithBody = [TIdent ''with_body'']"
| "show_flag WithQuery = [TIdent ''with_query'']"

fun separate :: "token \<Rightarrow> token list list \<Rightarrow> token list" where
  "separate sep [] = []"
| "separate sep [w] = w"
| "separate sep (w # ws) = w @ sep # separate sep ws"

text \<open>A list with or without a comma at its end.\<close>

definition show_list :: "bool \<Rightarrow> token list list \<Rightarrow> token list" where
  "show_list comma ws = separate (TPunct CHR '','') ws @ (if comma \<and> ws \<noteq> [] then [TPunct CHR '',''] else [])"

fun show_handler :: "string path_syntax \<Rightarrow> raw_handler \<Rightarrow> token list" where
  "show_handler P (RawHandler verb request flag reply) =
     [TIdent verb, TGroup CHR ''('' (ps_show P request @ show_flag flag @ TPunct CHR '','' # ps_show P reply)]"

fun show_route :: "string path_syntax \<Rightarrow> raw_route \<Rightarrow> token list" where
  "show_route P (path, hs) = TLit path # TPunct CHR '':'' # separate (TPunct CHR ''|'') (map (show_handler P) hs)"

fun show_topic :: "string path_syntax \<Rightarrow> string \<times> string \<Rightarrow> token list" where
  "show_topic P (pat, message) = TLit pat # TPunct CHR '':'' # ps_show P message"

fun show_setting :: "bool \<Rightarrow> string path_syntax \<Rightarrow> raw_setting \<Rightarrow> token list" where
  "show_setting comma P (RawOwner s) = [TIdent ''owner'', TPunct CHR '':'', TLit s]"
| "show_setting comma P (RawProvider p) = [TIdent ''provider'', TPunct CHR '':'', TIdent p]"
| "show_setting comma P (RawHttp rs) =
     [TIdent ''http'', TPunct CHR '':'', TGroup CHR ''['' (show_list comma (map (show_route P) rs))]"
| "show_setting comma P (RawMessaging ts) =
     [TIdent ''messaging'', TPunct CHR '':'', TGroup CHR ''['' (show_list comma (map (show_topic P) ts))]"

definition show_guest :: "bool \<Rightarrow> string path_syntax \<Rightarrow> raw_setting list \<Rightarrow> token list" where
  "show_guest comma P settings = [TGroup CHR ''{'' (show_list comma (map (show_setting comma P) settings))]"

text \<open>What the checks make of it, in the order in which it is read.\<close>

fun check_handler :: "raw_handler \<Rightarrow> string + route_handler" where
  "check_handler (RawHandler verb request flag reply) = parse_handler verb request flag reply"

fun check_route :: "raw_route \<Rightarrow> string + route" where
  "check_route (path, hs) = res_bind (res_all check_handler hs) (parse_route path)"

fun check_setting :: "raw_setting \<Rightarrow> string + guest_opt" where
  "check_setting (RawOwner s) = Inr (OptOwner s)"
| "check_setting (RawProvider p) = Inr (OptProvider p)"
| "check_setting (RawHttp rs) = res_bind (res_all check_route rs) (\<lambda>h. Inr (OptHttp h))"
| "check_setting (RawMessaging ts) = res_bind (res_all (\<lambda>(pat, message). parse_topic pat message) ts) (\<lambda>m. Inr (OptMessaging m))"

definition check_guest :: "raw_setting list \<Rightarrow> string + guest_config" where
  "check_guest settings = res_bind (res_all check_setting settings) parse_config"

text \<open>Every route has a handler, for \<open>get\<close> or \<open>post\<close>.\<close>

fun raw_method :: "raw_handler \<Rightarrow> string" where
  "raw_method (RawHandler verb request flag reply) = verb"

fun setting_ok :: "raw_setting \<Rightarrow> bool" where
  "setting_ok (RawHttp rs) = list_all (\<lambda>(path, hs). hs \<noteq> [] \<and> list_all (\<lambda>h. raw_method h \<in> {''get'', ''post''}) hs) rs"
| "setting_ok _ = True"

fun show_runtime_opt :: "bool \<Rightarrow> rust_path path_syntax \<Rightarrow> runtime_opt \<Rightarrow> token list" where
  "show_runtime_opt comma P (OptMain b) = [TIdent ''main'', TPunct CHR '':'', TWord (if b then ''true'' else ''false'')]"
| "show_runtime_opt comma P (OptHosts hs) = [TIdent ''hosts'', TPunct CHR '':'',
     TGroup CHR ''{'' (show_list comma (map (\<lambda>h. ps_show P (hb_type h) @ TPunct CHR '':'' # ps_show P (hb_backend h)) hs))]"

definition show_runtime :: "bool \<Rightarrow> rust_path path_syntax \<Rightarrow> runtime_opt list \<Rightarrow> token list" where
  "show_runtime comma P settings = [TGroup CHR ''{'' (show_list comma (map (show_runtime_opt comma P) settings))]"

section \<open>Lemmas\<close>

lemmas reader_defs = rd_bind_def rd_return_def rd_check_def rd_group_def rd_punct_def peek_word_def

text \<open>A reader that undoes a writer before anything in \<open>ends\<close>.\<close>

definition reads :: "(token list \<Rightarrow> bool) \<Rightarrow> 'b reader \<Rightarrow> ('a \<Rightarrow> token list) \<Rightarrow> ('a \<Rightarrow> string + 'b) \<Rightarrow> 'a \<Rightarrow> bool" where
  "reads ends item w check x \<longleftrightarrow> w x \<noteq> [] \<and>
     (\<forall>rest. ends rest \<longrightarrow> item (w x @ rest) = res_bind (check x) (\<lambda>y. Inr (y, rest)))"

fun ends_item :: "token list \<Rightarrow> bool" where
  "ends_item [] = True"
| "ends_item (t # ts) = (t = TPunct CHR '','')"

lemma separate_Cons: "ws \<noteq> [] \<Longrightarrow> separate sep (w # ws) = w @ sep # separate sep ws"
  by (cases ws) simp_all

lemma show_list_Cons:
  "show_list comma (w # ws) = (if ws = [] then w @ (if comma then [TPunct CHR '',''] else [])
     else w @ TPunct CHR '','' # show_list comma ws)"
  by (simp add: show_list_def separate_Cons)

lemma terminated_show_list:
  "\<forall>x \<in> set xs. reads ends_item item w check x \<Longrightarrow>
    rd_terminated item (show_list comma (map w xs)) = res_all check xs"
proof (induction xs)
  case Nil
  then show ?case by (simp add: show_list_def rd_terminated.simps)
next
  case (Cons x xs)
  then have ne: "w x \<noteq> []" and item: "ends_item rest \<Longrightarrow> item (w x @ rest) = res_bind (check x) (\<lambda>y. Inr (y, rest))" for rest
    by (simp_all add: reads_def)
  have IH: "rd_terminated item (show_list comma (map w xs)) = res_all check xs"
    using Cons by simp
  show ?case
  proof (cases "xs = []")
    case True
    then show ?thesis using ne item [of "[]"] item [of "[TPunct CHR '','']"]
      by (cases "check x")
        (auto simp: show_list_Cons rd_terminated.simps [of item "w x @ ts" for ts] rd_terminated.simps [of item "w x"]
          rd_terminated.simps [of item "[]"] rd_punct_def)
  next
    case False
    then show ?thesis using ne item [of "TPunct CHR '','' # show_list comma (map w xs)"] IH
      by (cases "check x") (simp_all add: show_list_Cons rd_terminated.simps [of item "w x @ ts" for ts] rd_punct_def)
  qed
qed

lemma list_show_list:
  "\<forall>x \<in> set xs. reads ends_item item w check x \<Longrightarrow>
    rd_list item (show_list comma (map w xs)) = res_bind (res_all check xs) (\<lambda>ys. Inr (ys, []))"
  by (simp add: rd_list_def terminated_show_list)

fun ends_alternative :: "char \<Rightarrow> token list \<Rightarrow> bool" where
  "ends_alternative sep [] = True"
| "ends_alternative sep (t # ts) = (t = TPunct sep \<or> t = TPunct CHR '','')"

lemma separated_show:
  assumes "\<forall>x \<in> set xs. reads (ends_alternative sep) item w check x" and "xs \<noteq> []" and "sep \<noteq> CHR '',''"
    and "ends_item rest"
  shows "rd_separated sep item (separate (TPunct sep) (map w xs) @ rest) =
    res_bind (res_all check xs) (\<lambda>ys. Inr (ys, rest))"
  using assms(1,2)
proof (induction xs)
  case Nil
  then show ?case by simp
next
  case (Cons x xs)
  then have ne: "w x \<noteq> []" and item: "ends_alternative sep r \<Longrightarrow> item (w x @ r) = res_bind (check x) (\<lambda>y. Inr (y, r))" for r
    by (simp_all add: reads_def)
  show ?case
  proof (cases "xs = []")
    case True
    have "ends_alternative sep rest" and "rd_punct sep rest = Inl ''expected punctuation''"
      using assms(3,4) by (cases rest; simp add: rd_punct_def)+
    then show ?thesis using True item [of rest]
      by (cases "check x") (simp_all add: rd_separated.simps [of sep item "w x @ rest"])
  next
    case False
    let ?more = "separate (TPunct sep) (map w xs) @ rest"
    have "rd_separated sep item ?more = res_bind (res_all check xs) (\<lambda>ys. Inr (ys, rest))"
      using Cons False by simp
    then show ?thesis using False ne item [of "TPunct sep # ?more"]
      by (cases "check x"; cases "res_all check xs")
        (simp_all add: separate_Cons rd_separated.simps [of sep item "w x @ ts" for ts] rd_punct_def)
  qed
qed

lemma reads_handler:
  assumes "path_syntax_laws P" and "raw_method h \<in> {''get'', ''post''}"
  shows "reads (ends_alternative CHR ''|'') (rd_http_opt P) (show_handler P) check_handler h"
proof -
  obtain verb request flag reply where h: "h = RawHandler verb request flag reply" by (cases h)
  have path: "ends_path rest \<Longrightarrow> ps_read P (ps_show P p @ rest) = Inr (p, rest)" for p rest
    using assms(1) by (simp add: path_syntax_laws_def)
  have "ps_read P (ps_show P request @ show_flag flag @ TPunct CHR '','' # ps_show P reply) =
      Inr (request, show_flag flag @ TPunct CHR '','' # ps_show P reply)"
    by (rule path) (cases flag; simp)
  moreover have "rd_flag (show_flag flag @ TPunct CHR '','' # ps_show P reply) = Inr (flag, TPunct CHR '','' # ps_show P reply)"
    by (cases flag) (simp_all add: rd_flag_def peek_word_def)
  moreover have "ps_read P (ps_show P reply) = Inr (reply, [])" using path [of "[]"] by simp
  ultimately show ?thesis using assms(2)
    by (simp add: reads_def h rd_http_opt_def rd_handler_def reader_defs)
qed

lemma reads_route:
  assumes "path_syntax_laws P" and "hs \<noteq> []" and "list_all (\<lambda>h. raw_method h \<in> {''get'', ''post''}) hs"
  shows "reads ends_item (rd_route P) (show_route P) check_route (path, hs)"
proof -
  have "\<forall>h \<in> set hs. reads (ends_alternative CHR ''|'') (rd_http_opt P) (show_handler P) check_handler h"
    using assms(1,3) reads_handler by (simp add: list_all_iff)
  from separated_show [OF this assms(2)] show ?thesis
    by (cases "res_all check_handler hs") (simp_all add: reads_def rd_route_def reader_defs)
qed

lemma reads_topic:
  assumes "path_syntax_laws P"
  shows "reads ends_item (rd_topic P) (show_topic P) (\<lambda>(pat, message). parse_topic pat message) t"
proof -
  have path: "ends_path rest \<Longrightarrow> ps_read P (ps_show P p @ rest) = Inr (p, rest)" for p rest
    using assms by (simp add: path_syntax_laws_def)
  have "ends_item rest \<Longrightarrow> ps_read P (ps_show P p @ rest) = Inr (p, rest)" for p rest
    by (rule path) (cases rest; simp)
  then show ?thesis by (cases t) (simp add: reads_def rd_topic_def reader_defs)
qed

lemma reads_setting:
  assumes "path_syntax_laws P" and "setting_ok x"
  shows "reads ends_item (rd_guest_opt P) (show_setting comma P) check_setting x"
proof (cases x)
  case (RawHttp rs)
  have "\<forall>r \<in> set rs. reads ends_item (rd_route P) (show_route P) check_route r"
    using assms RawHttp reads_route [OF assms(1)] by (auto simp: list_all_iff)
  from list_show_list [OF this] show ?thesis using RawHttp
    by (cases "res_all check_route rs") (simp_all add: reads_def rd_guest_opt_def rd_http_def reader_defs)
next
  case (RawMessaging ts)
  have "\<forall>t \<in> set ts. reads ends_item (rd_topic P) (show_topic P) (\<lambda>(pat, message). parse_topic pat message) t"
    using reads_topic [OF assms(1)] by blast
  from list_show_list [OF this] show ?thesis using RawMessaging
    by (cases "res_all (\<lambda>(pat, message). parse_topic pat message) ts")
      (simp_all add: reads_def rd_guest_opt_def rd_messaging_def reader_defs)
qed (simp_all add: reads_def rd_guest_opt_def reader_defs)

lemma reads_runtime_opt:
  assumes "path_syntax_laws P"
  shows "reads ends_item (rd_runtime_opt P) (show_runtime_opt comma P) Inr x"
proof (cases x)
  case (OptMain b)
  then show ?thesis by (simp add: reads_def rd_runtime_opt_def reader_defs)
next
  case (OptHosts hs)
  have path: "ends_path rest \<Longrightarrow> ps_read P (ps_show P p @ rest) = Inr (p, rest)" for p rest
    using assms by (simp add: path_syntax_laws_def)
  have "ends_item rest \<Longrightarrow> ps_read P (ps_show P p @ rest) = Inr (p, rest)" for p rest
    by (rule path) (cases rest; simp)
  then have "\<forall>h \<in> set hs. reads ends_item (rd_host P)
      (\<lambda>h. ps_show P (hb_type h) @ TPunct CHR '':'' # ps_show P (hb_backend h)) Inr h"
    using path by (simp add: reads_def rd_host_def reader_defs)
  from list_show_list [OF this] show ?thesis using OptHosts
    by (simp add: reads_def rd_runtime_opt_def rd_hosts_def reader_defs)
qed

lemma read_guest_written:
  assumes "path_syntax_laws P" and "list_all setting_ok settings"
  shows "read_guest P (show_guest comma P settings) = check_guest settings"
proof -
  have "\<forall>x \<in> set settings. reads ends_item (rd_guest_opt P) (show_setting comma P) check_setting x"
    using assms reads_setting by (simp add: list_all_iff)
  from list_show_list [OF this] show ?thesis
    by (cases "res_all check_setting settings"; cases "check_guest settings")
      (simp_all add: read_guest_def show_guest_def rd_all_def check_guest_def reader_defs)
qed

lemma read_runtime_written:
  assumes "path_syntax_laws Q"
  shows "read_runtime Q (show_runtime comma Q options) = Inr (parse_runtime options)"
proof -
  have "\<forall>x \<in> set options. reads ends_item (rd_runtime_opt Q) (show_runtime_opt comma Q) Inr x"
    using reads_runtime_opt [OF assms] by blast
  from list_show_list [OF this] show ?thesis
    by (simp add: read_runtime_def show_runtime_def rd_all_def reader_defs)
qed

text \<open>A path or a pattern that leaves no name is never accepted.\<close>

lemma res_all_fails: "x \<in> set xs \<Longrightarrow> \<not> is_ok (f x) \<Longrightarrow> \<not> is_ok (res_all f xs)"
proof (induction xs)
  case (Cons y ys)
  then show ?case by (cases "f y"; cases "res_all f ys") auto
qed simp

lemma unnamed_route:
  assumes "\<not> is_ok (handler_name path) \<or> \<not> is_ok (extract_params path)"
  shows "\<not> is_ok (check_route (path, hs))"
  using assms by (cases "res_all check_handler hs"; cases "handler_name path"; cases "extract_params path")
    (auto simp: parse_route_def res_bind_Inr_iff is_ok_iff split: option.splits)

lemma unnamed_fails:
  "RawHttp rs \<in> set settings \<Longrightarrow> (path, hs) \<in> set rs \<Longrightarrow> \<not> is_ok (handler_name path) \<or> \<not> is_ok (extract_params path) \<Longrightarrow>
    \<not> is_ok (check_guest settings)"
  "RawMessaging ts \<in> set settings \<Longrightarrow> (pat, message) \<in> set ts \<Longrightarrow> \<not> is_ok (handler_name pat) \<Longrightarrow>
    \<not> is_ok (check_guest settings)"
proof -
  have guest: "\<not> is_ok (check_guest settings)" if "st \<in> set settings" "\<not> is_ok (check_setting st)" for st
    using res_all_fails [where f = check_setting, OF that] by (cases "res_all check_setting settings") (simp_all add: check_guest_def)
  show "\<not> is_ok (check_guest settings)" if "RawHttp rs \<in> set settings" "(path, hs) \<in> set rs"
    "\<not> is_ok (handler_name path) \<or> \<not> is_ok (extract_params path)"
  proof (rule guest [OF that(1)])
    show "\<not> is_ok (check_setting (RawHttp rs))"
      using res_all_fails [where f = check_route, OF that(2) unnamed_route [OF that(3)]] by (cases "res_all check_route rs") simp_all
  qed
  show "\<not> is_ok (check_guest settings)" if "RawMessaging ts \<in> set settings" "(pat, message) \<in> set ts" "\<not> is_ok (handler_name pat)"
  proof (rule guest [OF that(1)])
    let ?f = "\<lambda>(pat, message). parse_topic pat message"
    have "\<not> is_ok (?f (pat, message))" using that(3) by (cases "handler_name pat") (simp_all add: parse_topic_def)
    from res_all_fails [where f = ?f, OF that(2) this] show "\<not> is_ok (check_setting (RawMessaging ts))"
      by (cases "res_all ?f ts") simp_all
  qed
qed

section \<open>Properties\<close>

text \<open>
  C39: The macros read what is written.  A guest configuration in the macro's syntax, with or
  without commas at the ends of its lists, is read to exactly the configuration, or the first
  error, that the checks make of its settings; a path or pattern that leaves no identifier, such
  as \<open>/\<close>, \<open>/123\<close> or \<open>{*x}\<close>, is such an error, the macro's panic.  A runtime configuration is always
  accepted.
\<close>

theorem macros_read_written:
  assumes "path_syntax_laws P" and "list_all setting_ok settings" and "path_syntax_laws Q"
  shows "read_guest P (show_guest comma P settings) = check_guest settings \<and>
    (\<forall>rs path hs. RawHttp rs \<in> set settings \<and> (path, hs) \<in> set rs \<and>
       (\<not> is_ok (handler_name path) \<or> \<not> is_ok (extract_params path)) \<longrightarrow>
       \<not> is_ok (read_guest P (show_guest comma P settings))) \<and>
    (\<forall>ts pat message. RawMessaging ts \<in> set settings \<and> (pat, message) \<in> set ts \<and> \<not> is_ok (handler_name pat) \<longrightarrow>
       \<not> is_ok (read_guest P (show_guest comma P settings))) \<and>
    read_runtime Q (show_runtime comma Q options) = Inr (parse_runtime options)"
  unfolding read_guest_written [OF assms(1,2)] using read_runtime_written [OF assms(3)] unnamed_fails by blast

text \<open>Paths of one identifier, and paths as groups of their segments.\<close>

definition ident_syntax :: "string path_syntax" where
  "ident_syntax = \<lparr>ps_read = rd_ident, ps_show = (\<lambda>p. [TIdent p])\<rparr>"

fun segments_of :: "token list \<Rightarrow> (string \<times> string) list" where
  "segments_of (TIdent i # TLit args # ts) = (i, args) # segments_of ts"
| "segments_of _ = []"

definition group_syntax :: "rust_path path_syntax" where
  "group_syntax = \<lparr>
     ps_read = (\<lambda>ts. case ts of
        TGroup d inner # rest \<Rightarrow> Inr (\<lparr>ph_leading_colon = d = CHR ''<'', ph_segments = segments_of inner\<rparr>, rest)
      | _ \<Rightarrow> Inl ''expected a path''),
     ps_show = (\<lambda>p. [TGroup (if ph_leading_colon p then CHR ''<'' else CHR ''('')
        (concat (map (\<lambda>(i, args). [TIdent i, TLit args]) (ph_segments p)))])\<rparr>"

lemma demo_syntax_laws: "path_syntax_laws ident_syntax" "path_syntax_laws group_syntax"
proof -
  have "segments_of (concat (map (\<lambda>(i, args). [TIdent i, TLit args]) segs)) = segs" for segs
    by (induction segs) auto
  then show "path_syntax_laws ident_syntax" "path_syntax_laws group_syntax"
    by (simp_all add: path_syntax_laws_def ident_syntax_def group_syntax_def)
qed

theorem macros_read_written_witness:
  "read_guest ident_syntax [TGroup CHR ''{'' [TIdent ''owner'', TPunct CHR '':'', TLit ''at'', TPunct CHR '','',
      TIdent ''provider'', TPunct CHR '':'', TIdent ''P'', TPunct CHR '','',
      TIdent ''http'', TPunct CHR '':'', TGroup CHR ''['' [TLit ''/a'', TPunct CHR '':'', TIdent ''get'',
        TGroup CHR ''('' [TIdent ''Q'', TIdent ''with_query'', TPunct CHR '','', TIdent ''R'']]]] =
    Inr \<lparr>gc_owner = ''at'', gc_provider = ''P'', gc_http = Some [\<lparr>rt_path = ''/a'', rt_params = [],
      rt_handler = \<lparr>hn_method = ''get'', hn_request = ''Q'', hn_reply = ''R'', hn_with_body = False, hn_with_query = True\<rparr>,
      rt_function = ''a''\<rparr>], gc_messaging = None\<rparr>"
proof -
  let ?settings = "[RawOwner ''at'', RawProvider ''P'', RawHttp [(''/a'', [RawHandler ''get'' ''Q'' WithQuery ''R''])]]"
  have "list_all setting_ok ?settings" by simp
  note read = macros_read_written [OF demo_syntax_laws(1) this demo_syntax_laws(2), of False "[]", THEN conjunct1]
  have "parse_route ''/a'' [h] = Inr \<lparr>rt_path = ''/a'', rt_params = [], rt_handler = h, rt_function = ''a''\<rparr>" for h
  proof -
    have "extract_params ''/a'' = Inr []" "handler_name ''/a'' = Inr ''a''" by code_simp+
    then show ?thesis by (simp add: parse_route_def)
  qed
  then have "check_guest ?settings = Inr \<lparr>gc_owner = ''at'', gc_provider = ''P'', gc_http = Some [\<lparr>rt_path = ''/a'',
      rt_params = [], rt_handler = \<lparr>hn_method = ''get'', hn_request = ''Q'', hn_reply = ''R'', hn_with_body = False,
      hn_with_query = True\<rparr>, rt_function = ''a''\<rparr>], gc_messaging = None\<rparr>"
    by (simp add: check_guest_def parse_handler_def parse_config_def)
  with read show ?thesis by (simp add: show_guest_def show_list_def ident_syntax_def)
qed

end
