(* ===== verification/OtelTypes.thy ===== *)
theory OtelTypes
  imports StrOps
begin

text \<open>
  wasi-otel: the types the two sides share and their conversions (\<open>src/guest/convert.rs\<close>,
  \<open>src/host/types_impl.rs\<close> and the value part of \<open>src/host/metrics_impl.rs\<close>).

  Floating point numbers are an abstract type \<open>'f\<close>.  \<open>otel_value\<close> stands for the \<open>Value\<close> of the
  \<open>opentelemetry\<close> crate, with its arrays as constructors of their own; its variants that the
  code answers with \<open>unimplemented!()\<close> do not exist in the version it uses.
\<close>

section \<open>Values\<close>

datatype 'f otel_value =
    OBool bool | OI64 i64 | OF64 'f | OString string
  | OBoolArray "bool list" | OI64Array "i64 list" | OF64Array "'f list" | OStringArray "string list"

datatype 'f wasi_value =
    WBool bool | WS64 i64 | WF64 'f | WString string
  | WBoolArray "bool list" | WS64Array "i64 list" | WF64Array "'f list" | WStringArray "string list"

text \<open>The protocol's \<open>AnyValue\<close>; the outer option is never empty in what the code builds.\<close>

datatype 'f any_value =
    BoolValue bool | IntValue i64 | DoubleValue 'f | StringValue string
  | ArrayValue "'f any_value list"

fun value_from_otel :: "'f otel_value \<Rightarrow> 'f wasi_value" where
  "value_from_otel (OBool v) = WBool v"
| "value_from_otel (OI64 v) = WS64 v"
| "value_from_otel (OF64 v) = WF64 v"
| "value_from_otel (OString v) = WString v"
| "value_from_otel (OBoolArray items) = WBoolArray items"
| "value_from_otel (OI64Array items) = WS64Array items"
| "value_from_otel (OF64Array items) = WF64Array items"
| "value_from_otel (OStringArray items) = WStringArray items"

fun value_to_otel :: "'f wasi_value \<Rightarrow> 'f otel_value" where
  "value_to_otel (WBool v) = OBool v"
| "value_to_otel (WS64 v) = OI64 v"
| "value_to_otel (WF64 v) = OF64 v"
| "value_to_otel (WString v) = OString v"
| "value_to_otel (WBoolArray items) = OBoolArray items"
| "value_to_otel (WS64Array items) = OI64Array items"
| "value_to_otel (WF64Array items) = OF64Array items"
| "value_to_otel (WStringArray items) = OStringArray items"

fun value_to_any :: "'f wasi_value \<Rightarrow> 'f any_value" where
  "value_to_any (WBool v) = BoolValue v"
| "value_to_any (WS64 v) = IntValue v"
| "value_to_any (WF64 v) = DoubleValue v"
| "value_to_any (WString v) = StringValue v"
| "value_to_any (WBoolArray items) = ArrayValue (map BoolValue items)"
| "value_to_any (WS64Array items) = ArrayValue (map IntValue items)"
| "value_to_any (WF64Array items) = ArrayValue (map DoubleValue items)"
| "value_to_any (WStringArray items) = ArrayValue (map StringValue items)"

text \<open>\<open>==\<close> on values, with the equality of \<open>f64\<close> (which is not reflexive) as \<open>feq\<close>.\<close>

fun value_eq :: "('f \<Rightarrow> 'f \<Rightarrow> bool) \<Rightarrow> 'f wasi_value \<Rightarrow> 'f wasi_value \<Rightarrow> bool" where
  "value_eq feq (WBool a) (WBool b) = (a = b)"
| "value_eq feq (WS64 a) (WS64 b) = (a = b)"
| "value_eq feq (WF64 a) (WF64 b) = feq a b"
| "value_eq feq (WString a) (WString b) = (a = b)"
| "value_eq feq (WBoolArray a) (WBoolArray b) = (a = b)"
| "value_eq feq (WS64Array a) (WS64Array b) = (a = b)"
| "value_eq feq (WF64Array a) (WF64Array b) = list_all2 feq a b"
| "value_eq feq (WStringArray a) (WStringArray b) = (a = b)"
| "value_eq feq _ _ = False"

record 'v key_value =
  kv_key :: string
  kv_value :: 'v

definition kv_from_otel :: "string \<times> 'f otel_value \<Rightarrow> 'f wasi_value key_value" where
  "kv_from_otel kv = \<lparr>kv_key = fst kv, kv_value = value_from_otel (snd kv)\<rparr>"

definition kv_to_otel :: "'f wasi_value key_value \<Rightarrow> string \<times> 'f otel_value" where
  "kv_to_otel kv = (kv_key kv, value_to_otel (kv_value kv))"

text \<open>The protocol's key-value has an optional value.\<close>

definition kv_to_proto :: "'f wasi_value key_value \<Rightarrow> 'f any_value option key_value" where
  "kv_to_proto kv = \<lparr>kv_key = kv_key kv, kv_value = Some (value_to_any (kv_value kv))\<rparr>"

definition kv_eq :: "('f \<Rightarrow> 'f \<Rightarrow> bool) \<Rightarrow> 'f wasi_value key_value \<Rightarrow> 'f wasi_value key_value \<Rightarrow> bool" where
  "kv_eq feq a b \<longleftrightarrow> kv_key a = kv_key b \<and> value_eq feq (kv_value a) (kv_value b)"

section \<open>Resources and scopes\<close>

record 'f wasi_resource =
  wr_attributes :: "'f wasi_value key_value list"
  wr_schema_url :: "string option"

record 'f wasi_scope =
  wsc_name :: string
  wsc_version :: "string option"
  wsc_schema_url :: "string option"
  wsc_attributes :: "'f wasi_value key_value list"

record 'f otel_resource =
  or_attributes :: "(string \<times> 'f otel_value) list"
  or_schema_url :: "string option"

record 'f otel_scope =
  os_name :: string
  os_version :: "string option"
  os_schema_url :: "string option"
  os_attributes :: "(string \<times> 'f otel_value) list"

definition resource_from_otel :: "'f otel_resource \<Rightarrow> 'f wasi_resource" where
  "resource_from_otel r = \<lparr>wr_attributes = map kv_from_otel (or_attributes r), wr_schema_url = or_schema_url r\<rparr>"

definition scope_from_otel :: "'f otel_scope \<Rightarrow> 'f wasi_scope" where
  "scope_from_otel sc = \<lparr>wsc_name = os_name sc, wsc_version = os_version sc,
     wsc_schema_url = os_schema_url sc, wsc_attributes = map kv_from_otel (os_attributes sc)\<rparr>"

definition scope_to_otel :: "'f wasi_scope \<Rightarrow> 'f otel_scope" where
  "scope_to_otel sc = \<lparr>os_name = wsc_name sc, os_version = wsc_version sc,
     os_schema_url = wsc_schema_url sc, os_attributes = map kv_to_otel (wsc_attributes sc)\<rparr>"

definition scope_eq :: "('f \<Rightarrow> 'f \<Rightarrow> bool) \<Rightarrow> 'f wasi_scope \<Rightarrow> 'f wasi_scope \<Rightarrow> bool" where
  "scope_eq feq a b \<longleftrightarrow> wsc_name a = wsc_name b \<and> wsc_version a = wsc_version b \<and>
     wsc_schema_url a = wsc_schema_url b \<and> list_all2 (kv_eq feq) (wsc_attributes a) (wsc_attributes b)"

section \<open>Hashing\<close>

text \<open>
  What the \<open>Hash\<close> implementations write into a hasher: \<open>bits\<close> is \<open>f64::to_bits\<close> and \<open>trunc\<close> the
  saturating cast that a list of floats goes through; a list writes its length first.
\<close>

datatype hash_item = HBool bool | HI64 i64 | HU64 u64 | HStr string | HLen nat | HSome bool

definition hash_list :: "('a \<Rightarrow> hash_item list) \<Rightarrow> 'a list \<Rightarrow> hash_item list" where
  "hash_list h items = HLen (length items) # concat (map h items)"

fun value_hash :: "('f \<Rightarrow> u64) \<Rightarrow> ('f \<Rightarrow> i64) \<Rightarrow> 'f wasi_value \<Rightarrow> hash_item list" where
  "value_hash bits trunc (WBool v) = [HBool v]"
| "value_hash bits trunc (WS64 v) = [HI64 v]"
| "value_hash bits trunc (WF64 v) = [HU64 (bits v)]"
| "value_hash bits trunc (WString v) = [HStr v]"
| "value_hash bits trunc (WBoolArray items) = hash_list (\<lambda>v. [HBool v]) items"
| "value_hash bits trunc (WS64Array items) = hash_list (\<lambda>v. [HI64 v]) items"
| "value_hash bits trunc (WF64Array items) = hash_list (\<lambda>v. [HI64 v]) (map trunc items)"
| "value_hash bits trunc (WStringArray items) = hash_list (\<lambda>v. [HStr v]) items"

definition kv_hash :: "('f \<Rightarrow> u64) \<Rightarrow> ('f \<Rightarrow> i64) \<Rightarrow> 'f wasi_value key_value \<Rightarrow> hash_item list" where
  "kv_hash bits trunc kv = HStr (kv_key kv) # value_hash bits trunc (kv_value kv)"

definition option_hash :: "string option \<Rightarrow> hash_item list" where
  "option_hash x = (case x of None \<Rightarrow> [HSome False] | Some s \<Rightarrow> [HSome True, HStr s])"

definition scope_hash :: "('f \<Rightarrow> u64) \<Rightarrow> ('f \<Rightarrow> i64) \<Rightarrow> 'f wasi_scope \<Rightarrow> hash_item list" where
  "scope_hash bits trunc sc = HStr (wsc_name sc) # option_hash (wsc_version sc) @
     option_hash (wsc_schema_url sc) @ hash_list (kv_hash bits trunc) (wsc_attributes sc)"

section \<open>Times\<close>

record datetime =
  dt_seconds :: u64
  dt_nanoseconds :: u32

text \<open>\<open>st\<close> counts nanoseconds from the epoch; an earlier time gives \<open>unwrap_or_default()\<close>.\<close>

definition datetime_from_system :: "int \<Rightarrow> datetime" where
  "datetime_from_system st = (let since_epoch = (if st < 0 then 0 else st)
     in \<lparr>dt_seconds = word_of_int (since_epoch div 1000000000),
         dt_nanoseconds = word_of_int (since_epoch mod 1000000000)\<rparr>)"

text \<open>The nanoseconds wrap around, as in a release build.\<close>

definition datetime_nanos :: "datetime \<Rightarrow> u64" where
  "datetime_nanos dt = dt_seconds dt * 1000000000 + ucast (dt_nanoseconds dt)"

section \<open>Lemmas\<close>

lemma value_roundtrip [simp]: "value_to_otel (value_from_otel v) = v" "value_from_otel (value_to_otel w) = w"
  by (cases v; simp) (cases w; simp)

lemma kv_roundtrip [simp]: "kv_to_otel (kv_from_otel p) = p" "kv_from_otel (kv_to_otel kv) = kv"
  by (simp_all add: kv_to_otel_def kv_from_otel_def)

lemma scope_roundtrip [simp]: "scope_to_otel (scope_from_otel sc) = sc" "scope_from_otel (scope_to_otel w) = w"
  by (simp_all add: scope_to_otel_def scope_from_otel_def comp_def)

lemma list_all2_same: "(\<And>a b. P a b \<longleftrightarrow> a = b) \<Longrightarrow> list_all2 P xs ys \<longleftrightarrow> xs = ys"
  by (simp add: list_all2_conv_all_nth list_eq_iff_nth_eq)

lemma value_eq_iff: "(\<And>a b. feq a b \<longleftrightarrow> a = b) \<Longrightarrow> value_eq feq v w \<longleftrightarrow> v = w"
  by (cases v; cases w) (simp_all add: list_all2_same)

lemma kv_eq_iff: "(\<And>a b. feq a b \<longleftrightarrow> a = b) \<Longrightarrow> kv_eq feq v w \<longleftrightarrow> v = w"
  by (cases v; cases w) (simp add: kv_eq_def value_eq_iff)

lemma scope_eq_iff: "(\<And>a b. feq a b \<longleftrightarrow> a = b) \<Longrightarrow> scope_eq feq v w \<longleftrightarrow> v = w"
  by (cases v; cases w) (auto simp: scope_eq_def list_all2_same kv_eq_iff)

text \<open>
  Equal values hash equally as long as equal floats have equal bits and casts.  The two zeros are
  equal floats with different bits, so scopes that differ only in the sign of a zero are equal
  keys that a hash map keeps apart.
\<close>

lemma list_eq_hash:
  "list_all2 P xs ys \<Longrightarrow> (\<And>x y. P x y \<Longrightarrow> h x = h y) \<Longrightarrow> hash_list h xs = hash_list h ys"
  by (induction xs ys rule: list_all2_induct) (auto simp: hash_list_def)

lemma value_eq_hash:
  assumes "\<And>a b. feq a b \<Longrightarrow> bits a = bits b \<and> trunc a = trunc b" and "value_eq feq v w"
  shows "value_hash bits trunc v = value_hash bits trunc w"
proof -
  have "list_all2 feq xs ys \<Longrightarrow> map trunc xs = map trunc ys" for xs ys
    by (induction xs ys rule: list_all2_induct) (use assms(1) in auto)
  then show ?thesis using assms by (cases v; cases w) (auto simp: list_all2_same)
qed

lemma scope_eq_hash:
  assumes "\<And>a b. feq a b \<Longrightarrow> bits a = bits b \<and> trunc a = trunc b" and "scope_eq feq a b"
  shows "scope_hash bits trunc a = scope_hash bits trunc b"
proof -
  have "kv_eq feq x y \<Longrightarrow> kv_hash bits trunc x = kv_hash bits trunc y" for x y
    using value_eq_hash [where feq = feq and bits = bits and trunc = trunc] assms(1)
    unfolding kv_eq_def kv_hash_def by metis
  then have "hash_list (kv_hash bits trunc) (wsc_attributes a) = hash_list (kv_hash bits trunc) (wsc_attributes b)"
    using assms(2) list_eq_hash [of "kv_eq feq"] unfolding scope_eq_def by blast
  then show ?thesis using assms(2) by (simp add: scope_eq_def scope_hash_def)
qed

lemma zero_scopes_hash_apart:
  assumes "feq z z'" and "bits z \<noteq> bits z'"
  shows "scope_eq feq \<lparr>wsc_name = n, wsc_version = None, wsc_schema_url = None, wsc_attributes = [\<lparr>kv_key = k, kv_value = WF64 z\<rparr>]\<rparr>
      \<lparr>wsc_name = n, wsc_version = None, wsc_schema_url = None, wsc_attributes = [\<lparr>kv_key = k, kv_value = WF64 z'\<rparr>]\<rparr>"
    and "scope_hash bits trunc \<lparr>wsc_name = n, wsc_version = None, wsc_schema_url = None, wsc_attributes = [\<lparr>kv_key = k, kv_value = WF64 z\<rparr>]\<rparr> \<noteq>
      scope_hash bits trunc \<lparr>wsc_name = n, wsc_version = None, wsc_schema_url = None, wsc_attributes = [\<lparr>kv_key = k, kv_value = WF64 z'\<rparr>]\<rparr>"
  using assms by (simp_all add: scope_eq_def kv_eq_def scope_hash_def hash_list_def kv_hash_def)

text \<open>A time after the epoch reaches the wire exactly up to the year 2554, and wraps beyond.\<close>

lemma datetime_nanos_system:
  assumes "0 \<le> st"
  shows "datetime_nanos (datetime_from_system st) = word_of_int st"
proof -
  have "st mod 1000000000 < 2 ^ 32" using pos_mod_bound [of 1000000000 st] by simp
  then have "uint (word_of_int (st mod 1000000000) :: u32) = st mod 1000000000"
    by (simp add: uint_word_of_int)
  then have "(ucast (word_of_int (st mod 1000000000) :: u32) :: u64) = word_of_int (st mod 1000000000)"
    by (metis of_int_uint)
  then have "datetime_nanos (datetime_from_system st) =
      word_of_int (st div 1000000000) * word_of_int 1000000000 + word_of_int (st mod 1000000000)"
    using assms by (simp add: datetime_nanos_def datetime_from_system_def)
  also have "\<dots> = word_of_int (st div 1000000000 * 1000000000 + st mod 1000000000)"
    by (simp only: of_int_mult of_int_add)
  finally show ?thesis by simp
qed

end
