(* ===== verification/Telemetry.thy ===== *)
theory Telemetry
  imports OtelTypes
begin

text \<open>
  The otel crate: the telemetry of a host process (\<open>src/init.rs\<close>) and the layer that measures HTTP
  requests (\<open>src/tracing.rs\<close>).

  The state of the process is its environment, the cell \<open>RESOURCE\<close> and the globals of the
  OpenTelemetry and tracing crates.  What the SDK builds is the record \<open>host_sdk\<close>: a resource from
  attributes and an optional schema, the exporters and the providers.  The three filter
  directives are constants that parse.
\<close>

section \<open>The process\<close>

text \<open>
  A subscriber keeps the directives of its filter, the tracer with its name and the provider of
  its metrics layer.
\<close>

record ('m, 't) subscriber =
  sb_directives :: "string list"
  sb_tracer :: "'t \<times> string"
  sb_metrics :: 'm

text \<open>\<open>pr_env\<close> holds the variables whose value is Unicode, the only ones \<open>env::var\<close> gives.\<close>

record ('f, 'm, 't) process =
  pr_env :: "(string, string) hashmap"
  pr_resource :: "'f otel_resource option"
  pr_meter :: "'m option"
  pr_tracer :: "'t option"
  pr_subscriber :: "('m, 't) subscriber option"

record ('f, 'm, 't, 'x) host_sdk =
  hs_resource :: "(string \<times> 'f otel_value) list \<Rightarrow> string option \<Rightarrow> 'f otel_resource"
  hs_metric_exporter :: "string option \<Rightarrow> anyhow + 'x"
  hs_span_exporter :: "string option \<Rightarrow> anyhow + 'x"
  hs_meter_provider :: "'f otel_resource \<Rightarrow> 'x \<Rightarrow> 'm"
  hs_tracer_provider :: "'f otel_resource \<Rightarrow> 'x \<Rightarrow> 't"
  hs_version :: string     \<comment> \<open>\<open>CARGO_PKG_VERSION\<close>\<close>

text \<open>
  What the SDK promises of its resource builder: the attributes of the result have distinct
  keys, the last one given for a key wins over earlier ones and over the detected defaults, and
  a schema is kept.
\<close>

definition resource_laws :: "((string \<times> 'f otel_value) list \<Rightarrow> string option \<Rightarrow> 'f otel_resource) \<Rightarrow> bool" where
  "resource_laws build \<longleftrightarrow> (\<forall>kvs url.
     distinct (map fst (or_attributes (build kvs url))) \<and>
     map_of (or_attributes (build kvs url)) = map_of (or_attributes (build [] None)) ++ map_of (rev kvs) \<and>
     or_schema_url (build kvs url) = url)"

section \<open>Telemetry\<close>

record telemetry =
  tl_app_name :: string
  tl_env_name :: "string option"
  tl_endpoint :: "string option"

definition telemetry_new :: "string \<Rightarrow> telemetry" where
  "telemetry_new name = \<lparr>tl_app_name = name, tl_env_name = None, tl_endpoint = None\<rparr>"

definition telemetry_name :: "string \<Rightarrow> telemetry \<Rightarrow> telemetry" where
  "telemetry_name name otel = otel\<lparr>tl_app_name := name\<rparr>"

definition telemetry_env :: "string \<Rightarrow> telemetry \<Rightarrow> telemetry" where
  "telemetry_env env_name otel = otel\<lparr>tl_env_name := Some env_name\<rparr>"

definition telemetry_endpoint :: "string \<Rightarrow> telemetry \<Rightarrow> telemetry" where
  "telemetry_endpoint endpoint otel = otel\<lparr>tl_endpoint := Some endpoint\<rparr>"

definition unwrap_or :: "'a \<Rightarrow> 'a option \<Rightarrow> 'a" where
  "unwrap_or d x = (case x of None \<Rightarrow> d | Some a \<Rightarrow> a)"

definition telemetry_attributes ::
  "string \<Rightarrow> (string, string) hashmap \<Rightarrow> telemetry \<Rightarrow> (string \<times> 'f otel_value) list" where
  "telemetry_attributes version env otel =
     [(''service.name'', OString (tl_app_name otel)),
      (''deployment.environment'', OString (unwrap_or ''unknown'' (tl_env_name otel))),
      (''service.namespace'', OString (tl_app_name otel)),
      (''service.version'', OString version),
      (''service.instance.id'', OString (unwrap_or ''unknown'' (hm_get env ''HOSTNAME''))),
      (''telemetry.sdk.name'', OString ''opentelemetry''),
      (''instrumentation.provider'', OString ''opentelemetry'')]"

definition telemetry_resource ::
  "('f, 'm, 't, 'x) host_sdk \<Rightarrow> (string, string) hashmap \<Rightarrow> telemetry \<Rightarrow> 'f otel_resource" where
  "telemetry_resource S env otel = hs_resource S (telemetry_attributes (hs_version S) env otel) None"

text \<open>\<open>RESOURCE.set\<close>: a cell is set once.\<close>

definition set_resource :: "'f otel_resource \<Rightarrow> (('f, 'm, 't) process, anyhow, unit) op" where
  "set_resource r p = (case pr_resource p of
      None \<Rightarrow> (Inr (), p\<lparr>pr_resource := Some r\<rparr>)
    | Some _ \<Rightarrow> (Inl (Anyhow ''failed to set resource''), p))"

text \<open>\<open>resource\<close> is what \<open>RESOURCE.wait()\<close> gives, at once because \<open>build\<close> has set it by then.\<close>

definition init_metrics ::
  "('f, 'm, 't, 'x) host_sdk \<Rightarrow> 'f otel_resource \<Rightarrow> string option \<Rightarrow> anyhow + 'm" where
  "init_metrics S resource endpoint =
     res_bind (hs_metric_exporter S endpoint) (\<lambda>exporter. Inr (hs_meter_provider S resource exporter))"

definition init_traces ::
  "('f, 'm, 't, 'x) host_sdk \<Rightarrow> 'f otel_resource \<Rightarrow> string option \<Rightarrow> anyhow + 't" where
  "init_traces S resource endpoint =
     res_bind (hs_span_exporter S endpoint) (\<lambda>exporter. Inr (hs_tracer_provider S resource exporter))"

definition set_meter_provider :: "'m \<Rightarrow> (('f, 'm, 't) process, anyhow, unit) op" where
  "set_meter_provider m p = (Inr (), p\<lparr>pr_meter := Some m\<rparr>)"

definition set_tracer_provider :: "'t \<Rightarrow> (('f, 'm, 't) process, anyhow, unit) op" where
  "set_tracer_provider t p = (Inr (), p\<lparr>pr_tracer := Some t\<rparr>)"

definition try_init :: "('m, 't) subscriber \<Rightarrow> (('f, 'm, 't) process, anyhow, unit) op" where
  "try_init sb p = (case pr_subscriber p of
      None \<Rightarrow> (Inr (), p\<lparr>pr_subscriber := Some sb\<rparr>)
    | Some _ \<Rightarrow> (Inl (Foreign ''TryInitError''), p))"

definition telemetry_build ::
  "('f, 'm, 't, 'x) host_sdk \<Rightarrow> telemetry \<Rightarrow> (('f, 'm, 't) process, anyhow, unit) op" where
  "telemetry_build S otel p =
     (let resource = telemetry_resource S (pr_env p) otel in
      op_bind (set_resource resource) (\<lambda>_.
      op_bind (op_lift (init_metrics S resource (tl_endpoint otel))) (\<lambda>meter_provider.
      op_bind (set_meter_provider meter_provider) (\<lambda>_.
      op_bind (op_lift (init_traces S resource (tl_endpoint otel))) (\<lambda>tracer_provider.
      op_bind (set_tracer_provider tracer_provider) (\<lambda>_.
      try_init \<lparr>sb_directives = [''hyper=off'', ''h2=off'', ''tonic=off''],
        sb_tracer = (tracer_provider, tl_app_name otel), sb_metrics = meter_provider\<rparr>)))))) p"

section \<open>The tracing layer\<close>

text \<open>
  A span shows the fields it was created with; \<open>record\<close> sets a field only if the span was
  created with one of that name, as in the tracing crate.
\<close>

type_synonym span_fields = "(string \<times> string) list"

definition span_record :: "string \<Rightarrow> string \<Rightarrow> span_fields \<Rightarrow> span_fields" where
  "span_record field value fs = map (\<lambda>(k, v). (k, if k = field then value else v)) fs"

record http_line =
  hl_uri :: string
  hl_method :: string
  hl_path :: string

record 'f measurement =
  me_value :: 'f
  me_method :: string
  me_status :: int
  me_route :: string

text \<open>The state: the inner service's, the measurements of the histogram and the finished spans.\<close>

record ('s, 'f) traced =
  tv_inner :: 's
  tv_histogram :: "'f measurement list"
  tv_spans :: "span_fields list"

definition request_span :: "http_line \<Rightarrow> span_fields" where
  "request_span line = [(''uri'', hl_uri line), (''otel.kind'', ''server''),
     (''http.request.method'', hl_method line), (''http.target'', hl_uri line),
     (''http.route'', hl_path line), (''category'', ''http''),
     (''instrumentation.provider'', ''opentelemetry'')]"

definition response_status :: "('r \<Rightarrow> u16) \<Rightarrow> 'e + 'r \<Rightarrow> int" where
  "response_status status_of response = (case response of Inl _ \<Rightarrow> 500 | Inr r \<Rightarrow> uint (status_of r))"

text \<open>
  \<open>inner\<close> is the wrapped service, \<open>start\<close> and \<open>stop\<close> the clock before and after it, \<open>secs\<close> a
  duration as \<open>f64\<close> and \<open>show\<close> how a span prints a number.
\<close>

definition tracing_call ::
  "('q \<Rightarrow> http_line) \<Rightarrow> ('r \<Rightarrow> u16) \<Rightarrow> (int \<Rightarrow> 'f) \<Rightarrow> (int \<Rightarrow> string) \<Rightarrow> ('q \<Rightarrow> ('s, 'e, 'r) op) \<Rightarrow> int \<Rightarrow> int \<Rightarrow>
   'q \<Rightarrow> (('s, 'f) traced, 'e, 'r) op" where
  "tracing_call line_of status_of secs show inner start stop req v =
     (let line = line_of req; span = request_span line;
          (response, s) = inner req (tv_inner v);
          status = response_status status_of response;
          measured = \<lparr>me_value = secs (stop - start), me_method = hl_method line, me_status = status,
            me_route = hl_path line\<rparr>
      in (response, \<lparr>tv_inner = s, tv_histogram = tv_histogram v @ [measured],
           tv_spans = tv_spans v @ [span_record ''http.response.status_code'' (show status) span]\<rparr>))"

section \<open>Lemmas\<close>

lemma telemetry_build_again:
  "pr_resource p = Some r \<Longrightarrow> telemetry_build S otel p = (Inl (Anyhow ''failed to set resource''), p)"
  by (simp add: telemetry_build_def Let_def set_resource_def op_bind_def)

text \<open>Every way the first build ends leaves the resource set and the environment alone.\<close>

lemma telemetry_build_first:
  assumes "pr_resource p = None" and "telemetry_build S otel p = (r, p')"
  shows "pr_resource p' = Some (telemetry_resource S (pr_env p) otel)" and "pr_env p' = pr_env p"
  using assms
  by (auto simp: telemetry_build_def Let_def set_resource_def op_bind_def set_meter_provider_def
      set_tracer_provider_def try_init_def split: sum.splits option.splits)

lemma telemetry_attribute:
  assumes "resource_laws (hs_resource S)" and "map_of (rev (telemetry_attributes (hs_version S) env otel)) k = Some v"
  shows "map_of (or_attributes (telemetry_resource S env otel)) k = Some v"
proof -
  have "map_of (or_attributes (telemetry_resource S env otel)) =
      map_of (or_attributes (hs_resource S [] None)) ++ map_of (rev (telemetry_attributes (hs_version S) env otel))"
    using assms(1) unfolding telemetry_resource_def resource_laws_def by blast
  with assms(2) show ?thesis by simp
qed

text \<open>Repeated builds in one process.\<close>

fun build_all ::
  "('f, 'm, 't, 'x) host_sdk \<Rightarrow> telemetry list \<Rightarrow> ('f, 'm, 't) process \<Rightarrow> (anyhow + unit) list \<times> ('f, 'm, 't) process" where
  "build_all S [] p = ([], p)"
| "build_all S (otel # tls) p = (case telemetry_build S otel p of (r, p1) \<Rightarrow>
     (case build_all S tls p1 of (rs, p2) \<Rightarrow> (r # rs, p2)))"

lemma build_all_again:
  "pr_resource p = Some r \<Longrightarrow>
    build_all S tls p = (replicate (length tls) (Inl (Anyhow ''failed to set resource'')), p)"
  by (induction tls) (simp_all add: telemetry_build_again)

section \<open>Properties\<close>

text \<open>
  One telemetry per process.  Of any sequence of builds in a process only the first has an
  effect, whether it succeeds or not: it fixes the resource for good, every later build
  fails and changes nothing, so a build that failed after the resource was set (an exporter that
  cannot be created) cannot be repeated with other settings.
\<close>

theorem telemetry_built_once:
  assumes "pr_resource p = None" and "telemetry_build S otel p = (r, p')"
  shows "build_all S (otel # tls) p = (r # replicate (length tls) (Inl (Anyhow ''failed to set resource'')), p') \<and>
    pr_resource p' = Some (telemetry_resource S (pr_env p) otel)"
  using assms telemetry_build_first(1) [OF assms] by (simp add: build_all_again)

definition demo_build :: "(string \<times> 'f otel_value) list \<Rightarrow> string option \<Rightarrow> 'f otel_resource" where
  "demo_build kvs url = \<lparr>or_attributes = fold (\<lambda>(k, v). hm_insert k v) kvs [(''telemetry.sdk.language'', OString ''rust'')],
     or_schema_url = url\<rparr>"

lemma demo_build_laws: "resource_laws demo_build"
  using hm_wf_fold_insert [of "[(''telemetry.sdk.language'', OString ''rust'')]"]
  by (auto simp: resource_laws_def demo_build_def hm_fold_insert hm_wf_def)

text \<open>An SDK whose metric exporter refuses an endpoint.\<close>

definition demo_sdk :: "(int, nat, nat, nat) host_sdk" where
  "demo_sdk = \<lparr>hs_resource = demo_build,
     hs_metric_exporter = (\<lambda>e. if e = None then Inr 1 else Inl (Foreign ''ExporterBuildError'')),
     hs_span_exporter = (\<lambda>_. Inr 2), hs_meter_provider = (\<lambda>_ x. x), hs_tracer_provider = (\<lambda>_ x. x),
     hs_version = ''1''\<rparr>"

definition demo_process :: "(int, nat, nat) process" where
  "demo_process = \<lparr>pr_env = [(''HOSTNAME'', ''h'')], pr_resource = None, pr_meter = None, pr_tracer = None,
     pr_subscriber = None\<rparr>"

theorem telemetry_built_once_witness:
  "fst (build_all demo_sdk [telemetry_endpoint ''e'' (telemetry_new ''a''), telemetry_new ''a''] demo_process) =
    [Inl (Foreign ''ExporterBuildError''), Inl (Anyhow ''failed to set resource'')]"
proof -
  obtain r p' where b: "telemetry_build demo_sdk (telemetry_endpoint ''e'' (telemetry_new ''a'')) demo_process = (r, p')"
    by (rule prod.exhaust)
  have "r = Inl (Foreign ''ExporterBuildError'')"
    using arg_cong [OF b, of fst]
    by (simp add: telemetry_build_def telemetry_endpoint_def telemetry_new_def set_resource_def op_bind_def
        init_metrics_def demo_sdk_def demo_process_def Let_def)
  moreover have "pr_resource demo_process = None" by (simp add: demo_process_def)
  ultimately show ?thesis
    using telemetry_built_once [OF _ b, of "[telemetry_new ''a'']"] by simp
qed

text \<open>
  Measured requests.  The layer calls the service once and gives back exactly its answer and
  its effects; it adds one measurement, with the method, the path and the status of the answer,
  500 for an error; the span it leaves does not show the status, because it was created without
  such a field.
\<close>

theorem tracing_call_spec:
  "tracing_call line_of status_of secs show inner start stop req v =
     (fst (inner req (tv_inner v)), \<lparr>tv_inner = snd (inner req (tv_inner v)),
       tv_histogram = tv_histogram v @ [\<lparr>me_value = secs (stop - start), me_method = hl_method (line_of req),
         me_status = (case fst (inner req (tv_inner v)) of Inl _ \<Rightarrow> 500 | Inr r \<Rightarrow> uint (status_of r)),
         me_route = hl_path (line_of req)\<rparr>],
       tv_spans = tv_spans v @ [request_span (line_of req)]\<rparr>) \<and>
   map_of (request_span (line_of req)) ''http.response.status_code'' = None"
  by (simp add: tracing_call_def response_status_def span_record_def request_span_def Let_def split_def)

end
