(* ===== verification/Runtime.thy ===== *)
theory Runtime
  imports Telemetry RuntimeMacro
begin

text \<open>
  The qwasr crate: preparing a component (\<open>src/create.rs\<close>), compiling one (\<open>src/compile.rs\<close>) and
  the traits of hosts and backends (\<open>src/traits.rs\<close>), composed with the code that the \<open>runtime!\<close>
  macro generates around them (theory RuntimeMacro) and with the telemetry of the process.

  wasmtime and the file system are records of operations.  A path of the file system is its list
  of components, as \<open>std::path\<close> compares paths.
\<close>

section \<open>Paths\<close>

datatype path_component = RootDir | CurDir | ParentDir | Normal string

fun component_of :: "string \<Rightarrow> path_component" where
  "component_of part = (if part = ''..'' then ParentDir else Normal part)"

definition components :: "string \<Rightarrow> path_component list" where
  "components s = (let parts = filter (\<lambda>w. w \<noteq> []) (split_on CHR ''/'' s);
       start = (if starts_with ''/'' s then [RootDir]
         else if parts \<noteq> [] \<and> hd parts = ''.'' then [CurDir] else [])
     in start @ map component_of (filter (\<lambda>w. w \<noteq> ''.'') parts))"

definition file_name :: "string \<Rightarrow> string option" where
  "file_name path = (let cs = components path in
     if cs = [] then None else (case last cs of Normal name \<Rightarrow> Some name | _ \<Rightarrow> None))"

text \<open>\<open>file_stem\<close>: up to the last dot, unless that is the first character.\<close>

definition stem_of :: "string \<Rightarrow> string" where
  "stem_of name = (let before = rev (drop 1 (dropWhile (\<lambda>c. c \<noteq> CHR ''.'') (rev name)))
     in if before = [] then name else before)"

definition file_stem :: "string \<Rightarrow> string option" where
  "file_stem path = map_option stem_of (file_name path)"

definition path_parent :: "path_component list \<Rightarrow> path_component list option" where
  "path_parent cs = (if cs = [] \<or> last cs = RootDir then None else Some (butlast cs))"

section \<open>wasmtime\<close>

record ('e, 'c, 'l, 'i) wasmtime =
  wt_engine :: "anyhow + 'e"     \<comment> \<open>with async support and the asynchronous component model\<close>
  wt_deserialize :: "'e \<Rightarrow> string \<Rightarrow> anyhow + 'c"
  wt_from_file :: "'e \<Rightarrow> string \<Rightarrow> anyhow + 'c"
  wt_serialize :: "'c \<Rightarrow> anyhow + bytes"
  wt_linker :: "'e \<Rightarrow> 'l"
  wt_add_p2 :: "('l, anyhow, unit) op"
  wt_add_p3 :: "('l, anyhow, unit) op"
  wt_instantiate_pre :: "'l \<Rightarrow> 'c \<Rightarrow> anyhow + 'i"

section \<open>Preparing a component\<close>

definition set_component :: "string \<Rightarrow> ('f, 'm, 't) process \<Rightarrow> ('f, 'm, 't) process" where
  "set_component name p = (if hm_get (pr_env p) ''COMPONENT'' = None
     then p\<lparr>pr_env := hm_insert ''COMPONENT'' name (pr_env p)\<rparr> else p)"

text \<open>\<open>utf8\<close> says whether a file name is Unicode.\<close>

definition component_name :: "(string \<Rightarrow> bool) \<Rightarrow> string \<Rightarrow> string" where
  "component_name utf8 wasm = (case file_stem wasm of
      Some stem \<Rightarrow> if utf8 stem then stem else ''unknown''
    | None \<Rightarrow> ''unknown'')"

definition init_env ::
  "('f, 'm, 't, 'x) host_sdk \<Rightarrow> (string \<Rightarrow> bool) \<Rightarrow> string \<Rightarrow> (('f, 'm, 't) process, anyhow, unit) op" where
  "init_env S utf8 wasm p =
     (let name = component_name utf8 wasm;
          p1 = set_component name p;
          builder = telemetry_new name;
          builder = (case hm_get (pr_env p1) ''OTEL_GRPC_URL'' of
            Some url \<Rightarrow> telemetry_endpoint url builder | None \<Rightarrow> builder)
      in op_map_err (Context ''initializing telemetry'') (telemetry_build S builder) p1)"

record ('c, 'l) compiled =
  cp_component :: 'c
  cp_linker :: 'l

text \<open>\<open>jit\<close> is the feature.  The linker is created with the engine and dropped on an error.\<close>

definition load_component :: "bool \<Rightarrow> ('e, 'c, 'l, 'i) wasmtime \<Rightarrow> 'e \<Rightarrow> string \<Rightarrow> anyhow + 'c" where
  "load_component jit W engine wasm = (case wt_deserialize W engine wasm of
      Inr c \<Rightarrow> Inr c
    | Inl e \<Rightarrow> if jit then wt_from_file W engine wasm
        else Inl (Anyhow ''Issue loading component. Enable `jit` feature to load wasm32 files.''))"

definition new_linker :: "('e, 'c, 'l, 'i) wasmtime \<Rightarrow> 'e \<Rightarrow> anyhow + 'l" where
  "new_linker W engine = (case op_bind (wt_add_p2 W) (\<lambda>_. wt_add_p3 W) (wt_linker W engine) of
      (Inl e, _) \<Rightarrow> Inl e | (Inr _, linker) \<Rightarrow> Inr linker)"

definition runtime_create ::
  "bool \<Rightarrow> ('f, 'm, 't, 'x) host_sdk \<Rightarrow> ('e, 'c, 'l, 'i) wasmtime \<Rightarrow> (string \<Rightarrow> bool) \<Rightarrow> string \<Rightarrow>
   (('f, 'm, 't) process, anyhow, ('c, 'l) compiled) op" where
  "runtime_create jit S W utf8 wasm =
     op_bind (init_env S utf8 wasm) (\<lambda>_.
     op_bind (op_lift (wt_engine W)) (\<lambda>engine.
     op_bind (op_lift (load_component jit W engine wasm)) (\<lambda>component.
     op_bind (op_lift (new_linker W engine)) (\<lambda>linker.
     op_return \<lparr>cp_component = component, cp_linker = linker\<rparr>))))"

definition compiled_link :: "('l, anyhow, unit) op \<Rightarrow> (('c, 'l) compiled, anyhow, unit) op" where
  "compiled_link add_to_linker c = (case add_to_linker (cp_linker c) of (r, l) \<Rightarrow> (r, c\<lparr>cp_linker := l\<rparr>))"

definition compiled_pre_instantiate ::
  "('e, 'c, 'l, 'i) wasmtime \<Rightarrow> (('c, 'l) compiled, anyhow, 'i) op" where
  "compiled_pre_instantiate W c = (wt_instantiate_pre W (cp_linker c) (cp_component c), c)"

section \<open>Backends and servers\<close>

text \<open>A backend reads its options from the environment, then connects.\<close>

definition backend_connect ::
  "((string, string) hashmap \<Rightarrow> anyhow + 'o) \<Rightarrow> ('o \<Rightarrow> anyhow + 'b) \<Rightarrow> (string, string) hashmap \<Rightarrow> anyhow + 'b" where
  "backend_connect from_env connect_with env = res_bind (from_env env) connect_with"

definition server_run_default :: "('s, anyhow, unit) op" where
  "server_run_default = op_return ()"

section \<open>The generated runtime\<close>

text \<open>
  \<open>run\<close> up to the start of the servers: create, then the generated \<open>Context::new\<close> on the compiled
  component.  \<open>add\<close> links a host and \<open>connect\<close> connects a backend in an environment.
\<close>

definition prepare_runtime ::
  "bool \<Rightarrow> ('f, 'm, 't, 'x) host_sdk \<Rightarrow> ('e, 'c, 'l, 'i) wasmtime \<Rightarrow> (string \<Rightarrow> bool) \<Rightarrow>
   (rust_path \<Rightarrow> ('l, anyhow, unit) op) \<Rightarrow> (rust_path \<Rightarrow> (string, string) hashmap \<Rightarrow> anyhow + 'b) \<Rightarrow>
   expanded \<Rightarrow> string \<Rightarrow> (('f, 'm, 't) process, anyhow, 'i \<times> (string \<times> 'b) list) op" where
  "prepare_runtime jit S W utf8 add connect ex wasm =
     op_bind (op_map_err (Context (''compiling '' @ wasm)) (runtime_create jit S W utf8 wasm)) (\<lambda>compiled p.
       (res_map_err (Context ''preparing runtime state'')
         (fst (context_new (\<lambda>host. compiled_link (add host)) (compiled_pre_instantiate W)
           (\<lambda>backend. op_lift (connect backend (pr_env p))) ex compiled)), p))"

text \<open>
  The generated \<open>start\<close> runs the server of every host at once (the list of servers is that of the
  hosts).  \<open>try_join_all\<close> is given the servers
  still running and the calls to \<open>run\<close> that have ended, by the position of their host, in the order
  in which they end; it returns with the first error, and \<open>None\<close> says that it still waits.
\<close>

fun try_join_all :: "nat list \<Rightarrow> (nat \<times> ('e + unit)) list \<Rightarrow> ('e + unit) option" where
  "try_join_all [] ended = Some (Inr ())"
| "try_join_all (i # running) [] = None"
| "try_join_all (i # running) ((j, r) # ended) = (case r of
      Inl e \<Rightarrow> Some (Inl e)
    | Inr _ \<Rightarrow> try_join_all (remove1 j (i # running)) ended)"

definition context_start :: "expanded \<Rightarrow> (nat \<times> ('e + unit)) list \<Rightarrow> ('e + unit) option" where
  "context_start ex ended = try_join_all [0..<length (ex_host_trait_impls ex)] ended"

text \<open>\<open>serve\<close> says which servers have ended, given the context they run with.\<close>

definition runtime_run ::
  "bool \<Rightarrow> ('f, 'm, 't, 'x) host_sdk \<Rightarrow> ('e, 'c, 'l, 'i) wasmtime \<Rightarrow> (string \<Rightarrow> bool) \<Rightarrow>
   (rust_path \<Rightarrow> ('l, anyhow, unit) op) \<Rightarrow> (rust_path \<Rightarrow> (string, string) hashmap \<Rightarrow> anyhow + 'b) \<Rightarrow>
   ('i \<times> (string \<times> 'b) list \<Rightarrow> (nat \<times> (anyhow + unit)) list) \<Rightarrow> expanded \<Rightarrow> string \<Rightarrow>
   ('f, 'm, 't) process \<Rightarrow> (anyhow + unit) option" where
  "runtime_run jit S W utf8 add connect serve ex wasm p =
     (case fst (prepare_runtime jit S W utf8 add connect ex wasm p) of
        Inl e \<Rightarrow> Some (Inl e)
      | Inr context' \<Rightarrow> map_option (res_map_err (Context ''starting runtime services'')) (context_start ex (serve context')))"

text \<open>
  The generated \<open>main\<close>, if the configuration asks for one: \<open>None\<close> stands for its \<open>unreachable!()\<close>.
  The command \<open>compile\<close> exists in builds with \<open>jit\<close>.
\<close>

datatype cli_command = CliRun string | CliCompile string "string option"

definition generated_main :: "expanded \<Rightarrow> (string \<Rightarrow> 'r) \<Rightarrow> (cli_command \<Rightarrow> 'r option) option" where
  "generated_main ex run = (if ex_main_fn ex
     then Some (\<lambda>command. case command of CliRun wasm \<Rightarrow> Some (run wasm) | _ \<Rightarrow> None) else None)"

section \<open>Compiling\<close>

record 's file_system =
  fs_is_dir :: "path_component list \<Rightarrow> 's \<Rightarrow> bool"
  fs_exists :: "path_component list \<Rightarrow> ('s, anyhow, bool) op"
  fs_create_dir_all :: "path_component list \<Rightarrow> ('s, anyhow, unit) op"
  fs_create :: "path_component list \<Rightarrow> ('s, anyhow, unit) op"
  fs_write_all :: "path_component list \<Rightarrow> bytes \<Rightarrow> ('s, anyhow, unit) op"
  fs_stdout :: "bytes \<Rightarrow> ('s, anyhow, unit) op"

definition compile_bytes :: "('e, 'c, 'l, 'i) wasmtime \<Rightarrow> string \<Rightarrow> anyhow + bytes" where
  "compile_bytes W wasm = res_bind (wt_engine W) (\<lambda>engine.
     res_bind (wt_from_file W engine wasm) (wt_serialize W))"

text \<open>\<open>lossy\<close> is \<open>to_string_lossy\<close>.\<close>

definition output_path ::
  "'s file_system \<Rightarrow> (string \<Rightarrow> string) \<Rightarrow> string \<Rightarrow> string \<Rightarrow> 's \<Rightarrow> path_component list" where
  "output_path F lossy name out s = (if fs_is_dir F (components out) s
     then components out @ [Normal (replace_all ''.wasm'' ''.bin'' (lossy name))] else components out)"

definition write_output :: "'s file_system \<Rightarrow> path_component list \<Rightarrow> bytes \<Rightarrow> ('s, anyhow, unit) op" where
  "write_output F out_path serialized =
     op_bind (case path_parent out_path of None \<Rightarrow> op_return ()
       | Some dir \<Rightarrow> op_bind (fs_exists F dir) (\<lambda>found. if found then op_return () else fs_create_dir_all F dir)) (\<lambda>_.
     op_bind (fs_create F out_path) (\<lambda>_. fs_write_all F out_path serialized))"

definition runtime_compile ::
  "('e, 'c, 'l, 'i) wasmtime \<Rightarrow> 's file_system \<Rightarrow> (string \<Rightarrow> string) \<Rightarrow> string \<Rightarrow> string option \<Rightarrow> ('s, anyhow, unit) op" where
  "runtime_compile W F lossy wasm output =
     (case file_name wasm of
        None \<Rightarrow> op_fail (Anyhow ''invalid file name'')
      | Some name \<Rightarrow> op_bind (op_lift (compile_bytes W wasm)) (\<lambda>serialized.
          case output of
            Some out \<Rightarrow> (\<lambda>s. write_output F (output_path F lossy name out s) serialized s)
          | None \<Rightarrow> fs_stdout F serialized))"

section \<open>Lemmas\<close>

lemma file_name_in_dir:
  assumes "CHR ''/'' \<notin> set name" and "name \<noteq> []" and "name \<noteq> ''.''" and "name \<noteq> ''..''"
  shows "file_name (dir @ ''/'' @ name) = Some name"
proof -
  have "split_on CHR ''/'' (dir @ ''/'' @ name) = split_on CHR ''/'' dir @ [name]"
  proof (induction dir)
    case Nil
    have "split_by (\<lambda>x. x = CHR ''/'') name = [name]"
      using assms(1) by (intro split_by_no_sep) auto
    then show ?case by (simp add: split_on_def)
  next
    case (Cons c cs)
    then show ?case by (auto simp: split_on_def neq_Nil_conv split: list.splits)
  qed
  then show ?thesis using assms(2-4) by (simp add: file_name_def components_def Let_def)
qed

lemma stem_of_extension:
  assumes "stem \<noteq> []" and "CHR ''.'' \<notin> set ext"
  shows "stem_of (stem @ ''.'' @ ext) = stem"
proof -
  have "dropWhile (\<lambda>c. c \<noteq> CHR ''.'') (rev ext @ CHR ''.'' # rev stem) = CHR ''.'' # rev stem"
    using assms(2) by (subst dropWhile_append2) auto
  then show ?thesis using assms(1) by (simp add: stem_of_def)
qed

lemma component_name_wasm:
  assumes "CHR ''/'' \<notin> set name" and "name \<noteq> []" and "utf8 name"
  shows "component_name utf8 (dir @ ''/'' @ name @ ''.wasm'') = name"
proof -
  have "file_name (dir @ ''/'' @ name @ ''.wasm'') = Some (name @ ''.wasm'')"
    using assms(1,2) by (intro file_name_in_dir) (auto simp: Cons_eq_append_conv append_eq_Cons_conv)
  moreover have "stem_of (name @ ''.wasm'') = name"
    using stem_of_extension [OF assms(2), of "''wasm''"] by simp
  ultimately show ?thesis using assms(3) by (simp add: component_name_def file_stem_def)
qed

lemma replace_all_no_dot:
  assumes "CHR ''.'' \<notin> set name"
  shows "replace_all ''.wasm'' ''.bin'' (name @ ''.wasm'') = name @ ''.bin''"
  using assms by (induction name) auto

lemma set_component_var:
  "hm_get (pr_env (set_component name p)) ''COMPONENT'' =
     Some (case hm_get (pr_env p) ''COMPONENT'' of None \<Rightarrow> name | Some c \<Rightarrow> c)"
  "pr_resource (set_component name p) = pr_resource p"
  by (auto simp: set_component_def)

lemma init_env_again:
  "pr_resource p = Some r \<Longrightarrow> fst (init_env S utf8 wasm p) =
     Inl (Context ''initializing telemetry'' (Anyhow ''failed to set resource''))"
  by (simp add: init_env_def Let_def op_map_err_def telemetry_build_again set_component_var)

lemma init_env_first:
  assumes "pr_resource p = None" and "init_env S utf8 wasm p = (r, p')"
  shows "pr_env p' = pr_env (set_component (component_name utf8 wasm) p)" and "pr_resource p' \<noteq> None"
    and "\<exists>otel. pr_resource p' = Some (telemetry_resource S (pr_env p') otel) \<and>
      tl_app_name otel = component_name utf8 wasm \<and> tl_env_name otel = None"
proof -
  let ?p1 = "set_component (component_name utf8 wasm) p"
  let ?otel = "case hm_get (pr_env ?p1) ''OTEL_GRPC_URL'' of
      Some url \<Rightarrow> telemetry_endpoint url (telemetry_new (component_name utf8 wasm))
    | None \<Rightarrow> telemetry_new (component_name utf8 wasm)"
  obtain r0 where b: "telemetry_build S ?otel ?p1 = (r0, p')"
    using assms(2) by (auto simp: init_env_def Let_def op_map_err_def split: prod.splits)
  have none: "pr_resource ?p1 = None" using assms(1) by (simp add: set_component_var)
  note first = telemetry_build_first [OF none b]
  show "pr_env p' = pr_env ?p1" and "pr_resource p' \<noteq> None" using first by simp_all
  show "\<exists>otel. pr_resource p' = Some (telemetry_resource S (pr_env p') otel) \<and>
      tl_app_name otel = component_name utf8 wasm \<and> tl_env_name otel = None"
    using first by (intro exI [of _ ?otel])
      (auto simp: telemetry_endpoint_def telemetry_new_def split: option.split)
qed

lemma create_process: "snd (runtime_create jit S W utf8 wasm p) = snd (init_env S utf8 wasm p)"
  by (simp add: runtime_create_def op_bind_def split: prod.split sum.split)

lemma connect_all_pure:
  "connect_all (\<lambda>b. op_lift (f b)) flds s = (Inr cs, s') \<Longrightarrow>
     s' = s \<and> map Inr cs = map (\<lambda>(field, b). res_bind (f b) (\<lambda>c. Inr (field, c))) flds"
  by (induction flds arbitrary: cs) (auto simp: op_bind_Inr)

lemma try_join_all_spec:
  assumes "distinct running" and "distinct (map fst ended)" and "fst ` set ended \<subseteq> set running"
  shows "try_join_all running ended = (case find (\<lambda>(i, r). isl r) ended of
      Some (i, r) \<Rightarrow> Some r
    | None \<Rightarrow> if length ended < length running then None else Some (Inr ()))"
  using assms
proof (induction running ended rule: try_join_all.induct)
  case (3 i running j r ended)
  show ?case
  proof (cases r)
    case (Inr u)
    have j: "j \<in> set (i # running)" using "3.prems"(3) by simp
    have rest: "fst ` set ended \<subseteq> set (remove1 j (i # running))"
      using "3.prems" by (force simp: set_remove1_eq)
    have "distinct (remove1 j (i # running))" using "3.prems"(1) by (rule distinct_remove1)
    from "3.IH" [OF Inr this _ rest] "3.prems"(2)
    have "try_join_all (remove1 j (i # running)) ended = (case find (\<lambda>(i, r). isl r) ended of
        Some (i, r) \<Rightarrow> Some r
      | None \<Rightarrow> if length ended < length (remove1 j (i # running)) then None else Some (Inr ()))" by simp
    moreover have "length (remove1 j (i # running)) = length running"
      using j by (subst length_remove1) simp
    ultimately show ?thesis using Inr by (simp del: remove1.simps split: option.split)
  qed simp
qed auto

lemma failed_or_not:
  "((\<forall>x \<in> set xs. snd x = Inr ()) \<and> find (\<lambda>(i, r). isl r) xs = None) \<or>
   (\<exists>before i e after. xs = before @ (i, Inl e) # after \<and> (\<forall>x \<in> set before. snd x = Inr ()) \<and>
     find (\<lambda>(i, r). isl r) xs = Some (i, Inl e))"
proof (induction xs)
  case (Cons x xs)
  obtain j r where x: "x = (j, r)" by (cases x)
  show ?case
  proof (cases r)
    case (Inl e)
    then show ?thesis by (intro disjI2 exI [of _ "[]"]) (simp add: x)
  next
    case (Inr u)
    from Cons.IH show ?thesis
    proof (elim disjE exE conjE)
      fix before i e after
      assume "xs = before @ (i, Inl e) # after" "\<forall>x \<in> set before. snd x = Inr ()"
        "find (\<lambda>(i, r). isl r) xs = Some (i, Inl e)"
      then show ?thesis using Inr by (intro disjI2 exI [of _ "x # before"]) (simp add: x)
    qed (simp add: x Inr)
  qed
qed simp

lemma first_failure:
  "before @ (i, Inl e) # after = before' @ (i', Inl e') # after' \<Longrightarrow>
   \<forall>x \<in> set before. snd x = Inr () \<Longrightarrow> \<forall>x \<in> set before'. snd x = Inr () \<Longrightarrow> e = e'"
  by (induction before arbitrary: before') (auto simp: Cons_eq_append_conv append_eq_Cons_conv)

text \<open>
  A generated program runs the component it is given, by \<open>run\<close>, and panics on the other command of
  its own command line.
\<close>

lemma generated_main_commands:
  assumes "rc_gen_main cfg"
  shows "\<exists>main. generated_main (expand_runtime X cfg) run = Some main \<and>
    main (CliRun wasm) = Some (run wasm) \<and> main (CliCompile wasm output) = None"
  using assms by (simp add: generated_main_def expand_runtime_def Let_def)

lemma prepare_runtime_Inr:
  assumes "pr_resource p = None"
    and "prepare_runtime jit S W utf8 add connect ex wasm p = (Inr (inst, flds), p')"
  shows "(\<exists>engine l0 l component. wt_engine W = Inr engine \<and> new_linker W engine = Inr l0 \<and>
      op_for add (ex_host_trait_impls ex) l0 = (Inr (), l) \<and>
      load_component jit W engine wasm = Inr component \<and> wt_instantiate_pre W l component = Inr inst) \<and>
    map Inr flds = map (\<lambda>(field, b). res_bind (connect b (pr_env p')) (\<lambda>c. Inr (field, c))) (ex_context_fields ex) \<and>
    hm_get (pr_env p') ''COMPONENT'' \<noteq> None"
proof -
  obtain compiled where c: "runtime_create jit S W utf8 wasm p = (Inr compiled, p')"
      and new: "fst (context_new (\<lambda>host. compiled_link (add host)) (compiled_pre_instantiate W)
        (\<lambda>backend. op_lift (connect backend (pr_env p'))) ex compiled) = Inr (inst, flds)"
    using assms(2) by (auto simp: prepare_runtime_def op_bind_Inr)
  have link: "op_for (\<lambda>host. compiled_link (add host)) hosts c1 = (Inr (), c2) \<Longrightarrow>
      op_for add hosts (cp_linker c1) = (Inr (), cp_linker c2) \<and> cp_component c2 = cp_component c1" for hosts c1 c2
    by (induction hosts arbitrary: c1) (fastforce simp: op_bind_Inr compiled_link_def split: prod.splits)+
  obtain engine component l0 where e: "wt_engine W = Inr engine" "load_component jit W engine wasm = Inr component"
      "new_linker W engine = Inr l0" "compiled = \<lparr>cp_component = component, cp_linker = l0\<rparr>"
    using c by (auto simp: runtime_create_def op_bind_Inr)
  obtain c2 where n: "context_new (\<lambda>host. compiled_link (add host)) (compiled_pre_instantiate W)
      (\<lambda>backend. op_lift (connect backend (pr_env p'))) ex compiled = (Inr (inst, flds), c2)"
    using new by (metis fst_conv prod.exhaust_sel)
  obtain c1 where c1: "op_for (\<lambda>host. compiled_link (add host)) (ex_host_trait_impls ex) compiled = (Inr (), c1)"
      "wt_instantiate_pre W (cp_linker c1) (cp_component c1) = Inr inst"
      "connect_all (\<lambda>backend. op_lift (connect backend (pr_env p'))) (ex_context_fields ex) c1 = (Inr flds, c2)"
    using n by (auto simp: context_new_def op_bind_Inr compiled_pre_instantiate_def)
  have "hm_get (pr_env p') ''COMPONENT'' \<noteq> None"
    using init_env_first(1) [OF assms(1), of S utf8 wasm] c create_process [of jit S W utf8 wasm p]
    by (cases "init_env S utf8 wasm p") (simp add: set_component_var)
  with link [OF c1(1)] c1(2) connect_all_pure [OF c1(3)] e show ?thesis by auto
qed

section \<open>Properties\<close>

text \<open>
  How a runtime runs.  Once it is prepared it goes on as long as no server has failed and one
  still runs; it returns \<open>Ok\<close> when all have returned \<open>Ok\<close>, and the first server that fails ends it
  with its error, whatever the others do.
\<close>

theorem runtime_serves:
  assumes "fst (prepare_runtime jit S W utf8 add connect ex wasm p) = Inr c"
    and "distinct (map fst (serve c))" and "fst ` set (serve c) \<subseteq> {..<length (ex_host_trait_impls ex)}"
  shows "(runtime_run jit S W utf8 add connect serve ex wasm p = None \<longleftrightarrow>
      (\<forall>x \<in> set (serve c). snd x = Inr ()) \<and> length (serve c) < length (ex_host_trait_impls ex)) \<and>
    (runtime_run jit S W utf8 add connect serve ex wasm p = Some (Inr ()) \<longleftrightarrow>
      (\<forall>x \<in> set (serve c). snd x = Inr ()) \<and> length (serve c) = length (ex_host_trait_impls ex)) \<and>
    (\<forall>e. runtime_run jit S W utf8 add connect serve ex wasm p = Some (Inl e) \<longleftrightarrow>
      (\<exists>before i e0 after. serve c = before @ (i, Inl e0) # after \<and> e = Context ''starting runtime services'' e0 \<and>
        (\<forall>x \<in> set before. snd x = Inr ())))"
proof -
  let ?n = "length (ex_host_trait_impls ex)" and ?ended = "serve c"
  have run: "runtime_run jit S W utf8 add connect serve ex wasm p =
      map_option (res_map_err (Context ''starting runtime services''))
        (case find (\<lambda>(i, r). isl r) ?ended of Some (i, r) \<Rightarrow> Some r
         | None \<Rightarrow> if length ?ended < ?n then None else Some (Inr ()))"
    using assms by (simp add: runtime_run_def context_start_def try_join_all_spec atLeast_upt)
  have le: "length ?ended \<le> ?n"
    using assms(2,3) card_mono [OF finite_lessThan assms(3)] by (metis card_lessThan distinct_card length_map set_map)
  from failed_or_not [of ?ended] show ?thesis
  proof (elim disjE exE conjE)
    assume ok: "\<forall>x \<in> set ?ended. snd x = Inr ()" and "find (\<lambda>(i, r). isl r) ?ended = None"
    moreover from ok have "\<not> (\<exists>before i e0 after. ?ended = before @ (i, Inl e0) # after)" by force
    ultimately show ?thesis using le run by auto
  next
    fix before i e0 after
    assume split: "?ended = before @ (i, Inl e0) # after" and ok: "\<forall>x \<in> set before. snd x = Inr ()"
      and "find (\<lambda>(i, r). isl r) ?ended = Some (i, Inl e0)"
    then have "runtime_run jit S W utf8 add connect serve ex wasm p =
        Some (Inl (Context ''starting runtime services'' e0))" using run by simp
    then have "runtime_run jit S W utf8 add connect serve ex wasm p \<noteq> None"
      and "runtime_run jit S W utf8 add connect serve ex wasm p \<noteq> Some (Inr ())"
      and "\<forall>e. runtime_run jit S W utf8 add connect serve ex wasm p = Some (Inl e) \<longleftrightarrow>
        e = Context ''starting runtime services'' e0" by auto
    moreover have "\<not> (\<forall>x \<in> set ?ended. snd x = Inr ())" using split by auto
    moreover have "e1 = e0" if "?ended = before' @ (i', Inl e1) # after'" "\<forall>x \<in> set before'. snd x = Inr ()"
      for before' i' e1 after'
      using first_failure [of before' i' e1 after' before i e0 after] that split ok by simp
    ultimately show ?thesis using split ok by blast
  qed
qed

text \<open>
  One component per process.  Preparing a component leaves \<open>COMPONENT\<close> set: to what it was,
  else to the stem of the file.  However it ended, a second preparation in the same process,
  of any file, fails in its telemetry before it loads anything.
\<close>

theorem create_once:
  assumes "pr_resource p = None" and "runtime_create jit S W utf8 wasm p = (r, p')"
  shows "hm_get (pr_env p') ''COMPONENT'' = Some (case hm_get (pr_env p) ''COMPONENT'' of
      None \<Rightarrow> component_name utf8 wasm | Some c \<Rightarrow> c) \<and>
    fst (runtime_create jit S W utf8 wasm2 p') =
      Inl (Context ''initializing telemetry'' (Anyhow ''failed to set resource''))"
proof -
  obtain r0 where i: "init_env S utf8 wasm p = (r0, p')"
    using assms(2) create_process [of jit S W utf8 wasm p] by (cases "init_env S utf8 wasm p") auto
  note first = init_env_first [OF assms(1) i]
  obtain res where "pr_resource p' = Some res" using first(2) by blast
  from init_env_again [OF this, of S utf8 wasm2]
  have "fst (runtime_create jit S W utf8 wasm2 p') =
      Inl (Context ''initializing telemetry'' (Anyhow ''failed to set resource''))"
    by (cases "init_env S utf8 wasm2 p'") (simp add: runtime_create_def op_bind_def)
  with first(1) show ?thesis by (simp add: set_component_var)
qed

text \<open>A wasmtime whose linker lists what was linked; precompiled files end in \<open>.bin\<close>.\<close>

definition demo_wasmtime :: "(nat, string, string list, string list) wasmtime" where
  "demo_wasmtime = \<lparr>wt_engine = Inr 0, wt_deserialize = (\<lambda>_ f. if ends_with ''.bin'' f then Inr f else Inl (Foreign ''magic'')),
     wt_from_file = (\<lambda>_ f. Inr f), wt_serialize = (\<lambda>_. Inr [1, 2]), wt_linker = (\<lambda>_. []),
     wt_add_p2 = (\<lambda>l. (Inr (), l @ [''p2''])), wt_add_p3 = (\<lambda>l. (Inr (), l @ [''p3''])),
     wt_instantiate_pre = (\<lambda>l c. Inr (c # l))\<rparr>"

theorem create_once_witness:
  "\<exists>p'. hm_get (pr_env p') ''COMPONENT'' = Some ''app'' \<and>
     fst (runtime_create True demo_sdk demo_wasmtime (\<lambda>_. True) ''b.wasm'' p') \<noteq>
       Inr \<lparr>cp_component = ''b.wasm'', cp_linker = [''p2'', ''p3'']\<rparr>"
proof -
  obtain r p' where r: "runtime_create True demo_sdk demo_wasmtime (\<lambda>_. True) (''dir'' @ ''/'' @ ''app'' @ ''.wasm'') demo_process = (r, p')"
    by (rule prod.exhaust)
  have fresh: "pr_resource demo_process = None" by (simp add: demo_process_def)
  have "component_name (\<lambda>_. True) (''dir'' @ ''/'' @ ''app'' @ ''.wasm'') = ''app''"
    by (rule component_name_wasm) simp_all
  with create_once [OF fresh r, of "''b.wasm''"]
  show ?thesis by (intro exI [of _ p']) (simp add: demo_process_def)
qed

text \<open>
  A prepared runtime.  When the runtime is ready, its component was loaded from the file, the
  linker it was pre-instantiated with has the two WASI versions and then every host of the
  configuration in order, and every field of the context was connected in an environment that
  already names the component.
\<close>

theorem runtime_prepared:
  assumes "pr_resource p = None"
    and "prepare_runtime jit S W utf8 add connect ex wasm p = (Inr (inst, flds), p')"
  shows "(\<exists>engine l0 l component. wt_engine W = Inr engine \<and> new_linker W engine = Inr l0 \<and>
      op_for add (ex_host_trait_impls ex) l0 = (Inr (), l) \<and>
      load_component jit W engine wasm = Inr component \<and> wt_instantiate_pre W l component = Inr inst) \<and>
    map Inr flds = map (\<lambda>(field, b). res_bind (connect b (pr_env p')) (\<lambda>c. Inr (field, c))) (ex_context_fields ex) \<and>
    hm_get (pr_env p') ''COMPONENT'' \<noteq> None"
  using assms by (rule prepare_runtime_Inr)

definition demo_expanded :: expanded where
  "demo_expanded = (let ph = (\<lambda>n. \<lparr>ph_leading_colon = False, ph_segments = [(n, [])]\<rparr>) in
     \<lparr>ex_context_fields = [(''store'', ph ''Store'')], ex_store_ctx_fields = [], ex_store_ctx_values = [],
      ex_host_trait_impls = [ph ''WasiKv''], ex_wasi_view_impls = [], ex_main_fn = False\<rparr>)"

definition demo_add :: "rust_path \<Rightarrow> (string list, anyhow, unit) op" where
  "demo_add host l = (Inr (), l @ map fst (ph_segments host))"

definition demo_connect :: "rust_path \<Rightarrow> (string, string) hashmap \<Rightarrow> anyhow + string option" where
  "demo_connect b env = Inr (hm_get env ''COMPONENT'')"

lemma demo_created:
  "\<exists>p'. runtime_create True demo_sdk demo_wasmtime (\<lambda>_. True) ''app.wasm'' demo_process =
      (Inr \<lparr>cp_component = ''app.wasm'', cp_linker = [''p2'', ''p3'']\<rparr>, p')"
proof -
  have build: "\<exists>p'. telemetry_build demo_sdk (telemetry_new n) q = (Inr (), p')"
    if "pr_resource q = None" and "pr_subscriber q = None" for n and q :: "(int, nat, nat) process"
    using that by (simp add: telemetry_build_def telemetry_new_def set_resource_def op_bind_def init_metrics_def
        init_traces_def set_meter_provider_def set_tracer_provider_def try_init_def demo_sdk_def Let_def)
  let ?p1 = "set_component (component_name (\<lambda>_. True) ''app.wasm'') demo_process"
  have p1: "pr_resource ?p1 = None" "pr_subscriber ?p1 = None" "hm_get (pr_env ?p1) ''OTEL_GRPC_URL'' = None"
    by (simp_all add: set_component_def demo_process_def)
  obtain p2 where "telemetry_build demo_sdk (telemetry_new (component_name (\<lambda>_. True) ''app.wasm'')) ?p1 = (Inr (), p2)"
    using build [OF p1(1,2)] by blast
  with p1(3) have "\<exists>p'. init_env demo_sdk (\<lambda>_. True) ''app.wasm'' demo_process = (Inr (), p')"
    by (simp add: init_env_def Let_def op_map_err_def)
  then obtain p' where i: "init_env demo_sdk (\<lambda>_. True) ''app.wasm'' demo_process = (Inr (), p')" by blast
  have "runtime_create True demo_sdk demo_wasmtime (\<lambda>_. True) ''app.wasm'' demo_process =
      (Inr \<lparr>cp_component = ''app.wasm'', cp_linker = [''p2'', ''p3'']\<rparr>, p')"
  proof -
    have "wt_engine demo_wasmtime = Inr 0" by (simp add: demo_wasmtime_def)
    moreover have "load_component True demo_wasmtime 0 ''app.wasm'' = Inr ''app.wasm''"
      by (simp add: load_component_def demo_wasmtime_def ends_with_def)
    moreover have "new_linker demo_wasmtime 0 = Inr [''p2'', ''p3'']"
      by (simp add: new_linker_def demo_wasmtime_def op_bind_def)
    ultimately show ?thesis using i by (simp add: runtime_create_def op_bind_def)
  qed
  then show ?thesis by blast
qed

lemma demo_prepared:
  "\<exists>flds p'. prepare_runtime True demo_sdk demo_wasmtime (\<lambda>_. True) demo_add demo_connect demo_expanded
      ''app.wasm'' demo_process = (Inr ([''app.wasm'', ''p2'', ''p3'', ''WasiKv''], flds), p')"
proof -
  obtain p' where create: "runtime_create True demo_sdk demo_wasmtime (\<lambda>_. True) ''app.wasm'' demo_process =
      (Inr \<lparr>cp_component = ''app.wasm'', cp_linker = [''p2'', ''p3'']\<rparr>, p')" using demo_created by blast
  have new: "fst (context_new (\<lambda>host. compiled_link (demo_add host)) (compiled_pre_instantiate demo_wasmtime)
      (\<lambda>backend. op_lift (demo_connect backend (pr_env p'))) demo_expanded \<lparr>cp_component = ''app.wasm'', cp_linker = [''p2'', ''p3'']\<rparr>) =
      Inr ([''app.wasm'', ''p2'', ''p3'', ''WasiKv''], [(''store'', hm_get (pr_env p') ''COMPONENT'')])"
    by (simp add: demo_add_def demo_connect_def context_new_def compiled_link_def compiled_pre_instantiate_def demo_expanded_def demo_wasmtime_def
        Let_def op_bind_def)
  show ?thesis unfolding prepare_runtime_def op_bind_def op_map_err_def create using new by simp
qed

theorem runtime_prepared_witness:
  "\<exists>p' flds. prepare_runtime True demo_sdk demo_wasmtime (\<lambda>_. True) demo_add demo_connect demo_expanded
      ''app.wasm'' demo_process = (Inr ([''app.wasm'', ''p2'', ''p3'', ''WasiKv''], flds), p') \<and>
    map Inr flds = [Inr (''store'', hm_get (pr_env p') ''COMPONENT'') :: anyhow + string \<times> string option] \<and>
    hm_get (pr_env p') ''COMPONENT'' \<noteq> None"
proof -
  obtain flds p' where run: "prepare_runtime True demo_sdk demo_wasmtime (\<lambda>_. True) demo_add demo_connect demo_expanded
      ''app.wasm'' demo_process = (Inr ([''app.wasm'', ''p2'', ''p3'', ''WasiKv''], flds), p')"
    using demo_prepared by blast
  have "pr_resource demo_process = None" by (simp add: demo_process_def)
  from runtime_prepared [OF this run] show ?thesis
    using run by (intro exI [of _ p'] exI [of _ flds]) (simp add: demo_expanded_def demo_connect_def)
qed

theorem runtime_serves_witness:
  "runtime_run True demo_sdk demo_wasmtime (\<lambda>_. True) demo_add demo_connect (\<lambda>_. []) demo_expanded ''app.wasm'' demo_process = None \<and>
   runtime_run True demo_sdk demo_wasmtime (\<lambda>_. True) demo_add demo_connect (\<lambda>_. [(0, Inr ())]) demo_expanded ''app.wasm''
     demo_process = Some (Inr ()) \<and>
   runtime_run True demo_sdk demo_wasmtime (\<lambda>_. True) demo_add demo_connect (\<lambda>_. [(0, Inl (Anyhow ''port in use''))])
     demo_expanded ''app.wasm'' demo_process =
     Some (Inl (Context ''starting runtime services'' (Anyhow ''port in use'')))"
proof -
  obtain c where c: "fst (prepare_runtime True demo_sdk demo_wasmtime (\<lambda>_. True) demo_add demo_connect demo_expanded
      ''app.wasm'' demo_process) = Inr c"
    using demo_prepared by fastforce
  have hosts: "length (ex_host_trait_impls demo_expanded) = 1" by (simp add: demo_expanded_def Let_def)
  note serves = runtime_serves [OF c]
  from serves [of "\<lambda>_. []"] serves [of "\<lambda>_. [(0, Inr ())]"] serves [of "\<lambda>_. [(0, Inl (Anyhow ''port in use''))]"]
  show ?thesis by (simp add: hosts Cons_eq_append_conv)
qed

text \<open>
  What compile writes.  A \<open>.wasm\<close> file that compiles is written into the given directory under
  its own name with \<open>.bin\<close> for \<open>.wasm\<close>, and to the standard output when no output is given; when
  it does not compile, nothing is written or created.
\<close>

theorem compile_output:
  assumes "CHR ''/'' \<notin> set name" and "CHR ''.'' \<notin> set name" and "name \<noteq> []"
    and "lossy (name @ ''.wasm'') = name @ ''.wasm''"
    and "fs_is_dir F (components out) s" and "fs_exists F (components out) s = (Inr True, s)"
  shows "runtime_compile W F lossy (dir @ ''/'' @ name @ ''.wasm'') (Some out) s =
      (case compile_bytes W (dir @ ''/'' @ name @ ''.wasm'') of
        Inl e \<Rightarrow> (Inl e, s)
      | Inr serialized \<Rightarrow> op_bind (fs_create F (components out @ [Normal (name @ ''.bin'')]))
          (\<lambda>_. fs_write_all F (components out @ [Normal (name @ ''.bin'')]) serialized) s) \<and>
    runtime_compile W F lossy (dir @ ''/'' @ name @ ''.wasm'') None s =
      (case compile_bytes W (dir @ ''/'' @ name @ ''.wasm'') of
        Inl e \<Rightarrow> (Inl e, s)
      | Inr serialized \<Rightarrow> fs_stdout F serialized s)"
proof -
  have "file_name (dir @ ''/'' @ name @ ''.wasm'') = Some (name @ ''.wasm'')"
    using assms(1,3) by (intro file_name_in_dir) (auto simp: Cons_eq_append_conv append_eq_Cons_conv)
  then show ?thesis using assms(4-6)
    by (auto simp: runtime_compile_def output_path_def write_output_def path_parent_def op_bind_def
        replace_all_no_dot [OF assms(2)] split: sum.split)
qed

text \<open>A file system of one directory that records what is written.\<close>

definition demo_fs :: "(path_component list \<times> bytes) list file_system" where
  "demo_fs = \<lparr>fs_is_dir = (\<lambda>cs _. cs = [Normal ''out'']), fs_exists = (\<lambda>cs s. (Inr (cs = [Normal ''out'']), s)),
     fs_create_dir_all = (\<lambda>_ s. (Inr (), s)), fs_create = (\<lambda>_ s. (Inr (), s)),
     fs_write_all = (\<lambda>cs b s. (Inr (), s @ [(cs, b)])), fs_stdout = (\<lambda>b s. (Inr (), s @ [([], b)]))\<rparr>"

theorem compile_output_witness:
  "runtime_compile demo_wasmtime demo_fs id (''src'' @ ''/'' @ ''app'' @ ''.wasm'') (Some ''out'') [] =
      (Inr (), [([Normal ''out'', Normal ''app.bin''], [1, 2])]) \<and>
    runtime_compile demo_wasmtime demo_fs id (''src'' @ ''/'' @ ''app'' @ ''.wasm'') None [] = (Inr (), [([], [1, 2])])"
proof -
  have out: "components ''out'' = [Normal ''out'']"
    by (simp add: components_def split_on_def Let_def)
  show ?thesis
    using compile_output [of "''app''" id demo_fs "''out''" "[]" demo_wasmtime "''src''"]
    by (simp add: out demo_fs_def compile_bytes_def demo_wasmtime_def op_bind_def)
qed

end
