(* ===== verification/OtelRetry.thy ===== *)
theory OtelRetry
  imports Prelude
begin

text \<open>
  otel: the retry loop around the exporters (\<open>src/retry.rs\<close>).  The wrapped exporter is an
  operation on its own state and the random generator a function from its state and a bound;
  what \<open>random_range(0..n)\<close> promises is \<open>rng_law\<close>.  Every duration here is a whole number of
  milliseconds below \<open>2 ^ 53\<close>, where the multiplication in \<open>f64\<close> is exact.
\<close>

record backoff =
  bo_init_delay :: nat
  bo_growth_factor :: nat
  bo_max_delay :: nat
  bo_jitter_percent :: nat

definition backoff_new :: backoff where
  "backoff_new = \<lparr>bo_init_delay = 500, bo_growth_factor = 2, bo_max_delay = 30 * 1000, bo_jitter_percent = 50\<rparr>"

type_synonym 'g rng = "'g \<Rightarrow> nat \<Rightarrow> nat \<times> 'g"

definition rng_law :: "'g rng \<Rightarrow> bool" where
  "rng_law rng \<longleftrightarrow> (\<forall>g n. 0 < n \<longrightarrow> fst (rng g n) < n)"

text \<open>
  \<open>Backoff::step\<close>: the delay to wait, the next delay and the generator; \<open>None\<close> is the panic of
  \<open>random_range\<close> on an empty range.
\<close>

definition backoff_step :: "backoff \<Rightarrow> 'g rng \<Rightarrow> nat \<Rightarrow> 'g \<Rightarrow> (nat \<times> nat \<times> 'g) option" where
  "backoff_step b rng delay g =
     (let bound = delay * bo_jitter_percent b div 100
      in if bound = 0 then None
         else (let (jitter, g') = rng g bound;
                   total_delay = delay + jitter;
                   delay' = delay * bo_growth_factor b;
                   delay' = (if delay' > bo_max_delay b then bo_max_delay b else delay')
               in Some (total_delay, delay', g')))"

datatype 's export_run =
    StillRunning
  | Panicked
  | Exported "nat list" 's    \<comment> \<open>the delays slept, and the exporter's state after the last attempt\<close>

text \<open>
  The loop of \<open>export\<close>, with fuel for the number of attempts: both exporters have the same loop,
  the one for spans with a copy of the batch for each attempt.
\<close>

fun export_loop ::
  "nat \<Rightarrow> backoff \<Rightarrow> 'g rng \<Rightarrow> ('s, 'e, unit) op \<Rightarrow> nat \<Rightarrow> 'g \<Rightarrow> nat list \<Rightarrow> 's \<Rightarrow> 's export_run" where
  "export_loop 0 b rng inner delay g slept s = StillRunning"
| "export_loop (Suc fuel) b rng inner delay g slept s = (case inner s of
      (Inr _, s') \<Rightarrow> Exported slept s'
    | (Inl e, s') \<Rightarrow> (case backoff_step b rng delay g of
          None \<Rightarrow> Panicked
        | Some (total_delay, delay', g') \<Rightarrow> export_loop fuel b rng inner delay' g' (slept @ [total_delay]) s'))"

definition retry_export :: "nat \<Rightarrow> 'g rng \<Rightarrow> ('s, 'e, unit) op \<Rightarrow> 'g \<Rightarrow> 's \<Rightarrow> 's export_run" where
  "retry_export fuel rng inner g s =
     export_loop fuel backoff_new rng inner (bo_init_delay backoff_new) g [] s"

text \<open>
  The rest of the two exporters: \<open>inner\<close> is the wrapped exporter with its methods on a state, and
  every method but \<open>export\<close> hands the call on, except that the metric exporter's
  \<open>shutdown_with_timeout\<close> is \<open>todo!()\<close>, a panic.
\<close>

record ('s, 'r, 'k) exporter =
  xp_export :: "('s, string, unit) op"
  xp_shutdown :: "('s, string, unit) op"
  xp_force_flush :: "('s, string, unit) op"
  xp_set_resource :: "'r \<Rightarrow> 's \<Rightarrow> 's"
  xp_temporality :: 'k

datatype exporter_fault = SdkFault string | Unfinished

definition retry_span_shutdown :: "('s, 'r, 'k) exporter \<Rightarrow> ('s, string, unit) op" where
  "retry_span_shutdown inner = xp_shutdown inner"

definition retry_span_force_flush :: "('s, 'r, 'k) exporter \<Rightarrow> ('s, string, unit) op" where
  "retry_span_force_flush inner = xp_force_flush inner"

definition retry_span_set_resource :: "('s, 'r, 'k) exporter \<Rightarrow> 'r \<Rightarrow> 's \<Rightarrow> 's" where
  "retry_span_set_resource inner = xp_set_resource inner"

definition retry_metric_force_flush :: "('s, 'r, 'k) exporter \<Rightarrow> ('s, string, unit) op" where
  "retry_metric_force_flush inner = xp_force_flush inner"

definition retry_metric_shutdown :: "('s, 'r, 'k) exporter \<Rightarrow> ('s, string, unit) op" where
  "retry_metric_shutdown inner = xp_shutdown inner"

definition retry_metric_temporality :: "('s, 'r, 'k) exporter \<Rightarrow> 'k" where
  "retry_metric_temporality inner = xp_temporality inner"

definition retry_metric_shutdown_timeout :: "('s, 'r, 'k) exporter \<Rightarrow> nat \<Rightarrow> ('s, exporter_fault, unit) op" where
  "retry_metric_shutdown_timeout inner timeout = op_fail Unfinished"

section \<open>Lemmas\<close>

text \<open>The state after \<open>n\<close> attempts, and the delay before jitter after \<open>n\<close> failures.\<close>

fun after :: "('s, 'e, unit) op \<Rightarrow> nat \<Rightarrow> 's \<Rightarrow> 's" where
  "after inner 0 s = s"
| "after inner (Suc n) s = after inner n (snd (inner s))"

definition nth_delay :: "nat \<Rightarrow> nat" where
  "nth_delay n = min (500 * 2 ^ n) 30000"

lemma nth_delay_bounds: "500 \<le> nth_delay n" "nth_delay n \<le> 30000"
proof -
  have "(1::nat) \<le> 2 ^ n" by simp
  then show "500 \<le> nth_delay n" by (simp add: nth_delay_def)
  show "nth_delay n \<le> 30000" by (simp add: nth_delay_def)
qed

lemma nth_delay_Suc: "nth_delay (Suc n) = (if nth_delay n * 2 > 30000 then 30000 else nth_delay n * 2)"
  by (simp add: nth_delay_def min_def)

lemma backoff_step_new:
  assumes "rng_law rng"
  shows "\<exists>jitter g'. backoff_step backoff_new rng (nth_delay n) g =
      Some (nth_delay n + jitter, nth_delay (Suc n), g') \<and> jitter < nth_delay n div 2"
proof -
  have bound: "nth_delay n * 50 div 100 = nth_delay n div 2" by simp
  have pos: "0 < nth_delay n div 2" using nth_delay_bounds(1) [of n] by simp
  obtain jitter g' where rng: "rng g (nth_delay n div 2) = (jitter, g')"
    by (cases "rng g (nth_delay n div 2)")
  have "fst (rng g (nth_delay n div 2)) < nth_delay n div 2"
    using assms pos unfolding rng_law_def by blast
  then have "jitter < nth_delay n div 2" by (simp only: rng fst_conv)
  moreover have "backoff_step backoff_new rng (nth_delay n) g =
      Some (nth_delay n + jitter, nth_delay (Suc n), g')"
    using pos by (simp only: backoff_step_def backoff_new_def backoff.simps Let_def bound rng prod.case
        nth_delay_Suc less_not_refl2 if_False mult.commute) simp
  ultimately show ?thesis by blast
qed

lemma export_loop_run:
  assumes "rng_law rng"
  shows "\<forall>i < k. \<not> is_ok (fst (inner (after inner i s))) \<Longrightarrow>
    (fuel \<le> k \<longrightarrow> export_loop fuel backoff_new rng inner (nth_delay n) g slept s = StillRunning) \<and>
    (is_ok (fst (inner (after inner k s))) \<longrightarrow> k < fuel \<longrightarrow>
      (\<exists>delays. export_loop fuel backoff_new rng inner (nth_delay n) g slept s =
          Exported (slept @ delays) (after inner (Suc k) s) \<and> length delays = k \<and>
          (\<forall>i < k. nth_delay (n + i) \<le> delays ! i \<and> delays ! i < nth_delay (n + i) + nth_delay (n + i) div 2)))"
proof (induction k arbitrary: fuel n g slept s)
  case 0
  show ?case
  proof (cases fuel)
    case 0
    then show ?thesis by simp
  next
    case (Suc f)
    have "is_ok (fst (inner s)) \<Longrightarrow>
        export_loop (Suc f) backoff_new rng inner (nth_delay n) g slept s = Exported slept (snd (inner s))"
      by (cases "inner s"; cases "fst (inner s)") auto
    then show ?thesis using Suc by auto
  qed
next
  case (Suc k)
  show ?case
  proof (cases fuel)
    case 0
    then show ?thesis by simp
  next
    case (Suc f)
    from Suc.prems [rule_format, of 0] have "\<not> is_ok (fst (inner s))" by simp
    then obtain e s' where fail: "inner s = (Inl e, s')" by (cases "inner s"; cases "fst (inner s)") auto
    obtain jitter g' where step: "backoff_step backoff_new rng (nth_delay n) g =
        Some (nth_delay n + jitter, nth_delay (Suc n), g')" "jitter < nth_delay n div 2"
      using backoff_step_new [OF assms, of n g] by blast
    have loop: "export_loop fuel backoff_new rng inner (nth_delay n) g slept s =
        export_loop f backoff_new rng inner (nth_delay (Suc n)) g' (slept @ [nth_delay n + jitter]) s'"
      by (simp add: Suc fail step(1))
    have later: "after inner (Suc i) s = after inner i s'" for i by (simp add: fail)
    have "\<forall>i < k. \<not> is_ok (fst (inner (after inner i s')))"
      using Suc.prems by (metis later Suc_less_eq)
    note IH = Suc.IH [OF this, of f "Suc n" g' "slept @ [nth_delay n + jitter]"]
    show ?thesis
      unfolding loop later
    proof (intro conjI impI)
      show "export_loop f backoff_new rng inner (nth_delay (Suc n)) g' (slept @ [nth_delay n + jitter]) s' = StillRunning"
        if "fuel \<le> Suc k"
        using IH that Suc by simp
    next
      assume "is_ok (fst (inner (after inner k s')))" and "Suc k < fuel"
      then obtain delays where d: "export_loop f backoff_new rng inner (nth_delay (Suc n)) g'
            (slept @ [nth_delay n + jitter]) s' =
          Exported ((slept @ [nth_delay n + jitter]) @ delays) (after inner (Suc k) s')" "length delays = k"
        "\<forall>i < k. nth_delay (Suc n + i) \<le> delays ! i \<and>
          delays ! i < nth_delay (Suc n + i) + nth_delay (Suc n + i) div 2"
        using IH Suc by auto
      have "\<forall>i < Suc k. nth_delay (n + i) \<le> ((nth_delay n + jitter) # delays) ! i \<and>
          ((nth_delay n + jitter) # delays) ! i < nth_delay (n + i) + nth_delay (n + i) div 2"
        using d(3) step(2) by (auto simp: less_Suc_eq_0_disj)
      then show "\<exists>delays. export_loop f backoff_new rng inner (nth_delay (Suc n)) g'
            (slept @ [nth_delay n + jitter]) s' = Exported (slept @ delays) (after inner (Suc k) s') \<and>
          length delays = Suc k \<and> (\<forall>i < Suc k. nth_delay (n + i) \<le> delays ! i \<and>
            delays ! i < nth_delay (n + i) + nth_delay (n + i) div 2)"
        using d(1,2) by (intro exI [of _ "(nth_delay n + jitter) # delays"]) simp
    qed
  qed
qed

section \<open>Properties\<close>

text \<open>
  C23: Retrying an export.  If the exporter fails \<open>k\<close> times and then succeeds, the loop makes
  exactly \<open>k + 1\<close> attempts and returns success, having slept \<open>k\<close> times: the delay before jitter
  doubles from half a second up to thirty seconds, and the jitter adds to it less than its half
  and never subtracts from it (the wait can reach forty-five seconds, above the maximum).  As
  long as the exporter fails the loop does not return: there is no limit on the attempts and no
  error ever reaches the caller, and the range of the jitter is never empty.
\<close>

theorem retry_export_spec:
  assumes "rng_law rng"
    and "\<forall>i < k. \<not> is_ok (fst (inner (after inner i s)))"
    and "is_ok (fst (inner (after inner k s)))"
  shows "(\<forall>fuel \<le> k. retry_export fuel rng inner g s = StillRunning) \<and>
    (\<forall>fuel > k. \<exists>delays. retry_export fuel rng inner g s = Exported delays (after inner (Suc k) s) \<and>
       length delays = k \<and>
       (\<forall>i < k. min (500 * 2 ^ i) 30000 \<le> delays ! i \<and>
          delays ! i < min (500 * 2 ^ i) 30000 + min (500 * 2 ^ i) 30000 div 2))"
proof -
  have init: "bo_init_delay backoff_new = nth_delay 0" by (simp add: backoff_new_def nth_delay_def)
  note run = export_loop_run [OF assms(1,2), where n = 0 and g = g and slept = "[]"]
  show ?thesis
  proof (intro conjI allI impI)
    show "retry_export fuel rng inner g s = StillRunning" if "fuel \<le> k" for fuel
      using run [of fuel] that by (simp add: retry_export_def init)
    show "\<exists>delays. retry_export fuel rng inner g s = Exported delays (after inner (Suc k) s) \<and>
       length delays = k \<and>
       (\<forall>i < k. min (500 * 2 ^ i) 30000 \<le> delays ! i \<and>
          delays ! i < min (500 * 2 ^ i) 30000 + min (500 * 2 ^ i) 30000 div 2)" if "k < fuel" for fuel
      using run [of fuel] that assms(3) by (simp add: retry_export_def init nth_delay_def)
  qed
qed

text \<open>An exporter that fails until its counter reaches zero, with a generator that always gives 0.\<close>

definition demo_exporter :: "(nat, string, unit) op" where
  "demo_exporter n = (if n = 0 then (Inr (), 0) else (Inl ''unavailable'', n - 1))"

theorem retry_export_spec_witness:
  "retry_export 2 (\<lambda>g n. (0, g)) demo_exporter () 2 = StillRunning \<and>
   (\<exists>delays. retry_export 9 (\<lambda>g n. (0, g)) demo_exporter () 2 = Exported delays 0 \<and> length delays = 2)"
proof -
  have rng: "rng_law (\<lambda>g n. (0, g))" by (simp add: rng_law_def)
  have fails: "\<forall>i < 2. \<not> is_ok (fst (demo_exporter (after demo_exporter i 2)))"
    by (simp add: less_2_cases_iff demo_exporter_def)
  have done_: "is_ok (fst (demo_exporter (after demo_exporter 2 2)))" "after demo_exporter (Suc 2) 2 = 0"
    by (simp_all add: demo_exporter_def numeral_2_eq_2)
  show ?thesis
    using retry_export_spec [OF rng fails done_(1), of "()"] done_(2) by (force dest: spec [of _ 9])
qed

end
