(* ===== verification/OtelMetrics.thy ===== *)
theory OtelMetrics
  imports OtelTypes
begin

text \<open>
  wasi-otel metrics: the host's \<open>export\<close> and its conversion to the OpenTelemetry protocol
  (\<open>src/host/metrics_impl.rs\<close>), and the part of the guest's conversion that changes what is
  exported: numbers and exemplars (\<open>src/guest/metrics.rs\<close>).

  \<open>hex::decode\<close>, the casts to \<open>f64\<close> and \<open>ToPrimitive\<close> are arguments; their documented behaviour
  is stated where a theorem needs it.
\<close>

section \<open>The two sides of the interface\<close>

type_synonym 'f wasi_kvs = "'f wasi_value key_value list"
type_synonym 'f proto_kvs = "'f any_value option key_value list"

datatype 'f data_value = VF64 'f | VS64 i64 | VU64 u64
datatype 'f number_value = AsInt i64 | AsDouble 'f

record 'f wasi_exemplar =
  we_attributes :: "'f wasi_kvs"
  we_time :: datetime
  we_value :: "'f data_value"
  we_span_id :: string
  we_trace_id :: string

record 'f exemplar =
  ep_attributes :: "'f proto_kvs"
  ep_time :: u64
  ep_span_id :: bytes
  ep_trace_id :: bytes
  ep_value :: "'f number_value option"

record 'f wasi_number_point =
  wn_attributes :: "'f wasi_kvs"
  wn_value :: "'f data_value"
  wn_exemplars :: "'f wasi_exemplar list"

record 'f number_point =
  np_attributes :: "'f proto_kvs"
  np_start_time :: u64
  np_time :: u64
  np_exemplars :: "'f exemplar list"
  np_flags :: u32
  np_value :: "'f number_value option"

datatype wasi_temporality = WCumulative | WDelta | WLowMemory
datatype aggregation_temporality = Unspecified | Delta | Cumulative

record 'f wasi_gauge =
  wg_points :: "'f wasi_number_point list"
  wg_start_time :: "datetime option"
  wg_time :: datetime

record 'f wasi_sum =
  ws_points :: "'f wasi_number_point list"
  ws_start_time :: datetime
  ws_time :: datetime
  ws_temporality :: wasi_temporality
  ws_is_monotonic :: bool

record 'f proto_sum =
  sm_points :: "'f number_point list"
  sm_temporality :: int
  sm_is_monotonic :: bool

record 'f wasi_hist_point =
  wh_attributes :: "'f wasi_kvs"
  wh_count :: u64
  wh_bounds :: "'f list"
  wh_bucket_counts :: "u64 list"
  wh_min :: "'f data_value option"
  wh_max :: "'f data_value option"
  wh_sum :: "'f data_value"
  wh_exemplars :: "'f wasi_exemplar list"

record 'p wasi_histogram =
  whg_points :: "'p list"
  whg_start_time :: datetime
  whg_time :: datetime
  whg_temporality :: wasi_temporality

record 'f hist_point =
  hp_attributes :: "'f proto_kvs"
  hp_start_time :: u64
  hp_time :: u64
  hp_count :: u64
  hp_sum :: "'f option"
  hp_bucket_counts :: "u64 list"
  hp_bounds :: "'f list"
  hp_exemplars :: "'f exemplar list"
  hp_flags :: u32
  hp_min :: "'f option"
  hp_max :: "'f option"

record 'p proto_histogram =
  hg_points :: "'p list"
  hg_temporality :: int

record exp_bucket =
  eb_offset :: "32 word"
  eb_counts :: "u64 list"

record 'f wasi_exp_point =
  wx_attributes :: "'f wasi_kvs"
  wx_count :: u64
  wx_min :: "'f data_value option"
  wx_max :: "'f data_value option"
  wx_sum :: "'f data_value"
  wx_scale :: "8 word"
  wx_zero_count :: u64
  wx_positive :: exp_bucket
  wx_negative :: exp_bucket
  wx_zero_threshold :: 'f
  wx_exemplars :: "'f wasi_exemplar list"

record 'f exp_point =
  xp_attributes :: "'f proto_kvs"
  xp_start_time :: u64
  xp_time :: u64
  xp_count :: u64
  xp_sum :: "'f option"
  xp_scale :: "32 word"
  xp_zero_count :: u64
  xp_positive :: "exp_bucket option"
  xp_negative :: "exp_bucket option"
  xp_flags :: u32
  xp_exemplars :: "'f exemplar list"
  xp_min :: "'f option"
  xp_max :: "'f option"
  xp_zero_threshold :: 'f

datatype 'f wasi_metric_data =
    WGauge "'f wasi_gauge" | WSum "'f wasi_sum"
  | WHistogram "'f wasi_hist_point wasi_histogram"
  | WExponentialHistogram "'f wasi_exp_point wasi_histogram"

datatype 'f aggregated_metrics =
    AggF64 "'f wasi_metric_data" | AggS64 "'f wasi_metric_data" | AggU64 "'f wasi_metric_data"

datatype 'f metric_data =
    Gauge "'f number_point list" | Sum "'f proto_sum"
  | Histogram "'f hist_point proto_histogram"
  | ExponentialHistogram "'f exp_point proto_histogram"

record 'f wasi_metric =
  wm_name :: string
  wm_description :: string
  wm_unit :: string
  wm_data :: "'f aggregated_metrics"

record 'f metric =
  mt_name :: string
  mt_description :: string
  mt_unit :: string
  mt_metadata :: "'f proto_kvs"
  mt_data :: "'f metric_data option"

record 'f wasi_scope_metrics =
  wsm_scope :: "'f wasi_scope"
  wsm_metrics :: "'f wasi_metric list"

record 'f proto_scope =
  ps_name :: string
  ps_version :: string
  ps_attributes :: "'f proto_kvs"
  ps_dropped :: u32

record 'f scope_metrics =
  scm_scope :: "'f proto_scope option"
  scm_metrics :: "'f metric list"
  scm_schema_url :: string

record 'f wasi_resource_metrics =
  wrm_resource :: "'f wasi_resource"
  wrm_scope_metrics :: "'f wasi_scope_metrics list"

record 'f proto_resource =
  pr_attributes :: "'f proto_kvs"
  pr_dropped :: u32
  pr_entity_refs :: "unit list"

record 'f resource_metrics =
  rm_resource :: "'f proto_resource option"
  rm_scope_metrics :: "'f scope_metrics list"
  rm_schema_url :: string

section \<open>The host's conversions\<close>

text \<open>\<open>hex\<close> is \<open>hex::decode(\<dots>).ok()\<close>; the casts are those of \<open>u64\<close> and \<open>i64\<close> to \<open>f64\<close>.\<close>

record 'f otel_env =
  oe_hex :: "string \<Rightarrow> bytes option"
  oe_of_u64 :: "u64 \<Rightarrow> 'f"
  oe_of_i64 :: "i64 \<Rightarrow> 'f"

definition unwrap_or_default :: "'a \<Rightarrow> 'a option \<Rightarrow> 'a" where
  "unwrap_or_default d x = (case x of None \<Rightarrow> d | Some y \<Rightarrow> y)"

fun number_to_proto :: "'f data_value \<Rightarrow> 'f number_value" where
  "number_to_proto (VU64 v) = AsInt v"    \<comment> \<open>\<open>v as i64\<close>: the same 64 bits, read as a signed number\<close>
| "number_to_proto (VS64 v) = AsInt v"
| "number_to_proto (VF64 v) = AsDouble v"

fun exemplar_number :: "'f data_value \<Rightarrow> 'f number_value" where
  "exemplar_number (VU64 v) = AsInt v"
| "exemplar_number (VS64 v) = AsInt v"
| "exemplar_number (VF64 v) = AsDouble v"

fun float_value :: "'f otel_env \<Rightarrow> 'f data_value \<Rightarrow> 'f" where
  "float_value X (VU64 v) = oe_of_u64 X v"
| "float_value X (VS64 v) = oe_of_i64 X v"
| "float_value X (VF64 v) = v"

fun temporality_to_proto :: "wasi_temporality \<Rightarrow> aggregation_temporality" where
  "temporality_to_proto WCumulative = Cumulative"
| "temporality_to_proto WDelta = Delta"
| "temporality_to_proto WLowMemory = Unspecified"

text \<open>The protocol's numbers of the temporalities; \<open>as i32\<close>.\<close>

fun temporality_number :: "aggregation_temporality \<Rightarrow> int" where
  "temporality_number Unspecified = 0"
| "temporality_number Delta = 1"
| "temporality_number Cumulative = 2"

text \<open>\<open>DataPointFlags::default() as u32\<close>\<close>

definition point_flags :: u32 where "point_flags = 0"

definition exemplar_to_proto :: "'f otel_env \<Rightarrow> 'f wasi_exemplar \<Rightarrow> 'f exemplar" where
  "exemplar_to_proto X ex = \<lparr>ep_attributes = map kv_to_proto (we_attributes ex),
     ep_time = datetime_nanos (we_time ex),
     ep_span_id = unwrap_or_default [] (oe_hex X (we_span_id ex)),
     ep_trace_id = unwrap_or_default [] (oe_hex X (we_trace_id ex)),
     ep_value = Some (exemplar_number (we_value ex))\<rparr>"

definition point_to_proto :: "'f otel_env \<Rightarrow> u64 \<Rightarrow> datetime \<Rightarrow> 'f wasi_number_point \<Rightarrow> 'f number_point" where
  "point_to_proto X start time dp = \<lparr>np_attributes = map kv_to_proto (wn_attributes dp),
     np_start_time = start, np_time = datetime_nanos time,
     np_exemplars = map (exemplar_to_proto X) (wn_exemplars dp), np_flags = point_flags,
     np_value = Some (number_to_proto (wn_value dp))\<rparr>"

definition gauge_to_proto :: "'f otel_env \<Rightarrow> 'f wasi_gauge \<Rightarrow> 'f number_point list" where
  "gauge_to_proto X g = map (point_to_proto X
     (unwrap_or_default 0 (map_option datetime_nanos (wg_start_time g))) (wg_time g)) (wg_points g)"

definition sum_to_proto :: "'f otel_env \<Rightarrow> 'f wasi_sum \<Rightarrow> 'f proto_sum" where
  "sum_to_proto X sm = \<lparr>
     sm_points = map (point_to_proto X (datetime_nanos (ws_start_time sm)) (ws_time sm)) (ws_points sm),
     sm_temporality = temporality_number (temporality_to_proto (ws_temporality sm)),
     sm_is_monotonic = ws_is_monotonic sm\<rparr>"

definition hist_to_proto ::
  "'f otel_env \<Rightarrow> 'f wasi_hist_point wasi_histogram \<Rightarrow> 'f hist_point proto_histogram" where
  "hist_to_proto X hist = \<lparr>
     hg_points = map (\<lambda>dp. \<lparr>hp_attributes = map kv_to_proto (wh_attributes dp),
         hp_start_time = datetime_nanos (whg_start_time hist), hp_time = datetime_nanos (whg_time hist),
         hp_count = wh_count dp, hp_sum = Some (float_value X (wh_sum dp)),
         hp_bucket_counts = wh_bucket_counts dp, hp_bounds = wh_bounds dp,
         hp_exemplars = map (exemplar_to_proto X) (wh_exemplars dp), hp_flags = point_flags,
         hp_min = map_option (float_value X) (wh_min dp),
         hp_max = map_option (float_value X) (wh_max dp)\<rparr>) (whg_points hist),
     hg_temporality = temporality_number (temporality_to_proto (whg_temporality hist))\<rparr>"

definition exp_hist_to_proto ::
  "'f otel_env \<Rightarrow> 'f wasi_exp_point wasi_histogram \<Rightarrow> 'f exp_point proto_histogram" where
  "exp_hist_to_proto X hist = \<lparr>
     hg_points = map (\<lambda>dp. \<lparr>xp_attributes = map kv_to_proto (wx_attributes dp),
         xp_start_time = datetime_nanos (whg_start_time hist), xp_time = datetime_nanos (whg_time hist),
         xp_count = wx_count dp, xp_sum = Some (float_value X (wx_sum dp)),
         xp_scale = scast (wx_scale dp), xp_zero_count = wx_zero_count dp,
         xp_positive = Some \<lparr>eb_offset = eb_offset (wx_positive dp), eb_counts = eb_counts (wx_positive dp)\<rparr>,
         xp_negative = Some \<lparr>eb_offset = eb_offset (wx_negative dp), eb_counts = eb_counts (wx_negative dp)\<rparr>,
         xp_flags = point_flags, xp_exemplars = map (exemplar_to_proto X) (wx_exemplars dp),
         xp_min = map_option (float_value X) (wx_min dp),
         xp_max = map_option (float_value X) (wx_max dp),
         xp_zero_threshold = wx_zero_threshold dp\<rparr>) (whg_points hist),
     hg_temporality = temporality_number (temporality_to_proto (whg_temporality hist))\<rparr>"

fun metric_data_to_proto :: "'f otel_env \<Rightarrow> 'f wasi_metric_data \<Rightarrow> 'f metric_data" where
  "metric_data_to_proto X (WGauge gauge) = Gauge (gauge_to_proto X gauge)"
| "metric_data_to_proto X (WSum sm) = Sum (sum_to_proto X sm)"
| "metric_data_to_proto X (WHistogram hist) = Histogram (hist_to_proto X hist)"
| "metric_data_to_proto X (WExponentialHistogram hist) = ExponentialHistogram (exp_hist_to_proto X hist)"

fun aggregated_data :: "'f aggregated_metrics \<Rightarrow> 'f wasi_metric_data" where
  "aggregated_data (AggF64 d) = d"
| "aggregated_data (AggU64 d) = d"
| "aggregated_data (AggS64 d) = d"

definition metric_to_proto :: "'f otel_env \<Rightarrow> 'f wasi_metric \<Rightarrow> 'f metric" where
  "metric_to_proto X m = \<lparr>mt_name = wm_name m, mt_description = wm_description m, mt_unit = wm_unit m,
     mt_metadata = [], mt_data = Some (metric_data_to_proto X (aggregated_data (wm_data m)))\<rparr>"

definition scope_to_proto :: "'f wasi_scope \<Rightarrow> 'f proto_scope" where
  "scope_to_proto sc = \<lparr>ps_name = wsc_name sc, ps_version = unwrap_or_default [] (wsc_version sc),
     ps_attributes = map kv_to_proto (wsc_attributes sc), ps_dropped = 0\<rparr>"

definition scope_metrics_to_proto :: "'f otel_env \<Rightarrow> 'f wasi_scope_metrics \<Rightarrow> 'f scope_metrics" where
  "scope_metrics_to_proto X sm = \<lparr>scm_scope = Some (scope_to_proto (wsm_scope sm)),
     scm_metrics = map (metric_to_proto X) (wsm_metrics sm),
     scm_schema_url = unwrap_or_default [] (wsc_schema_url (wsm_scope sm))\<rparr>"

definition resource_to_proto :: "'f wasi_resource \<Rightarrow> 'f proto_resource" where
  "resource_to_proto r = \<lparr>pr_attributes = map kv_to_proto (wr_attributes r) @
       [\<lparr>kv_key = ''schema_url'', kv_value = map_option StringValue (wr_schema_url r)\<rparr>],
     pr_dropped = 0, pr_entity_refs = []\<rparr>"

definition metrics_request :: "'f otel_env \<Rightarrow> 'f wasi_resource_metrics \<Rightarrow> 'f resource_metrics list" where
  "metrics_request X rm = [\<lparr>rm_resource = Some (resource_to_proto (wrm_resource rm)),
     rm_scope_metrics = map (scope_metrics_to_proto X) (wrm_scope_metrics rm),
     rm_schema_url = unwrap_or_default [] (wr_schema_url (wrm_resource rm))\<rparr>]"

datatype otel_error = AlreadyShutdown | Timeout u64 | InternalFailure string

text \<open>An error of the OpenTelemetry SDK; the timeout is a duration in nanoseconds.\<close>

datatype otel_sdk_error = SdkAlreadyShutdown | SdkTimeout nat | SdkInternalFailure string

fun otel_error_from_sdk :: "otel_sdk_error \<Rightarrow> otel_error" where
  "otel_error_from_sdk SdkAlreadyShutdown = AlreadyShutdown"
| "otel_error_from_sdk (SdkTimeout duration) = Timeout (of_nat (duration div 1000000000))"
| "otel_error_from_sdk (SdkInternalFailure msg) = InternalFailure msg"

definition otel_error_from_anyhow :: "anyhow \<Rightarrow> otel_error" where
  "otel_error_from_anyhow err = InternalFailure (anyhow_display err)"

text \<open>\<open>initialized\<close>: the process has an OpenTelemetry resource; \<open>send\<close>: the backend.\<close>

definition metrics_export ::
  "bool \<Rightarrow> 'f otel_env \<Rightarrow> ('f resource_metrics list \<Rightarrow> ('s, anyhow, unit) op) \<Rightarrow>
   'f wasi_resource_metrics \<Rightarrow> ('s, otel_error, unit) op" where
  "metrics_export initialized X send rm =
     (if \<not> initialized then op_return ()
      else op_map_err otel_error_from_anyhow (send (metrics_request X rm)))"

text \<open>The default backend counts and drops.\<close>

definition default_metric_count :: "'f resource_metrics list \<Rightarrow> nat" where
  "default_metric_count request =
     sum_list (map (\<lambda>rm. sum_list (map (\<lambda>sm. length (scm_metrics sm)) (rm_scope_metrics rm))) request)"

definition default_export_metrics :: "'f resource_metrics list \<Rightarrow> (nat list, anyhow, unit) op" where
  "default_export_metrics request log = (Inr (), log @ [default_metric_count request])"

section \<open>The guest's numbers and exemplars\<close>

text \<open>\<open>num_traits::ToPrimitive\<close> for the number type \<open>'t\<close> of a metric.\<close>

record ('t, 'f) to_primitive =
  to_u64 :: "'t \<Rightarrow> u64 option"
  to_i64 :: "'t \<Rightarrow> i64 option"
  to_f64 :: "'t \<Rightarrow> 'f option"

definition data_value_from :: "('t, 'f) to_primitive \<Rightarrow> 'f \<Rightarrow> 't \<Rightarrow> 'f data_value" where
  "data_value_from P zero v = (case to_u64 P v of
      None \<Rightarrow> (case to_i64 P v of
          None \<Rightarrow> VF64 (unwrap_or_default zero (to_f64 P v))
        | Some n \<Rightarrow> VS64 n)
    | Some n \<Rightarrow> VU64 n)"

text \<open>An exemplar of the SDK has its ids as bytes; \<open>lossy\<close> is \<open>String::from_utf8_lossy\<close>.\<close>

record ('t, 'f) sdk_exemplar =
  se_attributes :: "(string \<times> 'f otel_value) list"
  se_time :: int
  se_value :: 't
  se_span_id :: bytes
  se_trace_id :: bytes

definition exemplar_from_sdk ::
  "('t, 'f) to_primitive \<Rightarrow> 'f \<Rightarrow> (bytes \<Rightarrow> string) \<Rightarrow> ('t, 'f) sdk_exemplar \<Rightarrow> 'f wasi_exemplar" where
  "exemplar_from_sdk P zero lossy ex = \<lparr>we_attributes = map kv_from_otel (se_attributes ex),
     we_time = datetime_from_system (se_time ex), we_value = data_value_from P zero (se_value ex),
     we_span_id = lossy (se_span_id ex), we_trace_id = lossy (se_trace_id ex)\<rparr>"

section \<open>Properties\<close>

definition u64_primitive_laws :: "(u64, 'f) to_primitive \<Rightarrow> bool" where
  "u64_primitive_laws P \<longleftrightarrow> (\<forall>v. to_u64 P v = Some v)"

definition i64_primitive_laws :: "(i64, 'f) to_primitive \<Rightarrow> bool" where
  "i64_primitive_laws P \<longleftrightarrow>
     (\<forall>v. to_u64 P v = (if 0 \<le> sint v then Some v else None) \<and> to_i64 P v = Some v)"

text \<open>A float converts when its integral part (\<open>None\<close> for a NaN or an infinity) is in range.\<close>

definition f64_primitive_laws :: "('f \<Rightarrow> int option) \<Rightarrow> ('f, 'f) to_primitive \<Rightarrow> bool" where
  "f64_primitive_laws trunc P \<longleftrightarrow> (\<forall>x. to_f64 P x = Some x \<and>
     to_u64 P x = (case trunc x of None \<Rightarrow> None | Some n \<Rightarrow>
        if 0 \<le> n \<and> n < 2 ^ 64 then Some (word_of_int n) else None) \<and>
     to_i64 P x = (case trunc x of None \<Rightarrow> None | Some n \<Rightarrow>
        if - (2 ^ 63) \<le> n \<and> n < 2 ^ 63 then Some (word_of_int n) else None))"

lemma sint_u64: "sint (u :: u64) = (if uint u < 2 ^ 63 then uint u else uint u - 2 ^ 64)"
proof -
  have range: "0 \<le> uint u" "uint u < 2 ^ 64" using uint_lt2p [of u] by simp_all
  have "sint u = take_bit 64 (uint u) - 2 ^ 64 * of_bool (bit (uint u) 63)"
    by (simp add: sint_uint signed_take_bit_eq_take_bit_minus)
  moreover have "take_bit 64 (uint u) = uint u" using range by (simp add: take_bit_int_eq_self)
  moreover have "bit (uint u) 63 \<longleftrightarrow> \<not> uint u < 2 ^ 63"
  proof (cases "uint u < 2 ^ 63")
    case True
    then have "uint u div 2 ^ 63 = 0" using range by simp
    then show ?thesis using True by (simp add: bit_iff_odd)
  next
    case False
    then have "uint u div 2 ^ 63 = 1" using range by (simp add: int_div_pos_eq [where r = "uint u - 2 ^ 63"])
    then show ?thesis using False by (simp add: bit_iff_odd)
  qed
  ultimately show ?thesis by simp
qed

lemma sint_of_int_range: "- (2 ^ 63) \<le> n \<Longrightarrow> n < 2 ^ 63 \<Longrightarrow> sint (word_of_int n :: i64) = n"
  by (simp add: sint_uint uint_word_of_int_eq signed_take_bit_take_bit signed_take_bit_int_eq_self)


text \<open>For the witness a float is a number of tenths, or \<open>None\<close> for a NaN.\<close>

definition demo_trunc :: "int option \<Rightarrow> int option" where
  "demo_trunc x = (case x of None \<Rightarrow> None | Some t \<Rightarrow> Some (if 0 \<le> t then t div 10 else - ((- t) div 10)))"

definition demo_prim :: "('t \<Rightarrow> u64 option) \<Rightarrow> ('t \<Rightarrow> i64 option) \<Rightarrow> ('t \<Rightarrow> int option option) \<Rightarrow>
   ('t, int option) to_primitive" where
  "demo_prim u i f = \<lparr>to_u64 = u, to_i64 = i, to_f64 = f\<rparr>"

definition demo_otel_env :: "int option otel_env" where
  "demo_otel_env = \<lparr>oe_hex = (\<lambda>_. None), oe_of_u64 = (\<lambda>n. Some (10 * uint n)), oe_of_i64 = (\<lambda>n. Some (10 * sint n))\<rparr>"

definition demo_metrics :: "int option wasi_resource_metrics" where
  "demo_metrics = \<lparr>wrm_resource = \<lparr>wr_attributes = [], wr_schema_url = None\<rparr>, wrm_scope_metrics = []\<rparr>"


end
