(* ===== verification/OtelGuestMetrics.thy ===== *)
theory OtelGuestMetrics
  imports OtelMetrics
begin

text \<open>
  wasi-otel, \<open>src/guest/metrics.rs\<close>: the guest's conversion of everything that the OpenTelemetry SDK
  collected, and the reader's shutdown that exports it.  The SDK's types are read through their
  accessors; here they are records of what the accessors return, in the number type \<open>'t\<close> of the
  instrument.  The points of gauges and sums have the same fields and the same conversion, and so
  have the two histograms but for their points; each pair shares one definition.  The SDK's
  temporality may grow (the source panics on an unknown one); it has three values today.  Together with theory OtelMetrics this covers the way of a metric to the wire.
\<close>

section \<open>What the SDK collects\<close>

type_synonym 'f sdk_kvs = "(string \<times> 'f otel_value) list"

record ('t, 'f) sdk_point =
  sk_attributes :: "'f sdk_kvs"
  sk_value :: 't
  sk_exemplars :: "('t, 'f) sdk_exemplar list"

record ('t, 'f) sdk_gauge =
  sg_points :: "('t, 'f) sdk_point list"
  sg_start_time :: "int option"
  sg_time :: int

datatype sdk_temporality = SDelta | SCumulative | SLowMemory

record ('t, 'f) sdk_sum =
  su_points :: "('t, 'f) sdk_point list"
  su_start_time :: int
  su_time :: int
  su_temporality :: sdk_temporality
  su_is_monotonic :: bool

record ('t, 'f) sdk_hist_point =
  sh_attributes :: "'f sdk_kvs"
  sh_count :: u64
  sh_bounds :: "'f list"
  sh_bucket_counts :: "u64 list"
  sh_min :: "'t option"
  sh_max :: "'t option"
  sh_sum :: 't
  sh_exemplars :: "('t, 'f) sdk_exemplar list"

record ('t, 'f) sdk_exp_point =
  sp_attributes :: "'f sdk_kvs"
  sp_count :: nat                  \<comment> \<open>a \<open>usize\<close>\<close>
  sp_min :: "'t option"
  sp_max :: "'t option"
  sp_sum :: 't
  sp_scale :: "8 word"
  sp_zero_count :: u64
  sp_positive :: exp_bucket
  sp_negative :: exp_bucket
  sp_zero_threshold :: 'f
  sp_exemplars :: "('t, 'f) sdk_exemplar list"

record 'p sdk_histogram =
  shg_points :: "'p list"
  shg_start_time :: int
  shg_time :: int
  shg_temporality :: sdk_temporality

datatype ('t, 'f) sdk_metric_data =
    SdkGauge "('t, 'f) sdk_gauge" | SdkSum "('t, 'f) sdk_sum"
  | SdkHistogram "('t, 'f) sdk_hist_point sdk_histogram"
  | SdkExponentialHistogram "('t, 'f) sdk_exp_point sdk_histogram"

datatype 'f sdk_aggregated =
    SdkF64 "('f, 'f) sdk_metric_data" | SdkI64 "(i64, 'f) sdk_metric_data" | SdkU64 "(u64, 'f) sdk_metric_data"

record 'f sdk_metric =
  sdm_name :: string
  sdm_description :: string
  sdm_unit :: string
  sdm_data :: "'f sdk_aggregated"

record 'f sdk_scope_metrics =
  sds_scope :: "'f otel_scope"
  sds_metrics :: "'f sdk_metric list"

record 'f sdk_resource_metrics =
  sdr_resource :: "'f otel_resource"
  sdr_scope_metrics :: "'f sdk_scope_metrics list"

section \<open>The conversions\<close>

text \<open>How numbers convert, for each number type, and the default of a float.\<close>

record 'f guest_env =
  ge_f64 :: "('f, 'f) to_primitive"
  ge_i64 :: "(i64, 'f) to_primitive"
  ge_u64 :: "(u64, 'f) to_primitive"
  ge_zero :: 'f
  ge_lossy :: "bytes \<Rightarrow> string"

fun temporality_from_sdk :: "sdk_temporality \<Rightarrow> wasi_temporality" where
  "temporality_from_sdk SDelta = WDelta"
| "temporality_from_sdk SCumulative = WCumulative"
| "temporality_from_sdk SLowMemory = WLowMemory"

definition point_from_sdk ::
  "('t, 'f) to_primitive \<Rightarrow> 'f \<Rightarrow> (bytes \<Rightarrow> string) \<Rightarrow> ('t, 'f) sdk_point \<Rightarrow> 'f wasi_number_point" where
  "point_from_sdk P zero lossy dp = \<lparr>wn_attributes = map kv_from_otel (sk_attributes dp),
     wn_value = data_value_from P zero (sk_value dp),
     wn_exemplars = map (exemplar_from_sdk P zero lossy) (sk_exemplars dp)\<rparr>"

definition gauge_from_sdk ::
  "('t, 'f) to_primitive \<Rightarrow> 'f \<Rightarrow> (bytes \<Rightarrow> string) \<Rightarrow> ('t, 'f) sdk_gauge \<Rightarrow> 'f wasi_gauge" where
  "gauge_from_sdk P zero lossy g = \<lparr>wg_points = map (point_from_sdk P zero lossy) (sg_points g),
     wg_start_time = map_option datetime_from_system (sg_start_time g),
     wg_time = datetime_from_system (sg_time g)\<rparr>"

definition sum_from_sdk ::
  "('t, 'f) to_primitive \<Rightarrow> 'f \<Rightarrow> (bytes \<Rightarrow> string) \<Rightarrow> ('t, 'f) sdk_sum \<Rightarrow> 'f wasi_sum" where
  "sum_from_sdk P zero lossy sm = \<lparr>ws_points = map (point_from_sdk P zero lossy) (su_points sm),
     ws_start_time = datetime_from_system (su_start_time sm), ws_time = datetime_from_system (su_time sm),
     ws_temporality = temporality_from_sdk (su_temporality sm), ws_is_monotonic = su_is_monotonic sm\<rparr>"

definition hist_point_from_sdk ::
  "('t, 'f) to_primitive \<Rightarrow> 'f \<Rightarrow> (bytes \<Rightarrow> string) \<Rightarrow> ('t, 'f) sdk_hist_point \<Rightarrow> 'f wasi_hist_point" where
  "hist_point_from_sdk P zero lossy dp = \<lparr>wh_attributes = map kv_from_otel (sh_attributes dp),
     wh_count = sh_count dp, wh_bounds = sh_bounds dp, wh_bucket_counts = sh_bucket_counts dp,
     wh_min = map_option (data_value_from P zero) (sh_min dp),
     wh_max = map_option (data_value_from P zero) (sh_max dp),
     wh_sum = data_value_from P zero (sh_sum dp),
     wh_exemplars = map (exemplar_from_sdk P zero lossy) (sh_exemplars dp)\<rparr>"

definition exp_point_from_sdk ::
  "('t, 'f) to_primitive \<Rightarrow> 'f \<Rightarrow> (bytes \<Rightarrow> string) \<Rightarrow> ('t, 'f) sdk_exp_point \<Rightarrow> 'f wasi_exp_point" where
  "exp_point_from_sdk P zero lossy dp = \<lparr>wx_attributes = map kv_from_otel (sp_attributes dp),
     wx_count = of_nat (sp_count dp),
     wx_min = map_option (data_value_from P zero) (sp_min dp),
     wx_max = map_option (data_value_from P zero) (sp_max dp),
     wx_sum = data_value_from P zero (sp_sum dp), wx_scale = sp_scale dp,
     wx_zero_count = sp_zero_count dp,
     wx_positive = \<lparr>eb_offset = eb_offset (sp_positive dp), eb_counts = eb_counts (sp_positive dp)\<rparr>,
     wx_negative = \<lparr>eb_offset = eb_offset (sp_negative dp), eb_counts = eb_counts (sp_negative dp)\<rparr>,
     wx_zero_threshold = sp_zero_threshold dp,
     wx_exemplars = map (exemplar_from_sdk P zero lossy) (sp_exemplars dp)\<rparr>"

definition histogram_from_sdk :: "('p \<Rightarrow> 'q) \<Rightarrow> 'p sdk_histogram \<Rightarrow> 'q wasi_histogram" where
  "histogram_from_sdk conv h = \<lparr>whg_points = map conv (shg_points h),
     whg_start_time = datetime_from_system (shg_start_time h), whg_time = datetime_from_system (shg_time h),
     whg_temporality = temporality_from_sdk (shg_temporality h)\<rparr>"

fun metric_data_from_sdk ::
  "('t, 'f) to_primitive \<Rightarrow> 'f \<Rightarrow> (bytes \<Rightarrow> string) \<Rightarrow> ('t, 'f) sdk_metric_data \<Rightarrow> 'f wasi_metric_data" where
  "metric_data_from_sdk P zero lossy (SdkGauge v) = WGauge (gauge_from_sdk P zero lossy v)"
| "metric_data_from_sdk P zero lossy (SdkSum v) = WSum (sum_from_sdk P zero lossy v)"
| "metric_data_from_sdk P zero lossy (SdkHistogram v) =
     WHistogram (histogram_from_sdk (hist_point_from_sdk P zero lossy) v)"
| "metric_data_from_sdk P zero lossy (SdkExponentialHistogram v) =
     WExponentialHistogram (histogram_from_sdk (exp_point_from_sdk P zero lossy) v)"

fun aggregated_from_sdk :: "'f guest_env \<Rightarrow> 'f sdk_aggregated \<Rightarrow> 'f aggregated_metrics" where
  "aggregated_from_sdk G (SdkF64 v) = AggF64 (metric_data_from_sdk (ge_f64 G) (ge_zero G) (ge_lossy G) v)"
| "aggregated_from_sdk G (SdkI64 v) = AggS64 (metric_data_from_sdk (ge_i64 G) (ge_zero G) (ge_lossy G) v)"
| "aggregated_from_sdk G (SdkU64 v) = AggU64 (metric_data_from_sdk (ge_u64 G) (ge_zero G) (ge_lossy G) v)"

definition metric_from_sdk :: "'f guest_env \<Rightarrow> 'f sdk_metric \<Rightarrow> 'f wasi_metric" where
  "metric_from_sdk G m = \<lparr>wm_name = sdm_name m, wm_description = sdm_description m, wm_unit = sdm_unit m,
     wm_data = aggregated_from_sdk G (sdm_data m)\<rparr>"

definition scope_metrics_from_sdk :: "'f guest_env \<Rightarrow> 'f sdk_scope_metrics \<Rightarrow> 'f wasi_scope_metrics" where
  "scope_metrics_from_sdk G sm = \<lparr>wsm_scope = scope_from_otel (sds_scope sm),
     wsm_metrics = map (metric_from_sdk G) (sds_metrics sm)\<rparr>"

definition resource_metrics_from_sdk :: "'f guest_env \<Rightarrow> 'f sdk_resource_metrics \<Rightarrow> 'f wasi_resource_metrics" where
  "resource_metrics_from_sdk G rm = \<lparr>wrm_resource = resource_from_otel (sdr_resource rm),
     wrm_scope_metrics = map (scope_metrics_from_sdk G) (sdr_scope_metrics rm)\<rparr>"

text \<open>
  \<open>shutdown_with_timeout\<close> of the reader: \<open>collect\<close> is the SDK's; what it gave is exported by a
  task of its own, whose result does not reach the caller.
\<close>

definition reader_shutdown ::
  "'f guest_env \<Rightarrow> ('s, otel_sdk_error, 'f sdk_resource_metrics) op \<Rightarrow>
   ('s, otel_sdk_error, 'f wasi_resource_metrics) op" where
  "reader_shutdown G collect = op_bind collect (\<lambda>rm. op_return (resource_metrics_from_sdk G rm))"

section \<open>A common view of both ends\<close>

text \<open>
  What a consumer of metrics reads: attributes, times, counts, buckets and integer values.  The
  value of a point is given by \<open>f\<close> on the guest's side and is the integer field on the wire.
\<close>

datatype 'f point_view =
    NumberView "'f proto_kvs" u64 u64 "i64 option"
  | HistView "'f proto_kvs" u64 u64 u64 "'f list" "u64 list"
  | ExpView "'f proto_kvs" u64 u64 u64 int u64 exp_bucket exp_bucket

record 'f metric_view =
  mv_name :: string
  mv_description :: string
  mv_unit :: string
  mv_temporality :: "int option"
  mv_points :: "'f point_view list"

fun wire_int :: "'f number_value option \<Rightarrow> i64 option" where
  "wire_int (Some (AsInt v)) = Some v"
| "wire_int _ = None"

fun wire_points :: "'f metric_data \<Rightarrow> int option \<times> 'f point_view list" where
  "wire_points (Gauge ps) =
     (None, map (\<lambda>p. NumberView (np_attributes p) (np_start_time p) (np_time p) (wire_int (np_value p))) ps)"
| "wire_points (Sum sm) = (Some (sm_temporality sm),
     map (\<lambda>p. NumberView (np_attributes p) (np_start_time p) (np_time p) (wire_int (np_value p))) (sm_points sm))"
| "wire_points (Histogram h) = (Some (hg_temporality h),
     map (\<lambda>p. HistView (hp_attributes p) (hp_start_time p) (hp_time p) (hp_count p) (hp_bounds p)
       (hp_bucket_counts p)) (hg_points h))"
| "wire_points (ExponentialHistogram h) = (Some (hg_temporality h),
     map (\<lambda>p. ExpView (xp_attributes p) (xp_start_time p) (xp_time p) (xp_count p) (sint (xp_scale p))
       (xp_zero_count p) (the (xp_positive p)) (the (xp_negative p))) (hg_points h))"

definition wire_view :: "'f metric \<Rightarrow> 'f metric_view" where
  "wire_view m = (case wire_points (the (mt_data m)) of (t, ps) \<Rightarrow>
     \<lparr>mv_name = mt_name m, mv_description = mt_description m, mv_unit = mt_unit m,
      mv_temporality = t, mv_points = ps\<rparr>)"

text \<open>The guest's side: times in nanoseconds modulo \<open>2 ^ 64\<close>, the epoch for times before it.\<close>

definition wire_time :: "int \<Rightarrow> u64" where
  "wire_time st = word_of_int (max 0 st)"

definition wire_attrs :: "'f sdk_kvs \<Rightarrow> 'f proto_kvs" where
  "wire_attrs kvs = map (\<lambda>(k, v). \<lparr>kv_key = k, kv_value = Some (value_to_any (value_from_otel v))\<rparr>) kvs"

fun temporality_code :: "sdk_temporality \<Rightarrow> int" where
  "temporality_code SDelta = 1" | "temporality_code SCumulative = 2" | "temporality_code SLowMemory = 0"

fun sdk_points :: "('t \<Rightarrow> i64 option) \<Rightarrow> ('t, 'f) sdk_metric_data \<Rightarrow> int option \<times> 'f point_view list" where
  "sdk_points f (SdkGauge g) = (None, map (\<lambda>p. NumberView (wire_attrs (sk_attributes p))
     (case sg_start_time g of None \<Rightarrow> 0 | Some t \<Rightarrow> wire_time t) (wire_time (sg_time g)) (f (sk_value p))) (sg_points g))"
| "sdk_points f (SdkSum sm) = (Some (temporality_code (su_temporality sm)), map (\<lambda>p. NumberView
     (wire_attrs (sk_attributes p)) (wire_time (su_start_time sm)) (wire_time (su_time sm)) (f (sk_value p))) (su_points sm))"
| "sdk_points f (SdkHistogram h) = (Some (temporality_code (shg_temporality h)), map (\<lambda>p. HistView
     (wire_attrs (sh_attributes p)) (wire_time (shg_start_time h)) (wire_time (shg_time h)) (sh_count p) (sh_bounds p)
     (sh_bucket_counts p)) (shg_points h))"
| "sdk_points f (SdkExponentialHistogram h) = (Some (temporality_code (shg_temporality h)), map (\<lambda>p. ExpView
     (wire_attrs (sp_attributes p)) (wire_time (shg_start_time h)) (wire_time (shg_time h)) (of_nat (sp_count p))
     (sint (sp_scale p)) (sp_zero_count p) (sp_positive p) (sp_negative p)) (shg_points h))"

text \<open>An integer keeps its value; a float keeps its integral part (\<open>None\<close>: no integer on the wire).\<close>

fun sdk_aggregated_points :: "('f \<Rightarrow> i64 option) \<Rightarrow> 'f sdk_aggregated \<Rightarrow> int option \<times> 'f point_view list" where
  "sdk_aggregated_points f (SdkF64 d) = sdk_points f d"
| "sdk_aggregated_points f (SdkI64 d) = sdk_points Some d"
| "sdk_aggregated_points f (SdkU64 d) = sdk_points Some d"

definition sdk_view :: "('f \<Rightarrow> i64 option) \<Rightarrow> 'f sdk_metric \<Rightarrow> 'f metric_view" where
  "sdk_view f m = (case sdk_aggregated_points f (sdm_data m) of (t, ps) \<Rightarrow>
     \<lparr>mv_name = sdm_name m, mv_description = sdm_description m, mv_unit = sdm_unit m,
      mv_temporality = t, mv_points = ps\<rparr>)"

section \<open>Lemmas\<close>

lemma time_on_wire: "datetime_nanos (datetime_from_system st) = wire_time st"
proof (cases "0 \<le> st")
  case True
  then show ?thesis by (simp add: datetime_nanos_system wire_time_def)
next
  case False
  then have "datetime_from_system st = datetime_from_system 0" by (simp add: datetime_from_system_def)
  with False show ?thesis using datetime_nanos_system [of 0] by (simp add: wire_time_def)
qed

lemma attrs_on_wire: "map kv_to_proto (map kv_from_otel kvs) = wire_attrs kvs"
  by (simp add: wire_attrs_def kv_to_proto_def kv_from_otel_def split_def)

lemma temporality_on_wire: "temporality_number (temporality_to_proto (temporality_from_sdk t)) = temporality_code t"
  by (cases t) simp_all

lemma data_on_wire:
  assumes "\<And>x. wire_int (Some (number_to_proto (data_value_from P zero x))) = f x"
  shows "wire_points (metric_data_to_proto X (metric_data_from_sdk P zero lossy d)) = sdk_points f d"
proof (cases d)
  case (SdkGauge g)
  then show ?thesis
    by (cases "sg_start_time g") (simp_all add: gauge_to_proto_def gauge_from_sdk_def point_to_proto_def
      point_from_sdk_def time_on_wire attrs_on_wire [simplified] assms [simplified] unwrap_or_default_def)
next
  case (SdkSum sm)
  then show ?thesis
    by (simp add: sum_to_proto_def sum_from_sdk_def point_to_proto_def point_from_sdk_def time_on_wire
      attrs_on_wire [simplified] assms [simplified] temporality_on_wire)
next
  case (SdkHistogram h)
  then show ?thesis
    by (simp add: hist_to_proto_def histogram_from_sdk_def hist_point_from_sdk_def time_on_wire
      attrs_on_wire [simplified] temporality_on_wire)
next
  case (SdkExponentialHistogram h)
  have "sint (scast w :: 32 word) = sint w" for w :: "8 word"
    by (simp add: sint_up_scast is_up)
  with SdkExponentialHistogram show ?thesis
    by (simp add: exp_hist_to_proto_def histogram_from_sdk_def exp_point_from_sdk_def time_on_wire
      attrs_on_wire [simplified] temporality_on_wire)
qed

section \<open>Properties\<close>

definition wire_float :: "('f \<Rightarrow> int option) \<Rightarrow> 'f \<Rightarrow> i64 option" where
  "wire_float trunc x = (case trunc x of None \<Rightarrow> None
     | Some n \<Rightarrow> if - (2 ^ 63) \<le> n \<and> n < 2 ^ 64 then Some (word_of_int n) else None)"

lemma float_on_wire:
  assumes "f64_primitive_laws trunc P"
  shows "wire_int (Some (number_to_proto (data_value_from P zero x))) = wire_float trunc x"
proof (cases "trunc x")
  case None
  then show ?thesis using assms
    by (simp add: f64_primitive_laws_def data_value_from_def wire_float_def)
next
  case (Some n)
  then have u: "to_u64 P x = (if 0 \<le> n \<and> n < 2 ^ 64 then Some (word_of_int n) else None)"
    and i: "to_i64 P x = (if - (2 ^ 63) \<le> n \<and> n < 2 ^ 63 then Some (word_of_int n) else None)"
    using assms by (simp_all add: f64_primitive_laws_def)
  show ?thesis
  proof (cases "0 \<le> n")
    case True
    then show ?thesis using Some u i by (auto simp: data_value_from_def wire_float_def)
  next
    case False
    then have "n < 2 ^ 63 \<longleftrightarrow> True" and "n < 2 ^ 64 \<longleftrightarrow> True" by simp_all
    with False show ?thesis using Some u i by (auto simp: data_value_from_def wire_float_def)
  qed
qed

text \<open>
  C12: Metrics from end to end.  For everything the SDK collected, the request that leaves the host
  shows, scope by scope and metric by metric in order, what the guest measured: the same names,
  descriptions and units, for every point its attributes, times, counts, bounds and buckets,
  and the value of every integer measurement bit by bit (a time before the epoch is the epoch,
  the low-memory temporality is sent as unspecified).  Only floating point measurements differ:
  their value on the wire is the integral part.
\<close>

theorem metrics_end_to_end:
  assumes "u64_primitive_laws (ge_u64 G)" and "i64_primitive_laws (ge_i64 G)"
    and "f64_primitive_laws trunc (ge_f64 G)"
  shows "map (\<lambda>sm. map wire_view (scm_metrics sm))
      (rm_scope_metrics (hd (metrics_request X (resource_metrics_from_sdk G rm)))) =
    map (\<lambda>sm. map (sdk_view (wire_float trunc)) (sds_metrics sm)) (sdr_scope_metrics rm)"
proof -
  have "wire_points (metric_data_to_proto X (aggregated_data (aggregated_from_sdk G d))) =
      sdk_aggregated_points (wire_float trunc) d" for d
  proof (cases d)
    case (SdkF64 v)
    then show ?thesis using data_on_wire [OF float_on_wire [OF assms(3)]] by simp
  next
    case (SdkI64 v)
    have ints: "wire_int (Some (number_to_proto (data_value_from (ge_i64 G) (ge_zero G) x))) = Some x" for x
      using assms(2) by (simp add: i64_primitive_laws_def data_value_from_def)
    then show ?thesis using SdkI64 data_on_wire [where f = Some, OF ints] by simp
  next
    case (SdkU64 v)
    have ints: "wire_int (Some (number_to_proto (data_value_from (ge_u64 G) (ge_zero G) x))) = Some x" for x
      using assms(1) by (simp add: u64_primitive_laws_def data_value_from_def)
    then show ?thesis using SdkU64 data_on_wire [where f = Some, OF ints] by simp
  qed
  then have "wire_view (metric_to_proto X (metric_from_sdk G m)) = sdk_view (wire_float trunc) m" for m
    by (simp add: wire_view_def sdk_view_def metric_to_proto_def metric_from_sdk_def)
  then show ?thesis
    by (simp add: metrics_request_def resource_metrics_from_sdk_def scope_metrics_to_proto_def
        scope_metrics_from_sdk_def)
qed

definition demo_guest_env :: "int option guest_env" where
  "demo_guest_env = \<lparr>ge_f64 = demo_prim
       (\<lambda>x. case demo_trunc x of None \<Rightarrow> None | Some n \<Rightarrow> if 0 \<le> n \<and> n < 2 ^ 64 then Some (word_of_int n) else None)
       (\<lambda>x. case demo_trunc x of None \<Rightarrow> None | Some n \<Rightarrow>
          if - (2 ^ 63) \<le> n \<and> n < 2 ^ 63 then Some (word_of_int n) else None) Some,
     ge_i64 = demo_prim (\<lambda>v. if 0 \<le> sint v then Some v else None) Some (\<lambda>_. None),
     ge_u64 = demo_prim Some Some (\<lambda>_. None), ge_zero = None, ge_lossy = (\<lambda>_. [])\<rparr>"

definition demo_sdk_metrics :: "int option sdk_resource_metrics" where
  "demo_sdk_metrics = (let scope = \<lparr>os_name = ''s'', os_version = None, os_schema_url = None, os_attributes = []\<rparr>;
       gauge = SdkGauge \<lparr>sg_points = [\<lparr>sk_attributes = [], sk_value = Some 37, sk_exemplars = []\<rparr>],
         sg_start_time = None, sg_time = 5\<rparr>
     in \<lparr>sdr_resource = \<lparr>or_attributes = [], or_schema_url = None\<rparr>,
         sdr_scope_metrics = [\<lparr>sds_scope = scope, sds_metrics =
           [\<lparr>sdm_name = ''m'', sdm_description = [], sdm_unit = ''s'', sdm_data = SdkF64 gauge\<rparr>]\<rparr>]\<rparr>)"

theorem metrics_end_to_end_witness:
  "map (\<lambda>sm. map wire_view (scm_metrics sm))
      (rm_scope_metrics (hd (metrics_request demo_otel_env (resource_metrics_from_sdk demo_guest_env demo_sdk_metrics)))) =
    [[\<lparr>mv_name = ''m'', mv_description = [], mv_unit = ''s'', mv_temporality = None,
       mv_points = [NumberView [] 0 5 (Some 3)]\<rparr>]]"
proof -
  have laws: "u64_primitive_laws (ge_u64 demo_guest_env)" "i64_primitive_laws (ge_i64 demo_guest_env)"
    "f64_primitive_laws demo_trunc (ge_f64 demo_guest_env)"
    by (simp_all add: demo_guest_env_def demo_prim_def u64_primitive_laws_def i64_primitive_laws_def
        f64_primitive_laws_def)
  show ?thesis
    unfolding metrics_end_to_end [OF laws]
    by (simp add: demo_sdk_metrics_def sdk_view_def wire_float_def demo_trunc_def wire_time_def wire_attrs_def Let_def)
qed

end
