(* ===== verification/OtelTracing.thy ===== *)
theory OtelTracing
  imports OtelMetrics "HOL-Library.Multiset"
begin

text \<open>
  wasi-otel tracing: the guest's span processor and its conversion of finished spans
  (\<open>src/guest/tracing.rs\<close>), the host's \<open>export\<close> with the grouping by scope and the conversion to
  the protocol (\<open>src/host/tracing_impl.rs\<close>), and the default backend.

  Ids of the OpenTelemetry SDK are numbers; how the SDK prints them is the record \<open>id_text\<close>.
\<close>

section \<open>Spans\<close>

record wasi_span_context =
  wc_trace_id :: string
  wc_span_id :: string
  wc_sampled :: bool        \<comment> \<open>the only trace flag\<close>
  wc_is_remote :: bool
  wc_trace_state :: "(string \<times> string) list"

datatype span_kind = Client | Server | Producer | Consumer | Internal

record 'f wasi_event =
  wv_name :: string
  wv_time :: datetime
  wv_attributes :: "'f wasi_kvs"

record 'f wasi_link =
  wl_context :: wasi_span_context
  wl_attributes :: "'f wasi_kvs"

datatype wasi_status = WUnset | WOk | WError string

record 'f wasi_span =
  sd_context :: wasi_span_context
  sd_parent :: string
  sd_kind :: span_kind
  sd_name :: string
  sd_start :: datetime
  sd_end :: datetime
  sd_attributes :: "'f wasi_kvs"
  sd_events :: "'f wasi_event list"
  sd_links :: "'f wasi_link list"
  sd_status :: wasi_status
  sd_scope :: "'f wasi_scope"
  sd_dropped_attributes :: u32
  sd_dropped_events :: u32
  sd_dropped_links :: u32

section \<open>The guest\<close>

record sdk_span_context =
  sx_trace_id :: nat
  sx_span_id :: nat
  sx_sampled :: bool
  sx_is_remote :: bool
  sx_trace_state :: string       \<comment> \<open>\<open>trace_state().header()\<close>\<close>

record 'f sdk_event =
  sv_name :: string
  sv_time :: int
  sv_attributes :: "(string \<times> 'f otel_value) list"

record 'f sdk_link =
  sl_context :: sdk_span_context
  sl_attributes :: "(string \<times> 'f otel_value) list"

datatype sdk_status = SUnset | SError string | SOk

record 'f sdk_span =
  ss_context :: sdk_span_context
  ss_parent :: nat
  ss_kind :: span_kind
  ss_name :: string
  ss_start :: int
  ss_end :: int
  ss_attributes :: "(string \<times> 'f otel_value) list"
  ss_events :: "'f sdk_event list"
  ss_links :: "'f sdk_link list"
  ss_status :: sdk_status
  ss_scope :: "'f otel_scope"
  ss_dropped_attributes :: u32
  ss_dropped_events :: u32
  ss_dropped_links :: u32

text \<open>\<open>{:x}\<close> and \<open>to_string\<close> of trace and span ids.\<close>

record id_text =
  it_trace_hex :: "nat \<Rightarrow> string"
  it_span_hex :: "nat \<Rightarrow> string"
  it_trace_string :: "nat \<Rightarrow> string"
  it_span_string :: "nat \<Rightarrow> string"

text \<open>\<open>s.split_once(c)\<close>\<close>

fun split_once :: "char \<Rightarrow> string \<Rightarrow> (string \<times> string) option" where
  "split_once sep [] = None"
| "split_once sep (c # cs) = (if c = sep then Some ([], cs)
     else (case split_once sep cs of None \<Rightarrow> None | Some (a, b) \<Rightarrow> Some (c # a, b)))"

text \<open>Both sides read the header in the same way.\<close>

definition parse_trace_state :: "string \<Rightarrow> (string \<times> string) list" where
  "parse_trace_state header = List.map_filter (split_once CHR ''='') (split_on CHR '','' header)"

definition context_from_sdk :: "id_text \<Rightarrow> sdk_span_context \<Rightarrow> wasi_span_context" where
  "context_from_sdk I sc = \<lparr>wc_trace_id = it_trace_hex I (sx_trace_id sc),
     wc_span_id = it_span_hex I (sx_span_id sc), wc_sampled = sx_sampled sc,
     wc_is_remote = sx_is_remote sc, wc_trace_state = parse_trace_state (sx_trace_state sc)\<rparr>"

definition event_from_sdk :: "'f sdk_event \<Rightarrow> 'f wasi_event" where
  "event_from_sdk event = \<lparr>wv_name = sv_name event, wv_time = datetime_from_system (sv_time event),
     wv_attributes = map kv_from_otel (sv_attributes event)\<rparr>"

definition link_from_sdk :: "id_text \<Rightarrow> 'f sdk_link \<Rightarrow> 'f wasi_link" where
  "link_from_sdk I link = \<lparr>wl_context = context_from_sdk I (sl_context link),
     wl_attributes = map kv_from_otel (sl_attributes link)\<rparr>"

fun status_from_sdk :: "sdk_status \<Rightarrow> wasi_status" where
  "status_from_sdk SUnset = WUnset"
| "status_from_sdk (SError description) = WError description"
| "status_from_sdk SOk = WOk"

text \<open>The kinds have the same names on both sides, so \<open>span_kind\<close> is one type here.\<close>

definition span_from_sdk :: "id_text \<Rightarrow> 'f sdk_span \<Rightarrow> 'f wasi_span" where
  "span_from_sdk I sd = \<lparr>sd_context = context_from_sdk I (ss_context sd),
     sd_parent = it_span_string I (ss_parent sd), sd_kind = ss_kind sd, sd_name = ss_name sd,
     sd_start = datetime_from_system (ss_start sd), sd_end = datetime_from_system (ss_end sd),
     sd_attributes = map kv_from_otel (ss_attributes sd),
     sd_events = map event_from_sdk (ss_events sd), sd_links = map (link_from_sdk I) (ss_links sd),
     sd_status = status_from_sdk (ss_status sd), sd_scope = scope_from_otel (ss_scope sd),
     sd_dropped_attributes = ss_dropped_attributes sd, sd_dropped_events = ss_dropped_events sd,
     sd_dropped_links = ss_dropped_links sd\<rparr>"

text \<open>The processor keeps the sampled spans; the second component is what was exported, in order.\<close>

record 'f span_processor =
  pc_spans :: "'f sdk_span list"

definition on_end :: "'f sdk_span \<Rightarrow> 'f span_processor \<Rightarrow> 'f span_processor" where
  "on_end span p = (if \<not> sx_sampled (ss_context span) then p else p\<lparr>pc_spans := pc_spans p @ [span]\<rparr>)"

text \<open>\<open>shutdown_with_timeout\<close>: the spans handed to the spawned export, if there are any.\<close>

definition processor_shutdown :: "id_text \<Rightarrow> 'f span_processor \<Rightarrow> 'f wasi_span list option \<times> 'f span_processor" where
  "processor_shutdown I p = (let spans = pc_spans p
     in if spans = [] then (None, p) else (Some (map (span_from_sdk I) spans), p))"

section \<open>The host\<close>

record 'f proto_event =
  pe_time :: u64
  pe_name :: string
  pe_attributes :: "'f proto_kvs"
  pe_dropped :: u32

record 'f proto_link =
  pl_trace_id :: bytes
  pl_span_id :: bytes
  pl_trace_state :: string
  pl_attributes :: "'f proto_kvs"
  pl_dropped :: u32
  pl_flags :: u32

record proto_status =
  pst_message :: string
  pst_code :: int

record 'f proto_span =
  sp_trace_id :: bytes
  sp_span_id :: bytes
  sp_trace_state :: string
  sp_parent_span_id :: bytes
  sp_flags :: u32
  sp_name :: string
  sp_kind :: int
  sp_start :: u64
  sp_end :: u64
  sp_attributes :: "'f proto_kvs"
  sp_dropped_attributes :: u32
  sp_events :: "'f proto_event list"
  sp_dropped_events :: u32
  sp_links :: "'f proto_link list"
  sp_dropped_links :: u32
  sp_status :: "proto_status option"

record 'f scope_spans =
  scs_scope :: "'f proto_scope option"
  scs_schema_url :: string
  scs_spans :: "'f proto_span list"

record 'f resource_spans =
  rsp_resource :: "'f proto_resource option"
  rsp_scope_spans :: "'f scope_spans list"
  rsp_schema_url :: string

text \<open>\<open>span_kind as i32\<close>: the position in the interface's enum.\<close>

fun kind_number :: "span_kind \<Rightarrow> int" where
  "kind_number Client = 0"
| "kind_number Server = 1"
| "kind_number Producer = 2"
| "kind_number Consumer = 3"
| "kind_number Internal = 4"

text \<open>The flag \<open>SAMPLED\<close> is 1.\<close>

definition flags_number :: "bool \<Rightarrow> u32" where
  "flags_number sampled = (if sampled then 1 else 0)"

definition print_trace_state :: "(string \<times> string) list \<Rightarrow> string" where
  "print_trace_state ts = join '','' (map (\<lambda>(k, v). k @ ''='' @ v) ts)"

definition hex_or_empty :: "'f otel_env \<Rightarrow> string \<Rightarrow> bytes" where
  "hex_or_empty X s = unwrap_or_default [] (oe_hex X s)"

definition event_to_proto :: "'f wasi_event \<Rightarrow> 'f proto_event" where
  "event_to_proto event = \<lparr>pe_time = datetime_nanos (wv_time event), pe_name = wv_name event,
     pe_attributes = map kv_to_proto (wv_attributes event), pe_dropped = 0\<rparr>"

definition link_to_proto :: "'f otel_env \<Rightarrow> 'f wasi_link \<Rightarrow> 'f proto_link" where
  "link_to_proto X link = \<lparr>pl_trace_id = hex_or_empty X (wc_trace_id (wl_context link)),
     pl_span_id = hex_or_empty X (wc_span_id (wl_context link)),
     pl_trace_state = print_trace_state (wc_trace_state (wl_context link)),
     pl_attributes = map kv_to_proto (wl_attributes link), pl_dropped = 0,
     pl_flags = flags_number (wc_sampled (wl_context link))\<rparr>"

text \<open>The codes of the protocol: 0 unset, 1 ok, 2 error.\<close>

fun status_to_proto :: "wasi_status \<Rightarrow> proto_status" where
  "status_to_proto WUnset = \<lparr>pst_message = [], pst_code = 0\<rparr>"
| "status_to_proto (WError description) = \<lparr>pst_message = description, pst_code = 2\<rparr>"
| "status_to_proto WOk = \<lparr>pst_message = [], pst_code = 1\<rparr>"

definition span_to_proto :: "'f otel_env \<Rightarrow> 'f wasi_span \<Rightarrow> 'f proto_span" where
  "span_to_proto X span = \<lparr>
     sp_trace_id = hex_or_empty X (wc_trace_id (sd_context span)),
     sp_span_id = hex_or_empty X (wc_span_id (sd_context span)),
     sp_trace_state = print_trace_state (wc_trace_state (sd_context span)),
     sp_parent_span_id = hex_or_empty X (sd_parent span),
     sp_flags = flags_number (wc_sampled (sd_context span)),
     sp_name = sd_name span, sp_kind = kind_number (sd_kind span),
     sp_start = datetime_nanos (sd_start span), sp_end = datetime_nanos (sd_end span),
     sp_attributes = map kv_to_proto (sd_attributes span),
     sp_dropped_attributes = sd_dropped_attributes span,
     sp_events = map event_to_proto (sd_events span), sp_dropped_events = sd_dropped_events span,
     sp_links = map (link_to_proto X) (sd_links span), sp_dropped_links = sd_dropped_links span,
     sp_status = Some (status_to_proto (sd_status span))\<rparr>"

text \<open>
  The source's hash map: \<open>sm_find\<close> is the entry that a look-up finds among the keys it holds, in the
  order in which they came, and \<open>sm_values\<close> is \<open>into_values\<close>.  Its keys compare by \<open>==\<close> and hash by the
  \<open>Hash\<close> of theory OtelTypes, which do not agree on every float; what is relied on is \<open>scope_map_laws\<close>.
\<close>

record 'f scope_map =
  sm_find :: "'f wasi_scope list \<Rightarrow> 'f wasi_scope \<Rightarrow> nat option"
  sm_values :: "('f wasi_scope \<times> 'f wasi_span list) list \<Rightarrow> 'f wasi_span list list"

text \<open>\<open>scope_map.entry(scope).or_default().push(span)\<close>\<close>

definition scope_push ::
  "'f scope_map \<Rightarrow> 'f wasi_span \<Rightarrow> ('f wasi_scope \<times> 'f wasi_span list) list \<Rightarrow> ('f wasi_scope \<times> 'f wasi_span list) list" where
  "scope_push M span groups = (case sm_find M (map fst groups) (sd_scope span) of
      None \<Rightarrow> groups @ [(sd_scope span, [span])]
    | Some i \<Rightarrow> groups[i := (fst (groups ! i), snd (groups ! i) @ [span])])"

definition group_spans :: "'f scope_map \<Rightarrow> 'f wasi_span list \<Rightarrow> ('f wasi_scope \<times> 'f wasi_span list) list" where
  "group_spans M spans = fold (scope_push M) spans []"

definition resource_spans_of ::
  "'f otel_env \<Rightarrow> 'f scope_map \<Rightarrow> 'f otel_resource \<Rightarrow> 'f wasi_span list \<Rightarrow> 'f resource_spans list" where
  "resource_spans_of X M resource spans =
     [\<lparr>rsp_resource = Some \<lparr>pr_attributes = map (kv_to_proto \<circ> kv_from_otel) (or_attributes resource),
         pr_dropped = 0, pr_entity_refs = []\<rparr>,
       rsp_scope_spans = map (\<lambda>spans. \<lparr>scs_scope = Some (scope_to_proto (sd_scope (spans ! 0))),
           scs_schema_url = unwrap_or_default [] (or_schema_url resource),
           scs_spans = map (span_to_proto X) spans\<rparr>) (sm_values M (group_spans M spans)),
       rsp_schema_url = unwrap_or_default [] (or_schema_url resource)\<rparr>]"

text \<open>The host's own current span becomes the parent of every span of the guest.\<close>

definition set_parent :: "id_text \<Rightarrow> sdk_span_context \<Rightarrow> 'f wasi_span \<Rightarrow> 'f wasi_span" where
  "set_parent I parent sp = sp\<lparr>sd_context := (sd_context sp)\<lparr>wc_trace_id := it_trace_string I (sx_trace_id parent),
     wc_is_remote := True\<rparr>, sd_parent := it_span_string I (sx_span_id parent)\<rparr>"

definition trace_export ::
  "'f otel_env \<Rightarrow> id_text \<Rightarrow> 'f scope_map \<Rightarrow> 'f otel_resource option \<Rightarrow> sdk_span_context \<Rightarrow>
   ('f resource_spans list \<Rightarrow> ('s, anyhow, unit) op) \<Rightarrow> 'f wasi_span list \<Rightarrow> ('s, otel_error, unit) op" where
  "trace_export X I M resource parent send span_data = (case resource of
      None \<Rightarrow> op_return ()
    | Some resource \<Rightarrow>
        let span_data = map (set_parent I parent) span_data
        in op_map_err otel_error_from_anyhow (send (resource_spans_of X M resource span_data)))"

text \<open>The default backend counts and drops.\<close>

definition default_span_count :: "'f resource_spans list \<Rightarrow> nat" where
  "default_span_count request =
     sum_list (map (\<lambda>rs. sum_list (map (\<lambda>ss. length (scs_spans ss)) (rsp_scope_spans rs))) request)"

definition default_export_traces :: "'f resource_spans list \<Rightarrow> (nat list, anyhow, unit) op" where
  "default_export_traces request log = (Inr (), log @ [default_span_count request])"

section \<open>Lemmas\<close>

lemma split_once_app: "sep \<notin> set a \<Longrightarrow> split_once sep (a @ sep # b) = Some (a, b)"
  by (induction a) auto

text \<open>A trace state survives printing and reading.\<close>

lemma trace_state_roundtrip:
  assumes "ts \<noteq> []" and "\<forall>(k, v) \<in> set ts. CHR ''='' \<notin> set k \<and> CHR '','' \<notin> set k \<and> CHR '','' \<notin> set v"
  shows "parse_trace_state (print_trace_state ts) = ts"
proof -
  have "split_on CHR '','' (print_trace_state ts) = map (\<lambda>(k, v). k @ ''='' @ v) ts"
    unfolding print_trace_state_def by (rule split_by_join) (use assms in \<open>fastforce simp: split_def\<close>)+
  moreover have "split_once CHR ''='' (k @ ''='' @ v) = Some (k, v)" if "(k, v) \<in> set ts" for k v
    using assms(2) that split_once_app [of "CHR ''=''" k v] by auto
  then have "List.map_filter (split_once CHR ''='') (map (\<lambda>(k, v). k @ ''='' @ v) ts) = ts"
    by (induction ts) (auto simp: List.map_filter_def)
  ultimately show ?thesis by (simp add: parse_trace_state_def)
qed

text \<open>
  The law of the hash map: an entry that is found has an equal key, and an equal key with the same
  hash is found.  Nothing is said of equal keys with different hashes (scopes that differ in the
  sign of a zero), and a key that is not equal to itself (a NaN) is never found.
\<close>

definition same_key :: "('f \<Rightarrow> 'f \<Rightarrow> bool) \<Rightarrow> ('f \<Rightarrow> u64) \<Rightarrow> ('f \<Rightarrow> i64) \<Rightarrow> 'f wasi_scope \<Rightarrow> 'f wasi_scope \<Rightarrow> bool" where
  "same_key feq bits trunc a b \<longleftrightarrow> scope_eq feq a b \<and> scope_hash bits trunc a = scope_hash bits trunc b"

definition scope_map_laws ::
  "('f \<Rightarrow> 'f \<Rightarrow> bool) \<Rightarrow> ('f \<Rightarrow> u64) \<Rightarrow> ('f \<Rightarrow> i64) \<Rightarrow> 'f scope_map \<Rightarrow> bool" where
  "scope_map_laws feq bits trunc M \<longleftrightarrow> (\<forall>keys k. case sm_find M keys k of
      Some i \<Rightarrow> i < length keys \<and> scope_eq feq k (keys ! i)
    | None \<Rightarrow> \<forall>key \<in> set keys. \<not> same_key feq bits trunc k key) \<and>
     (\<forall>groups. mset (sm_values M groups) = mset (map snd groups))"

lemma scope_map_found:
  assumes "scope_map_laws feq bits trunc M"
  shows "sm_find M keys k = Some i \<Longrightarrow> i < length keys \<and> scope_eq feq k (keys ! i)"
    and "sm_find M keys k = None \<Longrightarrow> key \<in> set keys \<Longrightarrow> \<not> same_key feq bits trunc k key"
  using assms unfolding scope_map_laws_def by (metis (mono_tags, lifting) option.simps(5), metis (mono_tags, lifting) option.simps(4))

text \<open>A scope without a float is equal to itself only, and then its hash is the same.\<close>

fun float_free :: "'f wasi_value \<Rightarrow> bool" where
  "float_free (WF64 v) \<longleftrightarrow> False"
| "float_free (WF64Array items) \<longleftrightarrow> items = []"
| "float_free v \<longleftrightarrow> True"

definition float_free_scope :: "'f wasi_scope \<Rightarrow> bool" where
  "float_free_scope sc \<longleftrightarrow> (\<forall>kv \<in> set (wsc_attributes sc). float_free (kv_value kv))"

lemma value_eq_float_free: "float_free w \<Longrightarrow> value_eq feq v w \<longleftrightarrow> v = w"
  by (cases v; cases w) auto

lemma kv_eq_float_free: "\<forall>kv \<in> set ys. float_free (kv_value kv) \<Longrightarrow> list_all2 (kv_eq feq) xs ys \<longleftrightarrow> xs = ys"
proof (induction ys arbitrary: xs)
  case Nil
  then show ?case by simp
next
  case (Cons y ys)
  have "kv_eq feq x y \<longleftrightarrow> x = y" for x
    using Cons.prems by (cases x; cases y) (simp add: kv_eq_def value_eq_float_free)
  then show ?case using Cons by (cases xs) auto
qed

lemma scope_eq_float_free: "float_free_scope b \<Longrightarrow> scope_eq feq a b \<longleftrightarrow> a = b"
  by (cases a; cases b) (auto simp: scope_eq_def float_free_scope_def kv_eq_float_free)

text \<open>
  \<open>grouped spans grp groups\<close>: the span at position \<open>i\<close> is in the group \<open>grp i\<close>, each group has its spans
  in their order, and the key of a group is the scope of the first of them.
\<close>

definition grouped ::
  "('f \<Rightarrow> 'f \<Rightarrow> bool) \<Rightarrow> 'f wasi_span list \<Rightarrow> (nat \<Rightarrow> nat) \<Rightarrow> ('f wasi_scope \<times> 'f wasi_span list) list \<Rightarrow> bool" where
  "grouped feq spans grp groups \<longleftrightarrow> (\<forall>i < length spans. grp i < length groups) \<and>
     (\<forall>j < length groups. snd (groups ! j) = nths spans {i. grp i = j} \<and> snd (groups ! j) \<noteq> [] \<and>
        sd_scope (hd (snd (groups ! j))) = fst (groups ! j) \<and>
        (\<forall>sp \<in> set (tl (snd (groups ! j))). scope_eq feq (sd_scope sp) (fst (groups ! j))))"

lemma nths_cong: "(\<And>i. i < length xs \<Longrightarrow> i \<in> A \<longleftrightarrow> i \<in> B) \<Longrightarrow> nths xs A = nths xs B"
  unfolding nths_def by (rule arg_cong [where f = "map fst"], rule filter_cong) (auto dest: set_zip_rightD)

lemma nths_snoc: "nths (xs @ [x]) {i. (grp(length xs := n)) i = j} = nths xs {i. grp i = j} @ (if n = j then [x] else [])"
proof -
  have "nths xs {i. (grp(length xs := n)) i = j} = nths xs {i. grp i = j}" by (rule nths_cong) auto
  then show ?thesis by (auto simp: nths_append nths_singleton)
qed

lemma grouped_push:
  assumes "scope_map_laws feq bits trunc M" and "grouped feq spans grp groups"
  shows "\<exists>grp. grouped feq (spans @ [span]) grp (scope_push M span groups)"
proof (cases "sm_find M (map fst groups) (sd_scope span)")
  case None
  have none: "nths spans {i. grp i = length groups} = []"
    using assms(2) by (auto simp: grouped_def set_nths simp flip: set_empty)
  have "grouped feq (spans @ [span]) (grp(length spans := length groups)) (scope_push M span groups)"
    using assms(2) none unfolding grouped_def nths_snoc by (auto simp: scope_push_def None nth_append less_Suc_eq)
  then show ?thesis by blast
next
  case (Some n)
  have n: "n < length groups" "scope_eq feq (sd_scope span) (fst (groups ! n))"
    using scope_map_found(1) [OF assms(1) Some] by auto
  let ?groups = "groups[n := (fst (groups ! n), snd (groups ! n) @ [span])]"
  have "grouped feq (spans @ [span]) (grp(length spans := n)) ?groups"
    unfolding grouped_def
  proof (intro conjI allI impI)
    show "(grp(length spans := n)) i < length ?groups" if "i < length (spans @ [span])" for i
      using that n assms(2) by (auto simp: grouped_def less_Suc_eq)
    fix j assume j: "j < length ?groups"
    note old = assms(2) [unfolded grouped_def, THEN conjunct2, rule_format, of j]
    show "snd (?groups ! j) = nths (spans @ [span]) {i. (grp(length spans := n)) i = j}"
      "snd (?groups ! j) \<noteq> []" "sd_scope (hd (snd (?groups ! j))) = fst (?groups ! j)"
      using old j n unfolding nths_snoc by (auto simp: nth_list_update)
    show "\<forall>sp \<in> set (tl (snd (?groups ! j))). scope_eq feq (sd_scope sp) (fst (?groups ! j))"
      using old j n by (auto simp: nth_list_update)
  qed
  then show ?thesis by (auto simp: scope_push_def Some)
qed

lemma scope_push_keys:
  assumes "scope_map_laws feq bits trunc M"
    and "sorted_wrt (\<lambda>a b. \<not> same_key feq bits trunc b a) (map fst groups)"
  shows "sorted_wrt (\<lambda>a b. \<not> same_key feq bits trunc b a) (map fst (scope_push M span groups))"
proof (cases "sm_find M (map fst groups) (sd_scope span)")
  case None
  then show ?thesis using assms(2) scope_map_found(2) [OF assms(1) None] by (auto simp: scope_push_def sorted_wrt_append)
next
  case (Some i)
  then have "map fst (scope_push M span groups) = map fst groups"
    using scope_map_found(1) [OF assms(1) Some] by (auto simp: scope_push_def map_update intro: list_update_same_conv [THEN iffD2])
  then show ?thesis using assms(2) by simp
qed

lemma scope_push_mset:
  assumes "scope_map_laws feq bits trunc M"
  shows "mset (concat (map snd (scope_push M span groups))) = add_mset span (mset (concat (map snd groups)))"
proof (cases "sm_find M (map fst groups) (sd_scope span)")
  case (Some i)
  then have i: "i < length groups" using scope_map_found(1) [OF assms Some] by simp
  note whole = arg_cong [OF id_take_nth_drop [OF i], of "\<lambda>groups. mset (concat (map snd groups))"]
  show ?thesis unfolding scope_push_def Some whole using i by (simp add: upd_conv_take_nth_drop)
qed (simp add: scope_push_def)

lemma group_spans_snoc: "group_spans M (spans @ [span]) = scope_push M span (group_spans M spans)"
  by (simp add: group_spans_def)

lemma group_spans_spec:
  assumes "scope_map_laws feq bits trunc M"
  shows "\<exists>grp. grouped feq spans grp (group_spans M spans)"
    and "sorted_wrt (\<lambda>a b. \<not> same_key feq bits trunc b a) (map fst (group_spans M spans))"
    and "mset (concat (map snd (group_spans M spans))) = mset spans"
proof (induction spans rule: rev_induct)
  case Nil
  show "\<exists>grp. grouped feq [] grp (group_spans M [])" by (simp add: group_spans_def grouped_def)
  show "sorted_wrt (\<lambda>a b. \<not> same_key feq bits trunc b a) (map fst (group_spans M []))" by (simp add: group_spans_def)
  show "mset (concat (map snd (group_spans M []))) = mset []" by (simp add: group_spans_def)
next
  case (snoc span spans)
  show "\<exists>grp. grouped feq (spans @ [span]) grp (group_spans M (spans @ [span]))"
    using snoc(1) grouped_push [OF assms] unfolding group_spans_snoc by blast
  show "sorted_wrt (\<lambda>a b. \<not> same_key feq bits trunc b a) (map fst (group_spans M (spans @ [span])))"
    unfolding group_spans_snoc by (rule scope_push_keys [OF assms snoc(2)])
  show "mset (concat (map snd (group_spans M (spans @ [span])))) = mset (spans @ [span])"
    unfolding group_spans_snoc by (simp add: scope_push_mset [OF assms] snoc(3))
qed

lemma grouped_float_free:
  assumes "grouped feq spans grp groups" and "sorted_wrt (\<lambda>a b. \<not> same_key feq bits trunc b a) (map fst groups)"
    and "\<forall>sp \<in> set spans. float_free_scope (sd_scope sp)"
  shows "distinct (map fst groups)" and "\<forall>g \<in> set groups. snd g = filter (\<lambda>sp. sd_scope sp = fst g) spans"
proof -
  note grp = assms(1) [unfolded grouped_def, THEN conjunct1, rule_format]
  note group = assms(1) [unfolded grouped_def, THEN conjunct2, rule_format]
  have scope: "float_free_scope (fst (groups ! j)) \<and> (\<forall>sp \<in> set (snd (groups ! j)). sd_scope sp = fst (groups ! j))"
    if j: "j < length groups" for j
  proof -
    obtain sp sps where g: "snd (groups ! j) = sp # sps" using group [OF j] by (metis list.exhaust)
    have sub: "set (snd (groups ! j)) \<subseteq> set spans" using group [OF j] by (metis notin_set_nthsI subsetI)
    have key: "sd_scope sp = fst (groups ! j)" using group [OF j] g by simp
    have free: "float_free_scope (fst (groups ! j))" using sub assms(3) g unfolding key [symmetric] by auto
    moreover have "\<forall>x \<in> set sps. sd_scope x = fst (groups ! j)"
      using group [OF j] g scope_eq_float_free [OF free] by simp
    ultimately show ?thesis using key g by simp
  qed
  show keys: "distinct (map fst groups)"
  proof (rule ccontr)
    assume "\<not> distinct (map fst groups)"
    then obtain i j where ij: "i < j" "j < length groups" "fst (groups ! i) = fst (groups ! j)"
      by (auto simp: distinct_conv_nth) (metis linorder_neqE_nat)
    then have "\<not> same_key feq bits trunc (fst (groups ! j)) (fst (groups ! i))"
      using sorted_wrt_nth_less [OF assms(2), of i j] by simp
    then show False using ij(2) scope [of j] by (simp add: ij(3) same_key_def scope_eq_float_free)
  qed
  show "\<forall>g \<in> set groups. snd g = filter (\<lambda>sp. sd_scope sp = fst g) spans"
  proof
    fix g assume "g \<in> set groups"
    then obtain j where j: "j < length groups" "g = groups ! j" by (auto simp: in_set_conv_nth)
    have "grp i = j \<longleftrightarrow> sd_scope (spans ! i) = fst (groups ! j)" if i: "i < length spans" for i
    proof -
      have "spans ! i \<in> set (nths spans {k. grp k = grp i})" using i by (auto simp: set_nths)
      then have "sd_scope (spans ! i) = fst (groups ! grp i)"
        using group [OF grp [OF i]] scope [OF grp [OF i]] by simp
      then show ?thesis using keys j(1) grp [OF i] by (auto simp: distinct_conv_nth)
    qed
    then have "nths spans {i. grp i = j} = filter (\<lambda>sp. sd_scope sp = fst (groups ! j)) spans"
      unfolding filter_eq_nths by (intro nths_cong) auto
    then show "snd g = filter (\<lambda>sp. sd_scope sp = fst g) spans" using group [OF j(1)] j(2) by simp
  qed
qed

lemma resource_spans_groups:
  fixes X :: "'f otel_env" and resource :: "'f otel_resource"
  assumes "scope_map_laws feq bits trunc M"
  defines "entry \<equiv> (\<lambda>(scope, sps). \<lparr>scs_scope = Some (scope_to_proto scope),
      scs_schema_url = unwrap_or_default [] (or_schema_url resource), scs_spans = map (span_to_proto X) sps\<rparr>)"
  shows "mset (rsp_scope_spans (hd (resource_spans_of X M resource spans))) = mset (map entry (group_spans M spans))"
    and "mset (concat (map scs_spans (rsp_scope_spans (hd (resource_spans_of X M resource spans))))) =
      mset (map (span_to_proto X) spans)"
proof -
  let ?groups = "group_spans M spans"
  let ?entry = "\<lambda>sps. \<lparr>scs_scope = Some (scope_to_proto (sd_scope (sps ! 0))),
      scs_schema_url = unwrap_or_default [] (or_schema_url resource), scs_spans = map (span_to_proto X) sps\<rparr>"
  obtain grp where grp: "grouped feq spans grp ?groups" using group_spans_spec(1) [OF assms(1)] by blast
  have first: "?entry (snd g) = entry g" if "g \<in> set ?groups" for g
  proof -
    from that obtain j where "j < length ?groups" "g = ?groups ! j" by (auto simp: in_set_conv_nth)
    then have "snd g \<noteq> []" "sd_scope (hd (snd g)) = fst g" using grp by (auto simp: grouped_def)
    then show ?thesis by (simp add: entry_def split_def hd_conv_nth)
  qed
  have vals: "mset (sm_values M ?groups) = mset (map snd ?groups)"
    using assms(1) unfolding scope_map_laws_def by blast
  have "mset (rsp_scope_spans (hd (resource_spans_of X M resource spans))) = mset (map ?entry (sm_values M ?groups))"
    by (simp add: resource_spans_of_def)
  also have "\<dots> = mset (map ?entry (map snd ?groups))" unfolding mset_map vals ..
  also have "map ?entry (map snd ?groups) = map entry ?groups" using first by simp
  finally show all: "mset (rsp_scope_spans (hd (resource_spans_of X M resource spans))) = mset (map entry ?groups)" .
  have "mset (concat (map scs_spans (rsp_scope_spans (hd (resource_spans_of X M resource spans))))) =
      mset (concat (map scs_spans (map entry ?groups)))"
    using arg_cong [OF all, of "\<lambda>m. sum_mset (image_mset (mset \<circ> scs_spans) m)"]
    by (simp add: mset_concat sum_mset_sum_list comp_assoc flip: mset_map)
  also have "concat (map scs_spans (map entry ?groups)) = map (span_to_proto X) (concat (map snd ?groups))"
    by (simp add: map_concat comp_def entry_def split_def)
  finally show "mset (concat (map scs_spans (rsp_scope_spans (hd (resource_spans_of X M resource spans))))) =
      mset (map (span_to_proto X) spans)" by (simp add: group_spans_spec(3) [OF assms(1)])
qed

section \<open>Properties\<close>

text \<open>
  C37: Exporting spans.  Without an OpenTelemetry resource nothing is sent.  Otherwise one request
  carries every span exactly once; the spans of a group keep their order, the group bears the scope
  of its first span, to which the scopes of the others are equal, and no later group has an equal
  scope with the same hash.  When no scope has a float among its attributes, that is one group per
  distinct scope, with exactly the spans of that scope.  Every span has the trace and, as its parent,
  the current span of the host, so the parent links among the spans of the guest are gone; and its
  kind is the position in the interface's enum: 0 for a client span, 1 for a server span, up to 4
  for an internal one.
\<close>

theorem trace_export_spec:
  assumes "scope_map_laws feq bits trunc M"
  shows "trace_export X I M None parent send spans s = (Inr (), s) \<and>
    (let owned = map (set_parent I parent) spans;
         request = resource_spans_of X M resource owned;
         sent = concat (map scs_spans (rsp_scope_spans (hd request)));
         groups = group_spans M owned
     in trace_export X I M (Some resource) parent send spans s =
          op_map_err otel_error_from_anyhow (send request) s \<and>
        length request = 1 \<and> mset sent = mset (map (span_to_proto X) owned) \<and>
        mset (rsp_scope_spans (hd request)) = mset (map (\<lambda>(scope, sps). \<lparr>scs_scope = Some (scope_to_proto scope),
           scs_schema_url = unwrap_or_default [] (or_schema_url resource),
           scs_spans = map (span_to_proto X) sps\<rparr>) groups) \<and>
        (\<exists>grp. grouped feq owned grp groups) \<and>
        sorted_wrt (\<lambda>a b. \<not> same_key feq bits trunc b a) (map fst groups) \<and>
        ((\<forall>sp \<in> set spans. float_free_scope (sd_scope sp)) \<longrightarrow> distinct (map fst groups) \<and>
          (\<forall>g \<in> set groups. snd g = filter (\<lambda>sp. sd_scope sp = fst g) owned)) \<and>
        (\<forall>sp \<in> set spans. span_to_proto X (set_parent I parent sp) = (span_to_proto X sp)
           \<lparr>sp_trace_id := hex_or_empty X (it_trace_string I (sx_trace_id parent)),
            sp_parent_span_id := hex_or_empty X (it_span_string I (sx_span_id parent)),
            sp_kind := (case sd_kind sp of Client \<Rightarrow> 0 | Server \<Rightarrow> 1 | Producer \<Rightarrow> 2
              | Consumer \<Rightarrow> 3 | Internal \<Rightarrow> 4)\<rparr>))"
proof -
  let ?owned = "map (set_parent I parent) spans"
  let ?groups = "group_spans M ?owned"
  note spec = group_spans_spec [OF assms, of ?owned]
  obtain grp where grp: "grouped feq ?owned grp ?groups" using spec(1) by blast
  have "distinct (map fst ?groups) \<and> (\<forall>g \<in> set ?groups. snd g = filter (\<lambda>sp. sd_scope sp = fst g) ?owned)"
    if "\<forall>sp \<in> set spans. float_free_scope (sd_scope sp)"
    using grouped_float_free [OF grp spec(2)] that by (simp add: set_parent_def)
  moreover have "span_to_proto X (set_parent I parent sp) = (span_to_proto X sp)
      \<lparr>sp_trace_id := hex_or_empty X (it_trace_string I (sx_trace_id parent)),
       sp_parent_span_id := hex_or_empty X (it_span_string I (sx_span_id parent)),
       sp_kind := (case sd_kind sp of Client \<Rightarrow> 0 | Server \<Rightarrow> 1 | Producer \<Rightarrow> 2
         | Consumer \<Rightarrow> 3 | Internal \<Rightarrow> 4)\<rparr>" for sp
    by (cases "sd_kind sp") (simp_all add: span_to_proto_def set_parent_def)
  moreover have "length (resource_spans_of X M resource ?owned) = 1" by (simp add: resource_spans_of_def)
  moreover have "trace_export X I M None parent send spans s = (Inr (), s)"
    and "trace_export X I M (Some resource) parent send spans s =
      op_map_err otel_error_from_anyhow (send (resource_spans_of X M resource ?owned)) s"
    by (simp_all add: trace_export_def Let_def)
  ultimately show ?thesis
    unfolding Let_def using resource_spans_groups [OF assms, of X resource ?owned] spec(1,2) by blast
qed

definition demo_ids :: id_text where
  "demo_ids = \<lparr>it_trace_hex = nat_str, it_span_hex = nat_str, it_trace_string = nat_str, it_span_string = nat_str\<rparr>"

definition demo_parent :: sdk_span_context where
  "demo_parent = \<lparr>sx_trace_id = 7, sx_span_id = 8, sx_sampled = True, sx_is_remote = False, sx_trace_state = []\<rparr>"

definition demo_span :: "string \<Rightarrow> string \<Rightarrow> 'f wasi_span" where
  "demo_span scope name = \<lparr>sd_context = \<lparr>wc_trace_id = ''1'', wc_span_id = ''2'', wc_sampled = True,
       wc_is_remote = False, wc_trace_state = []\<rparr>, sd_parent = ''3'', sd_kind = Server, sd_name = name,
     sd_start = \<lparr>dt_seconds = 1, dt_nanoseconds = 0\<rparr>, sd_end = \<lparr>dt_seconds = 2, dt_nanoseconds = 0\<rparr>,
     sd_attributes = [], sd_events = [], sd_links = [], sd_status = WUnset,
     sd_scope = \<lparr>wsc_name = scope, wsc_version = None, wsc_schema_url = None, wsc_attributes = []\<rparr>,
     sd_dropped_attributes = 0, sd_dropped_events = 0, sd_dropped_links = 0\<rparr>"

text \<open>
  Floats here are a zero, a negative zero that equals it, and a NaN; the map finds by \<open>==\<close> and hash.
\<close>

datatype demo_float = Zero | NegZero | NotANumber

definition demo_hex_env :: "demo_float otel_env" where
  "demo_hex_env = \<lparr>oe_hex = (\<lambda>s. Some (map (\<lambda>c. of_nat (of_char c)) s)), oe_of_u64 = (\<lambda>_. Zero), oe_of_i64 = (\<lambda>_. Zero)\<rparr>"

definition demo_feq :: "demo_float \<Rightarrow> demo_float \<Rightarrow> bool" where
  "demo_feq a b \<longleftrightarrow> a \<noteq> NotANumber \<and> b \<noteq> NotANumber"

definition demo_bits :: "demo_float \<Rightarrow> u64" where
  "demo_bits a = (case a of Zero \<Rightarrow> 0 | NegZero \<Rightarrow> 0x8000000000000000 | NotANumber \<Rightarrow> 0x7FF8000000000000)"

definition demo_scope_map :: "demo_float scope_map" where
  "demo_scope_map = \<lparr>sm_find = (\<lambda>keys k. map_option fst (find (\<lambda>(i, key). same_key demo_feq demo_bits (\<lambda>_. 0) k key) (enumerate 0 keys))),
     sm_values = (\<lambda>groups. rev (map snd groups))\<rparr>"

lemma demo_scope_map_laws: "scope_map_laws demo_feq demo_bits (\<lambda>_. 0) demo_scope_map"
proof -
  have "case sm_find demo_scope_map keys k of Some i \<Rightarrow> i < length keys \<and> scope_eq demo_feq k (keys ! i)
      | None \<Rightarrow> \<forall>key \<in> set keys. \<not> same_key demo_feq demo_bits (\<lambda>_. 0) k key" for keys k
  proof (cases "sm_find demo_scope_map keys k")
    case None
    then have "\<forall>p \<in> set (enumerate 0 keys). \<not> same_key demo_feq demo_bits (\<lambda>_. 0) k (snd p)"
      by (auto simp: demo_scope_map_def find_None_iff)
    moreover have "set keys = snd ` set (enumerate 0 keys)"
      by (simp only: set_map [symmetric] map_snd_enumerate)
    ultimately have "\<forall>key \<in> set keys. \<not> same_key demo_feq demo_bits (\<lambda>_. 0) k key" by simp
    with None show ?thesis by simp
  next
    case (Some i)
    then have "i < length keys \<and> scope_eq demo_feq k (keys ! i)"
      by (auto simp: demo_scope_map_def find_Some_iff nth_enumerate_eq same_key_def)
    with Some show ?thesis by simp
  qed
  then show ?thesis by (simp add: scope_map_laws_def demo_scope_map_def)
qed

theorem trace_export_spec_witness:
  "let groups = group_spans demo_scope_map
        (map (set_parent demo_ids demo_parent) [demo_span ''a'' ''x'', demo_span ''b'' ''y'', demo_span ''a'' ''z''])
   in distinct (map fst groups) \<and> (\<forall>g \<in> set groups. \<forall>sp \<in> set (snd g). sd_scope sp = fst g) \<and>
      mset (map sp_name (concat (map scs_spans (rsp_scope_spans (hd (resource_spans_of demo_hex_env demo_scope_map
        \<lparr>or_attributes = [], or_schema_url = None\<rparr>
        (map (set_parent demo_ids demo_parent) [demo_span ''a'' ''x'', demo_span ''b'' ''y'', demo_span ''a'' ''z'']))))))) =
      {#''x'', ''y'', ''z''#}"
proof -
  let ?spans = "[demo_span ''a'' ''x'', demo_span ''b'' ''y'', demo_span ''a'' ''z'']"
  let ?owned = "map (set_parent demo_ids demo_parent) ?spans"
  let ?request = "resource_spans_of demo_hex_env demo_scope_map \<lparr>or_attributes = [], or_schema_url = None\<rparr> ?owned"
  note spec = trace_export_spec [OF demo_scope_map_laws, where X = demo_hex_env and I = demo_ids and parent = demo_parent and
      send = default_export_traces and spans = ?spans and s = "[]" and resource = "\<lparr>or_attributes = [], or_schema_url = None\<rparr>",
      unfolded Let_def]
  have "\<forall>sp \<in> set ?spans. float_free_scope (sd_scope sp)" by (simp add: demo_span_def float_free_scope_def)
  then have groups: "distinct (map fst (group_spans demo_scope_map ?owned))"
      "\<forall>g \<in> set (group_spans demo_scope_map ?owned). snd g = filter (\<lambda>sp. sd_scope sp = fst g) ?owned"
    using spec by blast+
  have "mset (concat (map scs_spans (rsp_scope_spans (hd ?request)))) = mset (map (span_to_proto demo_hex_env) ?owned)"
    using spec by blast
  then have "mset (map sp_name (concat (map scs_spans (rsp_scope_spans (hd ?request))))) =
      mset (map sp_name (map (span_to_proto demo_hex_env) ?owned))"
    by (simp only: mset_map)
  also have "\<dots> = {#''x'', ''y'', ''z''#}"
    by (simp add: span_to_proto_def set_parent_def demo_span_def)
  finally have "mset (map sp_name (concat (map scs_spans (rsp_scope_spans (hd ?request))))) = {#''x'', ''y'', ''z''#}" .
  moreover have "\<forall>g \<in> set (group_spans demo_scope_map ?owned). \<forall>sp \<in> set (snd g). sd_scope sp = fst g"
    using groups(2) by (simp del: list.map set_simps)
  ultimately show ?thesis unfolding Let_def using groups(1) by blast
qed

end
