(* ===== verification/OtelGuestInit.thy ===== *)
theory OtelGuestInit
  imports Telemetry OtelMetrics RuntimeMacro
begin

text \<open>
  wasi-otel: how a guest starts and ends its telemetry.  The host answers with its own resource
  (\<open>src/host/resource_impl.rs\<close>), the guest sets its providers up once and exports when the guard is
  dropped (\<open>src/guest/init.rs\<close>), and the attribute of wasi-otel-attr (\<open>src/lib.rs\<close>) wraps a function
  into both.

  The SDK in the guest is the record \<open>guest_sdk\<close>; its providers shut down against a state \<open>'s\<close>
  that stands for everything outside the two cells, the spans and measurements included.
\<close>

section \<open>The resource\<close>

definition host_resource :: "('f, 'm, 't, 'x) host_sdk \<Rightarrow> ('f, 'm, 't) process \<Rightarrow> 'f wasi_resource" where
  "host_resource S p = (case pr_resource p of
      None \<Rightarrow> resource_from_otel (hs_resource S [] None)
    | Some resource \<Rightarrow> resource_from_otel resource)"

definition resource_to_sdk ::
  "((string \<times> 'f otel_value) list \<Rightarrow> string option \<Rightarrow> 'f otel_resource) \<Rightarrow> 'f wasi_resource \<Rightarrow> 'f otel_resource" where
  "resource_to_sdk build value = (let attrs = map kv_to_otel (wr_attributes value) in
     case wr_schema_url value of Some schema_url \<Rightarrow> build attrs (Some schema_url) | None \<Rightarrow> build attrs None)"

section \<open>Starting and ending\<close>

text \<open>The features the crate is built with.\<close>

record features =
  ft_tracing :: bool
  ft_metrics :: bool

record ('t, 'm, 's) guest_otel =
  gt_tracing :: "'t option"
  gt_metrics :: "'m option"
  gt_subscriber :: bool
  gt_world :: 's

record ('f, 't, 'm, 's) guest_sdk =
  gk_build :: "(string \<times> 'f otel_value) list \<Rightarrow> string option \<Rightarrow> 'f otel_resource"
  gk_tracer :: "'f otel_resource \<Rightarrow> 't"
  gk_meter :: "'f otel_resource \<Rightarrow> 'm"
  gk_shutdown_tracer :: "'t \<Rightarrow> ('s, otel_sdk_error, unit) op"
  gk_shutdown_meter :: "'m \<Rightarrow> ('s, otel_sdk_error, unit) op"

datatype exit_guard = ExitGuard

definition set_tracing :: "'t \<Rightarrow> (('t, 'm, 's) guest_otel, anyhow, unit) op" where
  "set_tracing t g = (case gt_tracing g of None \<Rightarrow> (Inr (), g\<lparr>gt_tracing := Some t\<rparr>)
     | Some _ \<Rightarrow> (Inl (Anyhow ''failed to set tracing provider''), g))"

definition set_metrics :: "'m \<Rightarrow> (('t, 'm, 's) guest_otel, anyhow, unit) op" where
  "set_metrics m g = (case gt_metrics g of None \<Rightarrow> (Inr (), g\<lparr>gt_metrics := Some m\<rparr>)
     | Some _ \<Rightarrow> (Inl (Anyhow ''failed to set metrics provider''), g))"

definition init_subscriber :: "(('t, 'm, 's) guest_otel, anyhow, unit) op" where
  "init_subscriber g = (if gt_subscriber g then (Inl (Foreign ''TryInitError''), g)
     else (Inr (), g\<lparr>gt_subscriber := True\<rparr>))"

definition guest_init ::
  "features \<Rightarrow> ('f, 't, 'm, 's) guest_sdk \<Rightarrow> 'f wasi_resource \<Rightarrow> (('t, 'm, 's) guest_otel, anyhow, exit_guard option) op" where
  "guest_init F K host_answer g =
     (if ft_tracing F \<and> gt_tracing g \<noteq> None then (Inr None, g)
      else if ft_metrics F \<and> gt_metrics g \<noteq> None then (Inr None, g)
      else (let resource = resource_to_sdk (gk_build K) host_answer in
        op_bind (if ft_tracing F then set_tracing (gk_tracer K resource) else op_return ()) (\<lambda>_.
        op_bind (if ft_metrics F then set_metrics (gk_meter K resource) else op_return ()) (\<lambda>_.
        op_bind (op_map_err (Context ''issue initializing subscriber'') init_subscriber) (\<lambda>_.
        op_return (Some ExitGuard)))) g))"

text \<open>The results of the two shutdowns only decide about a line in the log.\<close>

definition exit_guard_drop :: "features \<Rightarrow> ('f, 't, 'm, 's) guest_sdk \<Rightarrow> ('t, 'm, 's) guest_otel \<Rightarrow> ('t, 'm, 's) guest_otel" where
  "exit_guard_drop F K g =
     (let g1 = (if ft_tracing F then (case gt_tracing g of None \<Rightarrow> g
            | Some tracer_provider \<Rightarrow> g\<lparr>gt_world := snd (gk_shutdown_tracer K tracer_provider (gt_world g))\<rparr>) else g)
      in if ft_metrics F then (case gt_metrics g1 of None \<Rightarrow> g1
            | Some meter_provider \<Rightarrow> g1\<lparr>gt_world := snd (gk_shutdown_meter K meter_provider (gt_world g1))\<rparr>) else g1)"

section \<open>The attribute\<close>

text \<open>
  An argument of the attribute is a path and a value, which the macro asks \<open>syn\<close> to read as a
  string literal or as an expression.
\<close>

record nested_meta =
  nm_path :: rust_path
  nm_lit :: "anyhow + string"
  nm_expr :: "anyhow + string"

record instrument_attrs =
  ia_name :: "string option"
  ia_level :: "string option"

definition attributes_parse :: "nested_meta \<Rightarrow> instrument_attrs \<Rightarrow> anyhow + instrument_attrs" where
  "attributes_parse meta attrs =
     (if get_ident (nm_path meta) = Some ''name'' then
        res_bind (nm_lit meta) (\<lambda>lit. Inr (attrs\<lparr>ia_name := Some lit\<rparr>))
      else if get_ident (nm_path meta) = Some ''level'' then
        res_bind (nm_expr meta) (\<lambda>expr. Inr (attrs\<lparr>ia_level := Some expr\<rparr>))
      else Inl (Anyhow ''unsupported property''))"

fun attributes_all :: "nested_meta list \<Rightarrow> instrument_attrs \<Rightarrow> anyhow + instrument_attrs" where
  "attributes_all [] attrs = Inr attrs"
| "attributes_all (meta # metas) attrs = res_bind (attributes_parse meta attrs) (attributes_all metas)"

text \<open>A function item: its visibility and attributes, its signature and its block.\<close>

record ('v, 'g, 'b) item_fn =
  fi_outer :: 'v
  fi_ident :: string
  fi_async :: bool
  fi_signature :: 'g
  fi_block :: 'b

datatype 'b span_body =
    InstrumentAsync string string 'b    \<comment> \<open>level, name; the block in \<open>async move\<close>, awaited\<close>
  | InScope string string 'b

definition span_body_of :: "instrument_attrs \<Rightarrow> ('v, 'g, 'b) item_fn \<Rightarrow> 'b span_body" where
  "span_body_of attrs item =
     (let span_name = unwrap_or (fi_ident item) (ia_name attrs);
          level = unwrap_or ''::tracing::Level::INFO'' (ia_level attrs)
      in if fi_async item then InstrumentAsync level span_name (fi_block item)
         else InScope level span_name (fi_block item))"

text \<open>The new function: the signature, a guard from \<open>init\<close> and the body.  Nothing else is kept.\<close>

record ('g, 'b) new_fn =
  nf_signature :: 'g
  nf_guarded :: bool
  nf_body :: "'b span_body"

definition instrument_fn :: "nested_meta list \<Rightarrow> ('v, 'g, 'b) item_fn \<Rightarrow> anyhow + ('g, 'b) new_fn" where
  "instrument_fn args item = res_bind (attributes_all args \<lparr>ia_name = None, ia_level = None\<rparr>)
     (\<lambda>attrs. Inr \<lparr>nf_signature = fi_signature item, nf_guarded = True, nf_body = span_body_of attrs item\<rparr>)"

text \<open>
  Running such functions: \<open>let _guard = init();\<close>, the body, which works and calls further ones,
  and the drop of the guard.
\<close>

datatype 's call = Call "'s \<Rightarrow> 's" "'s call list"

definition guard_drop ::
  "features \<Rightarrow> ('f, 't, 'm, 's) guest_sdk \<Rightarrow> anyhow + exit_guard option \<Rightarrow> ('t, 'm, 's) guest_otel \<Rightarrow> ('t, 'm, 's) guest_otel" where
  "guard_drop F K guard g = (case guard of Inr (Some ExitGuard) \<Rightarrow> exit_guard_drop F K g | _ \<Rightarrow> g)"

fun run_call ::
    "features \<Rightarrow> ('f, 't, 'm, 's) guest_sdk \<Rightarrow> 'f wasi_resource \<Rightarrow> 's call \<Rightarrow> ('t, 'm, 's) guest_otel \<Rightarrow> ('t, 'm, 's) guest_otel"
  and run_calls ::
    "features \<Rightarrow> ('f, 't, 'm, 's) guest_sdk \<Rightarrow> 'f wasi_resource \<Rightarrow> 's call list \<Rightarrow> ('t, 'm, 's) guest_otel \<Rightarrow> ('t, 'm, 's) guest_otel"
where
  "run_call F K res (Call work inner) g = (case guest_init F K res g of (guard, g1) \<Rightarrow>
     guard_drop F K guard (run_calls F K res inner (g1\<lparr>gt_world := work (gt_world g1)\<rparr>)))"
| "run_calls F K res [] g = g"
| "run_calls F K res (c # cs) g = run_calls F K res cs (run_call F K res c g)"

fun call_work :: "'s call \<Rightarrow> 's \<Rightarrow> 's" and calls_work :: "'s call list \<Rightarrow> 's \<Rightarrow> 's" where
  "call_work (Call work inner) w = calls_work inner (work w)"
| "calls_work [] w = w"
| "calls_work (c # cs) w = calls_work cs (call_work c w)"

section \<open>Lemmas\<close>

lemma map_of_rev_distinct: "distinct (map fst kvs) \<Longrightarrow> map_of (rev kvs) = map_of kvs"
  by (simp add: map_of_inject_set rev_map [symmetric])

lemma resource_crosses:
  assumes "resource_laws build" and "distinct (map fst (or_attributes r))"
  shows "map_of (or_attributes r) \<subseteq>\<^sub>m map_of (or_attributes (resource_to_sdk build (resource_from_otel r)))"
    and "or_schema_url (resource_to_sdk build (resource_from_otel r)) = or_schema_url r"
proof -
  have sdk: "resource_to_sdk build (resource_from_otel r) = build (or_attributes r) (or_schema_url r)"
    by (simp add: resource_to_sdk_def resource_from_otel_def comp_def Let_def split: option.split)
  from assms(1) have "map_of (or_attributes (build (or_attributes r) (or_schema_url r))) =
      map_of (or_attributes (build [] None)) ++ map_of (or_attributes r)"
    unfolding resource_laws_def map_of_rev_distinct [OF assms(2), symmetric] by blast
  then show "map_of (or_attributes r) \<subseteq>\<^sub>m map_of (or_attributes (resource_to_sdk build (resource_from_otel r)))"
    by (simp add: sdk)
  show "or_schema_url (resource_to_sdk build (resource_from_otel r)) = or_schema_url r"
    using assms(1) by (simp add: sdk resource_laws_def)
qed

definition initialised :: "features \<Rightarrow> ('t, 'm, 's) guest_otel \<Rightarrow> bool" where
  "initialised F g \<longleftrightarrow> (ft_tracing F \<and> gt_tracing g \<noteq> None) \<or> (ft_metrics F \<and> gt_metrics g \<noteq> None)"

lemma initialised_world [simp]: "initialised F (g\<lparr>gt_world := w\<rparr>) = initialised F g"
  by (simp add: initialised_def)

lemma guest_init_again: "initialised F g \<Longrightarrow> guest_init F K res g = (Inr None, g)"
  by (auto simp: initialised_def guest_init_def)

text \<open>Within an initialised guest the attribute adds nothing to the work.\<close>

lemma run_initialised:
  "initialised F g \<Longrightarrow> run_call F K res c g = g\<lparr>gt_world := call_work c (gt_world g)\<rparr>"
  "initialised F g \<Longrightarrow> run_calls F K res cs g = g\<lparr>gt_world := calls_work cs (gt_world g)\<rparr>"
  by (induction F K res c g and F K res cs g rule: run_call_run_calls.induct)
    (simp_all add: guest_init_again guard_drop_def)

definition exported ::
  "features \<Rightarrow> ('f, 't, 'm, 's) guest_sdk \<Rightarrow> 'f otel_resource \<Rightarrow> 's \<Rightarrow> 's" where
  "exported F K r w = (let w1 = (if ft_tracing F then snd (gk_shutdown_tracer K (gk_tracer K r) w) else w)
     in if ft_metrics F then snd (gk_shutdown_meter K (gk_meter K r) w1) else w1)"

section \<open>Properties\<close>

text \<open>
  C38: The resource reaches the guest.  Whatever becomes of the host's first build, the resource
  a guest sets up its providers with has every attribute of the host's, among them the
  application's name and namespace, the environment and the instance (\<open>unknown\<close> when not given)
  and the version, and the same schema; the guest's own defaults only fill in other keys.
\<close>

theorem resource_reaches_guest:
  assumes "resource_laws (hs_resource S)" and "resource_laws build" and "pr_resource p = None"
    and "telemetry_build S otel p = (r, p')"
  shows "map_of (or_attributes (telemetry_resource S (pr_env p) otel)) \<subseteq>\<^sub>m
      map_of (or_attributes (resource_to_sdk build (host_resource S p'))) \<and>
    or_schema_url (resource_to_sdk build (host_resource S p')) = None \<and>
    map (map_of (or_attributes (resource_to_sdk build (host_resource S p'))))
      [''service.name'', ''service.namespace'', ''deployment.environment'', ''service.instance.id'', ''service.version''] =
    [Some (OString (tl_app_name otel)), Some (OString (tl_app_name otel)),
     Some (OString (unwrap_or ''unknown'' (tl_env_name otel))),
     Some (OString (unwrap_or ''unknown'' (hm_get (pr_env p) ''HOSTNAME''))), Some (OString (hs_version S))]"
proof -
  let ?r = "telemetry_resource S (pr_env p) otel"
  have host: "host_resource S p' = resource_from_otel ?r"
    using telemetry_build_first(1) [OF assms(3,4)] by (simp add: host_resource_def)
  have "distinct (map fst (or_attributes ?r))" and url: "or_schema_url ?r = None"
    using assms(1) by (simp_all add: resource_laws_def telemetry_resource_def)
  note crosses = resource_crosses [OF assms(2) this(1)]
  have "map_of (or_attributes (resource_to_sdk build (host_resource S p'))) k = Some v"
    if "map_of (rev (telemetry_attributes (hs_version S) (pr_env p) otel)) k = Some v" for k v
    using crosses(1) telemetry_attribute [OF assms(1) that] by (auto simp: host map_le_def dom_def)
  then show ?thesis using crosses url
    by (simp add: host telemetry_attributes_def)
qed

theorem resource_reaches_guest_witness:
  "\<exists>p'. map_of (or_attributes (resource_to_sdk demo_build (host_resource demo_sdk p'))) ''service.instance.id'' =
    Some (OString ''h'') \<and> pr_resource p' \<noteq> None"
proof -
  obtain r p' where b: "telemetry_build demo_sdk (telemetry_new ''a'') demo_process = (r, p')"
    by (rule prod.exhaust)
  have fresh: "pr_resource demo_process = None" by (simp add: demo_process_def)
  have "resource_laws (hs_resource demo_sdk)" by (simp add: demo_sdk_def demo_build_laws)
  from resource_reaches_guest [OF this demo_build_laws fresh b] telemetry_build_first(1) [OF fresh b]
  show ?thesis by (intro exI [of _ p']) (simp add: demo_process_def unwrap_or_def)
qed

text \<open>
  C21: One export per guest.  In a fresh guest with one of the two features, however the instrumented functions nest, the
  providers are shut down at most once, when the first outermost call ends: what later calls
  record comes after it.  When the subscriber cannot be installed, nothing is ever shut down,
  and no later call tries again.
\<close>

theorem guest_exports_once:
  assumes "ft_tracing F \<or> ft_metrics F"
    and "gt_tracing g = None" and "gt_metrics g = None"
  shows "gt_world (run_calls F K res (c # cs) g) = calls_work cs
    (if gt_subscriber g then call_work c (gt_world g)
     else exported F K (resource_to_sdk (gk_build K) res) (call_work c (gt_world g)))"
proof -
  obtain work inner where c: "c = Call work inner" by (cases c)
  obtain guard g1 where i: "guest_init F K res g = (guard, g1)" by (rule prod.exhaust)
  let ?r = "resource_to_sdk (gk_build K) res"
  have g1: "gt_tracing g1 = (if ft_tracing F then Some (gk_tracer K ?r) else None)"
      "gt_metrics g1 = (if ft_metrics F then Some (gk_meter K ?r) else None)" "gt_world g1 = gt_world g"
      "guard = (if gt_subscriber g then Inl (Context ''issue initializing subscriber'' (Foreign ''TryInitError''))
        else Inr (Some ExitGuard))"
    using i assms(2,3)
    by (auto simp: guest_init_def set_tracing_def set_metrics_def init_subscriber_def op_bind_def op_map_err_def Let_def
        split: if_splits)
  then have init: "initialised F g1" using assms(1) by (auto simp: initialised_def)
  let ?g2 = "guard_drop F K guard (g1\<lparr>gt_world := call_work c (gt_world g)\<rparr>)"
  have "run_call F K res c g = ?g2"
    using init g1(3) by (simp add: c i run_initialised(2))
  moreover have "initialised F ?g2"
    using init by (auto simp: guard_drop_def exit_guard_drop_def initialised_def Let_def
        split: sum.split option.split exit_guard.split)
  moreover have "gt_world ?g2 = (if gt_subscriber g then call_work c (gt_world g)
      else exported F K ?r (call_work c (gt_world g)))"
    using g1 by (simp add: guard_drop_def exit_guard_drop_def exported_def Let_def)
  ultimately show ?thesis by (simp add: run_initialised(2))
qed

definition demo_guest_sdk :: "(int, nat, nat, string list) guest_sdk" where
  "demo_guest_sdk = \<lparr>gk_build = demo_build, gk_tracer = (\<lambda>_. 1), gk_meter = (\<lambda>_. 2),
     gk_shutdown_tracer = (\<lambda>_ w. (Inr (), w @ [''spans''])), gk_shutdown_meter = (\<lambda>_ w. (Inr (), w @ [''metrics'']))\<rparr>"

theorem guest_exports_once_witness:
  "gt_world (run_calls \<lparr>ft_tracing = True, ft_metrics = True\<rparr> demo_guest_sdk \<lparr>wr_attributes = [], wr_schema_url = None\<rparr>
      [Call (\<lambda>w. w @ [''a'']) [Call (\<lambda>w. w @ [''b'']) []], Call (\<lambda>w. w @ [''c'']) []]
      \<lparr>gt_tracing = None, gt_metrics = None, gt_subscriber = False, gt_world = []\<rparr>) =
    [''a'', ''b'', ''spans'', ''metrics'', ''c'']"
  by (subst guest_exports_once) (simp_all add: exported_def demo_guest_sdk_def)

end
