(* ===== verification/SharedStore.thy ===== *)
theory SharedStore
  imports KeyValueHost Vault Blobstore Messaging Sql Identity WebSockets
begin

text \<open>
  The store of a guest instance: the \<open>StoreCtx\<close> that \<open>runtime!\<close> generates
  (\<open>runtime-macro/src/expand.rs\<close>) with one resource table for all hosts, and the views that the
  \<open>qwasr_wasi_view!\<close> macros of the \<open>wasi-*/src/host.rs\<close> files give each host: its own backend context
  and the shared table.

  The other theories model each host on a table of its own entries.  Here the table holds the
  entries of every host, as \<open>Box<dyn Any>\<close> does, each host works on the part of its types, and the
  theorems (theories HostSessions and Instances) say that sharing is invisible: handles keep their
  type, and however their calls are mixed, every host behaves as it does alone.
\<close>

section \<open>One table for all entries\<close>

text \<open>\<open>AnyWasi\<close> is a resource of wasmtime's own WASI hosts, such as a stream or an HTTP field.\<close>

datatype ('c, 'f, 'd) any_entry =
    AnyKv "in_mem_bucket kv_entry"
  | AnyVault "in_memory_locker locker_entry"
  | AnyBlob blob_entry
  | AnyMsg msg_entry
  | AnySql "('c, 'f, 'd) sql_entry"
  | AnyIdentity identity_entry
  | AnyWs ws_entry
  | AnyWasi nat

datatype host_kind = KvHost | VaultHost | BlobHost | MsgHost | SqlHost | IdentityHost | WsHost | WasiHost

fun entry_kind :: "('c, 'f, 'd) any_entry \<Rightarrow> host_kind" where
  "entry_kind (AnyKv e) = KvHost"
| "entry_kind (AnyVault e) = VaultHost"
| "entry_kind (AnyBlob e) = BlobHost"
| "entry_kind (AnyMsg e) = MsgHost"
| "entry_kind (AnySql e) = SqlHost"
| "entry_kind (AnyIdentity e) = IdentityHost"
| "entry_kind (AnyWs e) = WsHost"
| "entry_kind (AnyWasi n) = WasiHost"

fun any_kv :: "('c, 'f, 'd) any_entry \<Rightarrow> in_mem_bucket kv_entry option" where
  "any_kv (AnyKv e) = Some e" | "any_kv _ = None"

fun any_vault :: "('c, 'f, 'd) any_entry \<Rightarrow> in_memory_locker locker_entry option" where
  "any_vault (AnyVault e) = Some e" | "any_vault _ = None"

fun any_blob :: "('c, 'f, 'd) any_entry \<Rightarrow> blob_entry option" where
  "any_blob (AnyBlob e) = Some e" | "any_blob _ = None"

fun any_msg :: "('c, 'f, 'd) any_entry \<Rightarrow> msg_entry option" where
  "any_msg (AnyMsg e) = Some e" | "any_msg _ = None"

fun any_sql :: "('c, 'f, 'd) any_entry \<Rightarrow> ('c, 'f, 'd) sql_entry option" where
  "any_sql (AnySql e) = Some e" | "any_sql _ = None"

fun any_identity :: "('c, 'f, 'd) any_entry \<Rightarrow> identity_entry option" where
  "any_identity (AnyIdentity e) = Some e" | "any_identity _ = None"

fun any_ws :: "('c, 'f, 'd) any_entry \<Rightarrow> ws_entry option" where
  "any_ws (AnyWs e) = Some e" | "any_ws _ = None"

text \<open>
  The table as one host sees it: an entry of another host is of the wrong type, which a read says
  and which a delete finds out once the entry is out of the table.
\<close>

definition kind_table ::
  "('e \<Rightarrow> 'any) \<Rightarrow> ('any \<Rightarrow> 'e option) \<Rightarrow> ('t, 'any) table_ops \<Rightarrow> ('t, 'e) table_ops" where
  "kind_table wrap proj T = \<lparr>
     t_push = (\<lambda>e. t_push T (wrap e)),
     t_get = (\<lambda>h t. res_bind (t_get T h t) (\<lambda>a. ok_or WrongType (proj a))),
     t_put = (\<lambda>h e. t_put T h (wrap e)),
     t_delete = (\<lambda>h t. res_bind (t_delete T h t) (\<lambda>(x, t'). Inr (Option.bind x proj, t')))\<rparr>"

abbreviation kv_table where "kv_table \<equiv> kind_table AnyKv any_kv"
abbreviation vault_table where "vault_table \<equiv> kind_table AnyVault any_vault"
abbreviation blobs_table where "blobs_table \<equiv> kind_table AnyBlob any_blob"
abbreviation msgs_table where "msgs_table \<equiv> kind_table AnyMsg any_msg"
abbreviation sql_table where "sql_table \<equiv> kind_table AnySql any_sql"
abbreviation id_table where "id_table \<equiv> kind_table AnyIdentity any_identity"
abbreviation ws_table where "ws_table \<equiv> kind_table AnyWs any_ws"

section \<open>The store and its views\<close>

text \<open>
  A field per host.  The backends are shared behind an \<open>Arc\<close> where they have state; the model
  follows one store, so a field stands for what its guest sees.
\<close>

record ('a, 'm, 'q, 't) store_ctx =
  sx_table :: 't
  sx_keyvalue :: kv_store
  sx_vault :: vault_store
  sx_blobstore :: blob_world
  sx_messaging :: 'm
  sx_sql :: 'q
  sx_identity :: cached_token
  sx_websockets :: "'a ws_state"

type_synonym ('a, 'm, 'q, 't, 'e, 'r) store_op = "(('a, 'm, 'q, 't) store_ctx, 'e, 'r) op"

definition in_view ::
  "(('a, 'm, 'q, 't) store_ctx \<Rightarrow> 'w) \<Rightarrow> ('w \<Rightarrow> ('a, 'm, 'q, 't) store_ctx \<Rightarrow> ('a, 'm, 'q, 't) store_ctx) \<Rightarrow>
   (('w, 't) ctx_view, 'e, 'r) op \<Rightarrow> ('a, 'm, 'q, 't, 'e, 'r) store_op" where
  "in_view ctx set_ctx m s = (case m \<lparr>cv_ctx = ctx s, cv_table = sx_table s\<rparr> of
      (r, v) \<Rightarrow> (r, set_ctx (cv_ctx v) (s\<lparr>sx_table := cv_table v\<rparr>)))"

definition keyvalue_view :: "((kv_store, 't) ctx_view, 'e, 'r) op \<Rightarrow> ('a, 'm, 'q, 't, 'e, 'r) store_op" where
  "keyvalue_view = in_view sx_keyvalue (\<lambda>w s. s\<lparr>sx_keyvalue := w\<rparr>)"

definition vault_view_of :: "((vault_store, 't) ctx_view, 'e, 'r) op \<Rightarrow> ('a, 'm, 'q, 't, 'e, 'r) store_op" where
  "vault_view_of = in_view sx_vault (\<lambda>w s. s\<lparr>sx_vault := w\<rparr>)"

definition blobstore_view :: "((blob_world, 't) ctx_view, 'e, 'r) op \<Rightarrow> ('a, 'm, 'q, 't, 'e, 'r) store_op" where
  "blobstore_view = in_view sx_blobstore (\<lambda>w s. s\<lparr>sx_blobstore := w\<rparr>)"

definition messaging_view :: "(('m, 't) ctx_view, 'e, 'r) op \<Rightarrow> ('a, 'm, 'q, 't, 'e, 'r) store_op" where
  "messaging_view = in_view sx_messaging (\<lambda>w s. s\<lparr>sx_messaging := w\<rparr>)"

definition sql_view :: "(('q, 't) ctx_view, 'e, 'r) op \<Rightarrow> ('a, 'm, 'q, 't, 'e, 'r) store_op" where
  "sql_view = in_view sx_sql (\<lambda>w s. s\<lparr>sx_sql := w\<rparr>)"

definition identity_view :: "((cached_token, 't) ctx_view, 'e, 'r) op \<Rightarrow> ('a, 'm, 'q, 't, 'e, 'r) store_op" where
  "identity_view = in_view sx_identity (\<lambda>w s. s\<lparr>sx_identity := w\<rparr>)"

definition websockets_view :: "(('a ws_state, 't) ctx_view, 'e, 'r) op \<Rightarrow> ('a, 'm, 'q, 't, 'e, 'r) store_op" where
  "websockets_view = in_view sx_websockets (\<lambda>w s. s\<lparr>sx_websockets := w\<rparr>)"

lemmas view_defs = keyvalue_view_def vault_view_of_def blobstore_view_def messaging_view_def sql_view_def
  identity_view_def websockets_view_def in_view_def

section \<open>The calls of a guest\<close>

datatype kv_op = KvOpen string | KvDo guest_call | KvCas nat string | KvCurrent nat | KvDrop nat

datatype kv_ret = KrHandle nat | KrOut guest_out | KrCurrent "bytes option" | KrDone

fun kv_op_step :: "('t, in_mem_bucket kv_entry) table_ops \<Rightarrow> kv_op \<Rightarrow> ((kv_store, 't) ctx_view, kv_error, kv_ret) op" where
  "kv_op_step T (KvOpen name) = op_fmap KrHandle (host_open T open_bucket name)"
| "kv_op_step T (KvDo c) = op_fmap KrOut (guest_step T in_mem_ops c)"
| "kv_op_step T (KvCas h key) = op_fmap KrHandle (cas_new T in_mem_ops h key)"
| "kv_op_step T (KvCurrent h) = op_fmap KrCurrent (cas_current_of T h)"
| "kv_op_step T (KvDrop h) = op_fmap (\<lambda>_. KrDone) (op_map_err KvOther (host_drop_bucket T h))"

datatype vault_op = VOpen string | VDo nat store_cmd | VDrop nat

datatype vault_ret = VrHandle nat | VrOut store_out | VrDone

fun vault_op_step ::
  "('t, in_memory_locker locker_entry) table_ops \<Rightarrow> vault_op \<Rightarrow> ((vault_store, 't) ctx_view, vault_error, vault_ret) op" where
  "vault_op_step T (VOpen name) = op_fmap VrHandle (vault_open T open_locker name)"
| "vault_op_step T (VDo h c) = op_fmap VrOut (vault_step T locker_ops h c)"
| "vault_op_step T (VDrop h) = op_fmap (\<lambda>_. VrDone) (op_map_err VaultOther (vault_drop T h))"

text \<open>Of the results of the other hosts, only whether the call fails is kept.\<close>

definition quiet :: "('s, 'e, 'r) op \<Rightarrow> ('s, unit, unit) op" where
  "quiet m = op_bind (op_map_err (\<lambda>_. ()) m) (\<lambda>_. op_return ())"

datatype blob_op =
    BlCreate string int | BlGet string | BlDelete string | BlExists string | BlName nat | BlInfo nat
  | BlData nat string u64 u64 | BlWrite nat string nat | BlList nat | BlRemove nat string
  | BlRemoveMany nat "string list" | BlHas nat string | BlObject nat string int | BlClear nat | BlDrop nat
  | BlSync nat | BlAsync nat | BlSize nat | BlOutgoing | BlBody nat

fun blob_op_step :: "'t blob_table \<Rightarrow> blob_op \<Rightarrow> ((blob_world, 't) ctx_view, unit, unit) op" where
  "blob_op_step T (BlCreate name now) = quiet (blob_create_container T name now)"
| "blob_op_step T (BlGet name) = quiet (blob_get_container T name)"
| "blob_op_step T (BlDelete name) = quiet (blob_delete_container name)"
| "blob_op_step T (BlExists name) = quiet (blob_container_exists name)"
| "blob_op_step T (BlName h) = quiet (blob_name T h)"
| "blob_op_step T (BlInfo h) = quiet (blob_info T h)"
| "blob_op_step T (BlData h name start stop) = quiet (blob_get_data T h name start stop)"
| "blob_op_step T (BlWrite h name data) = quiet (blob_write_data T h name data)"
| "blob_op_step T (BlList h) = quiet (blob_list_objects T h)"
| "blob_op_step T (BlRemove h name) = quiet (blob_delete_object T h name)"
| "blob_op_step T (BlRemoveMany h names) = quiet (blob_delete_objects T h names)"
| "blob_op_step T (BlHas h name) = quiet (blob_has_object T h name)"
| "blob_op_step T (BlObject h name now) = quiet (blob_object_info T h name now)"
| "blob_op_step T (BlClear h) = quiet (blob_clear T h)"
| "blob_op_step T (BlDrop h) = quiet (blob_drop T h)"
| "blob_op_step T (BlSync h) = quiet (consume_sync T h)"
| "blob_op_step T (BlAsync h) = quiet (consume_async T h)"
| "blob_op_step T (BlSize h) = quiet (incoming_size T h)"
| "blob_op_step T BlOutgoing = quiet (new_outgoing_value T)"
| "blob_op_step T (BlBody h) = quiet (outgoing_write_body T h)"

datatype msg_op =
    MoConnect | MoDisconnect nat | MoNew bytes | MoTopic nat | MoFormat nat | MoData nat | MoMeta nat
  | MoSetFormat nat string | MoSetData nat bytes | MoAddMeta nat string string
  | MoSetMeta nat "(string \<times> string) list" | MoRemoveMeta nat string | MoDrop nat
  | MoSend nat string nat | MoRequest nat string nat "nat option" | MoReply nat nat
  | MoOptions | MoTimeout nat u32 | MoExpected nat u32

fun msg_op_step :: "'t msg_table \<Rightarrow> 'm sender \<Rightarrow> msg_op \<Rightarrow> (('m, 't) ctx_view, unit, unit) op" where
  "msg_op_step T sender MoConnect = quiet (msg_connect T)"
| "msg_op_step T sender (MoDisconnect h) = quiet (msg_disconnect h)"
| "msg_op_step T sender (MoNew data) = quiet (msg_new T data)"
| "msg_op_step T sender (MoTopic h) = quiet (msg_topic T h)"
| "msg_op_step T sender (MoFormat h) = quiet (msg_content_type T h)"
| "msg_op_step T sender (MoData h) = quiet (msg_data T h)"
| "msg_op_step T sender (MoMeta h) = quiet (msg_metadata T h)"
| "msg_op_step T sender (MoSetFormat h f) = quiet (msg_set_content_type T h f)"
| "msg_op_step T sender (MoSetData h data) = quiet (msg_set_data T h data)"
| "msg_op_step T sender (MoAddMeta h key val) = quiet (msg_add_metadata T h key val)"
| "msg_op_step T sender (MoSetMeta h meta) = quiet (msg_set_metadata T h meta)"
| "msg_op_step T sender (MoRemoveMeta h key) = quiet (msg_remove_metadata T h key)"
| "msg_op_step T sender (MoDrop h) = quiet (msg_drop T h)"
| "msg_op_step T sender (MoSend c topic h) = quiet (producer_send T sender c topic h)"
| "msg_op_step T sender (MoRequest c topic h opt) = quiet (msg_request T sender c topic h opt)"
| "msg_op_step T sender (MoReply to h) = quiet (msg_reply T sender to h)"
| "msg_op_step T sender MoOptions = quiet (options_new T)"
| "msg_op_step T sender (MoTimeout h ms) = quiet (options_set_timeout T h ms)"
| "msg_op_step T sender (MoExpected h n) = quiet (options_set_expected T h n)"

text \<open>The other hosts, with what they need from outside.\<close>

datatype ('f, 'd) sql_op = SoOpen string | SoPrepare string "('f, 'd) data_type list" | SoQuery nat nat | SoExec nat nat
  | SoTrace nat | SoDrop nat

datatype id_op = IoGet string | IoToken nat "string list" int int | IoDrop nat

datatype ws_op = WoServer | WoPeers nat | WoSendPeers nat string "string list" | WoSendAll nat string | WoDrop nat

record ('a, 'm, 'q, 'c, 'f, 'd) surroundings =
  su_sender :: "'m sender"
  su_sqlite :: "('q, 'd, 'c) sqlite_ops"
  su_path :: string
  su_widen :: "'f \<Rightarrow> 'd"
  su_request :: "string list \<Rightarrow> anyhow + token_response"
  su_ws :: "'a ws_env"

fun sql_op_step ::
  "('t, ('c, 'f, 'd) sql_entry) table_ops \<Rightarrow> ('a, 'm, 'q, 'c, 'f, 'd) surroundings \<Rightarrow> ('f, 'd) sql_op \<Rightarrow>
   (('q, 't) ctx_view, unit, unit) op" where
  "sql_op_step T U (SoOpen name) = quiet (host_sql_open T (su_sqlite U) (su_path U) name)"
| "sql_op_step T U (SoPrepare q params) = quiet (host_prepare T q params)"
| "sql_op_step T U (SoQuery c q) = quiet (host_query T (su_sqlite U) (su_widen U) c q)"
| "sql_op_step T U (SoExec c q) = quiet (host_exec T (su_sqlite U) (su_widen U) c q)"
| "sql_op_step T U (SoTrace h) = quiet (host_trace T h)"
| "sql_op_step T U (SoDrop h) = quiet (sql_drop T h)"

fun id_op_step ::
  "('t, identity_entry) table_ops \<Rightarrow> ('a, 'm, 'q, 'c, 'f, 'd) surroundings \<Rightarrow> id_op \<Rightarrow>
   ((cached_token, 't) ctx_view, unit, unit) op" where
  "id_op_step T U (IoGet name) = quiet (host_get_identity T name)"
| "id_op_step T U (IoToken h scopes now now2) = quiet (host_get_token T (su_request U) now now2 h scopes)"
| "id_op_step T U (IoDrop h) = quiet (host_drop_identity T h)"

fun ws_op_step ::
  "('t, ws_entry) table_ops \<Rightarrow> ('a, 'm, 'q, 'c, 'f, 'd) surroundings \<Rightarrow> ws_op \<Rightarrow>
   (('a ws_state, 't) ctx_view, unit, unit) op" where
  "ws_op_step T U WoServer = quiet (host_get_server T)"
| "ws_op_step T U (WoPeers h) = quiet (host_get_peers (su_ws U) T h)"
| "ws_op_step T U (WoSendPeers h msg peers) = quiet (host_send_peers (su_ws U) T h msg peers)"
| "ws_op_step T U (WoSendAll h msg) = quiet (host_send_all (su_ws U) T h msg)"
| "ws_op_step T U (WoDrop h) = quiet (host_drop_server h)"

datatype ('f, 'd) sys_call = CallKv kv_op | CallVault vault_op | CallBlob blob_op | CallMsg msg_op
  | CallSql "('f, 'd) sql_op" | CallIdentity id_op | CallWs ws_op

datatype sys_ret = RetKv "kv_error + kv_ret" | RetVault "vault_error + vault_ret" | RetOther "unit + unit" | RetTrap

fun call_kind :: "('f, 'd) sys_call \<Rightarrow> host_kind" where
  "call_kind (CallKv c) = KvHost"
| "call_kind (CallVault c) = VaultHost"
| "call_kind (CallBlob c) = BlobHost"
| "call_kind (CallMsg c) = MsgHost"
| "call_kind (CallSql c) = SqlHost"
| "call_kind (CallIdentity c) = IdentityHost"
| "call_kind (CallWs c) = WsHost"

text \<open>A call that reaches its host.\<close>

fun host_call ::
  "('t, ('c, 'f, 'd) any_entry) table_ops \<Rightarrow> ('a, 'm, 'q, 'c, 'f, 'd) surroundings \<Rightarrow> ('f, 'd) sys_call \<Rightarrow>
   ('a, 'm, 'q, 't) store_ctx \<Rightarrow> sys_ret \<times> ('a, 'm, 'q, 't) store_ctx" where
  "host_call T U (CallKv c) s = apfst RetKv (keyvalue_view (kv_op_step (kv_table T) c) s)"
| "host_call T U (CallVault c) s = apfst RetVault (vault_view_of (vault_op_step (vault_table T) c) s)"
| "host_call T U (CallBlob c) s = apfst RetOther (blobstore_view (blob_op_step (blobs_table T) c) s)"
| "host_call T U (CallMsg c) s = apfst RetOther (messaging_view (msg_op_step (msgs_table T) (su_sender U) c) s)"
| "host_call T U (CallSql c) s = apfst RetOther (sql_view (sql_op_step (sql_table T) U c) s)"
| "host_call T U (CallIdentity c) s = apfst RetOther (identity_view (id_op_step (id_table T) U c) s)"
| "host_call T U (CallWs c) s = apfst RetOther (websockets_view (ws_op_step (ws_table T) U c) s)"

text \<open>
  The component model keeps a table of its own from the guest's indices to these handles, with the
  resource type of each, and a guest that drops a resource names a type: an index of another type
  traps before any host is called.  Of all handlers only the destructors need that, since every
  other call reads its handle, typed, before it changes anything, and \<open>sys_step\<close> asks no more: a
  destructor is never called on a handle that is another host's entry.
\<close>

definition call_drops :: "('f, 'd) sys_call \<Rightarrow> nat option" where
  "call_drops c = (case c of
      CallKv d \<Rightarrow> (case d of KvDrop h \<Rightarrow> Some h | _ \<Rightarrow> None)
    | CallVault d \<Rightarrow> (case d of VDrop h \<Rightarrow> Some h | _ \<Rightarrow> None)
    | CallBlob d \<Rightarrow> (case d of BlDrop h \<Rightarrow> Some h | _ \<Rightarrow> None)
    | CallMsg d \<Rightarrow> (case d of MoDrop h \<Rightarrow> Some h | _ \<Rightarrow> None)
    | CallSql d \<Rightarrow> (case d of SoDrop h \<Rightarrow> Some h | _ \<Rightarrow> None)
    | CallIdentity d \<Rightarrow> (case d of IoDrop h \<Rightarrow> Some h | _ \<Rightarrow> None)
    | CallWs d \<Rightarrow> None)"

text \<open>The handle that a call is made on, where it reads one.\<close>

definition call_self :: "('f, 'd) sys_call \<Rightarrow> nat option" where
  "call_self c = (case c of
      CallKv d \<Rightarrow> (case d of KvOpen name \<Rightarrow> None | KvDo g \<Rightarrow> Some (call_handle g) | KvCas h key \<Rightarrow> Some h
        | KvCurrent h \<Rightarrow> Some h | KvDrop h \<Rightarrow> Some h)
    | CallVault d \<Rightarrow> (case d of VOpen name \<Rightarrow> None | VDo h g \<Rightarrow> Some h | VDrop h \<Rightarrow> Some h)
    | CallBlob d \<Rightarrow> (case d of BlName h \<Rightarrow> Some h | BlInfo h \<Rightarrow> Some h | BlData h name start stop \<Rightarrow> Some h
        | BlWrite h name data \<Rightarrow> Some h | BlList h \<Rightarrow> Some h | BlRemove h name \<Rightarrow> Some h | BlRemoveMany h names \<Rightarrow> Some h
        | BlHas h name \<Rightarrow> Some h | BlObject h name now \<Rightarrow> Some h | BlClear h \<Rightarrow> Some h | BlDrop h \<Rightarrow> Some h
        | BlSync h \<Rightarrow> Some h | BlAsync h \<Rightarrow> Some h | BlSize h \<Rightarrow> Some h | BlBody h \<Rightarrow> Some h | _ \<Rightarrow> None)
    | CallMsg d \<Rightarrow> (case d of MoTopic h \<Rightarrow> Some h | MoFormat h \<Rightarrow> Some h | MoData h \<Rightarrow> Some h | MoMeta h \<Rightarrow> Some h
        | MoSetFormat h f \<Rightarrow> Some h | MoSetData h data \<Rightarrow> Some h | MoAddMeta h key val \<Rightarrow> Some h
        | MoSetMeta h meta \<Rightarrow> Some h | MoRemoveMeta h key \<Rightarrow> Some h | MoDrop h \<Rightarrow> Some h | MoSend h topic m \<Rightarrow> Some h
        | MoRequest h topic m opt \<Rightarrow> Some h | MoReply h m \<Rightarrow> Some h | MoTimeout h ms \<Rightarrow> Some h
        | MoExpected h n \<Rightarrow> Some h | _ \<Rightarrow> None)
    | CallSql d \<Rightarrow> (case d of SoQuery h q \<Rightarrow> Some h | SoExec h q \<Rightarrow> Some h | SoTrace h \<Rightarrow> Some h | SoDrop h \<Rightarrow> Some h
        | _ \<Rightarrow> None)
    | CallIdentity d \<Rightarrow> (case d of IoGet name \<Rightarrow> None | IoToken h scopes now now2 \<Rightarrow> Some h | IoDrop h \<Rightarrow> Some h)
    | CallWs d \<Rightarrow> (case d of WoPeers h \<Rightarrow> Some h | WoSendPeers h msg peers \<Rightarrow> Some h | WoSendAll h msg \<Rightarrow> Some h | _ \<Rightarrow> None))"

definition foreign_drop ::
  "('t, ('c, 'f, 'd) any_entry) table_ops \<Rightarrow> ('f, 'd) sys_call \<Rightarrow> ('a, 'm, 'q, 't) store_ctx \<Rightarrow> bool" where
  "foreign_drop T c s = (case call_drops c of None \<Rightarrow> False
     | Some h \<Rightarrow> (case t_get T h (sx_table s) of Inl e \<Rightarrow> False | Inr a \<Rightarrow> entry_kind a \<noteq> call_kind c))"

definition sys_step ::
  "('t, ('c, 'f, 'd) any_entry) table_ops \<Rightarrow> ('a, 'm, 'q, 'c, 'f, 'd) surroundings \<Rightarrow> ('f, 'd) sys_call \<Rightarrow>
   ('a, 'm, 'q, 't) store_ctx \<Rightarrow> sys_ret \<times> ('a, 'm, 'q, 't) store_ctx" where
  "sys_step T U c s = (if foreign_drop T c s then (RetTrap, s) else host_call T U c s)"

lemma not_foreign_drop:
  "\<not> foreign_drop T c s \<Longrightarrow> call_drops c = Some h \<Longrightarrow> t_get T h (sx_table s) = Inr a \<Longrightarrow> entry_kind a = call_kind c"
  by (simp add: foreign_drop_def)

lemma sys_step_cases:
  assumes "sys_step T U c s = (r, s')"
  obtains "foreign_drop T c s" "r = RetTrap" "s' = s" | "\<not> foreign_drop T c s" "host_call T U c s = (r, s')"
  using assms by (auto simp: sys_step_def split: if_splits)

section \<open>What a table keeps\<close>

text \<open>
  \<open>table_keeps T F\<close>: no push or write through \<open>T\<close> breaks \<open>F\<close>, and \<open>drop_keeps T F h\<close>: nor does deleting
  \<open>h\<close>.  Every handler works on its table through these alone, so it keeps \<open>F\<close> too.
\<close>

named_theorems frame_intros

definition table_keeps :: "('t, 'e) table_ops \<Rightarrow> ('t \<Rightarrow> bool) \<Rightarrow> bool" where
  "table_keeps T F \<longleftrightarrow>
     (\<forall>e t h t'. t_push T e t = Inr (h, t') \<longrightarrow> F t \<longrightarrow> F t') \<and>
     (\<forall>h e a t. t_get T h t = Inr a \<longrightarrow> F t \<longrightarrow> F (t_put T h e t))"

definition drop_keeps :: "('t, 'e) table_ops \<Rightarrow> ('t \<Rightarrow> bool) \<Rightarrow> nat \<Rightarrow> bool" where
  "drop_keeps T F h \<longleftrightarrow> (\<forall>t x t'. t_delete T h t = Inr (x, t') \<longrightarrow> F t \<longrightarrow> F t')"

abbreviation keeps :: "('t \<Rightarrow> bool) \<Rightarrow> (('w, 't) ctx_view, 'e, 'r) op \<Rightarrow> bool" where
  "keeps F m \<equiv> op_preserves (\<lambda>v. F (cv_table v)) m"

lemma frame_push [frame_intros]: "table_keeps T F \<Longrightarrow> keeps F (push_entry T e)"
  by (fastforce simp: table_keeps_def op_preserves_def push_entry_def split: sum.splits prod.splits)

lemma frame_delete [frame_intros]: "drop_keeps T F h \<Longrightarrow> keeps F (delete_entry T h)"
  by (fastforce simp: drop_keeps_def op_preserves_def delete_entry_def split: sum.splits prod.splits option.splits)

lemma frame_update [frame_intros]: "table_keeps T F \<Longrightarrow> keeps F (update_entry T proj f h)"
  by (fastforce simp: table_keeps_def op_preserves_def update_entry_def get_entry_def
      split: sum.splits prod.splits option.splits)

lemma frame_ctx [frame_intros]: "keeps F (on_ctx m)"
  by (simp add: op_preserves_def on_ctx_def split: prod.splits)

lemma frame_case_option [frame_intros]:
  "op_preserves P a \<Longrightarrow> (\<And>y. op_preserves P (b y)) \<Longrightarrow> op_preserves P (case x of None \<Rightarrow> a | Some y \<Rightarrow> b y)"
  by (cases x) simp_all

lemma frame_case_sum [frame_intros]:
  "(\<And>e. op_preserves P (a e)) \<Longrightarrow> (\<And>y. op_preserves P (b y)) \<Longrightarrow> op_preserves P (case x of Inl e \<Rightarrow> a e | Inr y \<Rightarrow> b y)"
  by (cases x) simp_all

lemma frame_case_prod [frame_intros]:
  "(\<And>x y. op_preserves P (f x y)) \<Longrightarrow> op_preserves P (case z of (x, y) \<Rightarrow> f x y)"
  by (cases z) simp

lemmas frame_basic [frame_intros] = op_preserves_return op_preserves_fail op_preserves_lift op_preserves_bind
  op_preserves_map_err op_preserves_try op_preserves_for get_entry_preserves

lemma frame_get_many [frame_intros]: "keeps F (get_many_loop ops b ks many)"
  by (induction ks arbitrary: many) (auto simp: kv_call_def intro!: frame_intros)

lemma frame_kv [frame_intros]:
  assumes "table_keeps T F" and "\<And>h. c = KvDrop h \<Longrightarrow> drop_keeps T F h"
  shows "keeps F (kv_op_step T c)"
proof -
  note defs = op_fmap_def host_open_def cas_new_def cas_current_of_def host_drop_bucket_def get_bucket_def
    kv_call_def kv_call_ctx_def
  have "keeps F (guest_step T in_mem_ops g)" for g
    by (cases g) (auto simp: defs host_get_def host_set_def host_delete_def host_exists_def host_list_keys_def
        host_get_many_def host_set_many_def host_delete_many_def host_increment_def Let_def intro!: frame_intros)
  then show ?thesis
    by (cases c) (auto simp: defs intro!: frame_intros assms)
qed

lemma frame_vault [frame_intros]:
  assumes "table_keeps T F" and "\<And>h. c = VDrop h \<Longrightarrow> drop_keeps T F h"
  shows "keeps F (vault_op_step T c)"
proof -
  have "keeps F (vault_step T locker_ops h d)" for h d
    by (cases d) (auto simp: vault_get_def vault_set_def vault_delete_def vault_exists_def vault_list_ids_def
        get_locker_def locker_call_def intro!: frame_intros)
  then show ?thesis
    by (cases c) (auto simp: op_fmap_def vault_open_def vault_drop_def intro!: frame_intros assms)
qed

lemma frame_quiet [frame_intros]: "op_preserves P m \<Longrightarrow> op_preserves P (quiet m)"
  by (auto simp: quiet_def intro!: frame_intros)

lemma frame_blob [frame_intros]:
  assumes "table_keeps T F" and "\<And>h. c = BlDrop h \<Longrightarrow> drop_keeps T F h"
  shows "keeps F (blob_op_step T c)"
  by (cases c) (auto simp: blob_create_container_def blob_get_container_def blob_delete_container_def
      blob_container_exists_def blob_name_def blob_info_def blob_get_data_def blob_write_data_def
      blob_list_objects_def blob_delete_object_def blob_delete_objects_def blob_has_object_def
      blob_object_info_def blob_clear_def blob_drop_def consume_sync_def consume_async_def incoming_size_def
      new_outgoing_value_def outgoing_write_body_def blob_push_def find_container_def find_incoming_def in_ctx_def
      intro!: frame_intros assms)

lemma frame_msg [frame_intros]:
  assumes "table_keeps T F" and "\<And>h. c = MoDrop h \<Longrightarrow> drop_keeps T F h"
  shows "keeps F (msg_op_step T sender c)"
  by (cases c) (auto simp: msg_connect_def msg_disconnect_def msg_new_def msg_topic_def msg_content_type_def
      msg_data_def msg_metadata_def msg_set_content_type_def msg_set_data_def msg_add_metadata_def
      msg_set_metadata_def msg_remove_metadata_def msg_drop_def producer_send_def msg_request_def msg_reply_def
      options_new_def options_set_timeout_def options_set_expected_def push_updated_def find_options_def
      msg_push_def find_message_def get_client_def get_message_def Let_def intro!: frame_intros assms)

lemma frame_sql [frame_intros]:
  assumes "table_keeps T F" and "\<And>h. c = SoDrop h \<Longrightarrow> drop_keeps T F h"
  shows "keeps F (sql_op_step T U c)"
  by (cases c) (auto simp: host_sql_open_def host_prepare_def host_query_def host_exec_def host_trace_def
      sql_drop_def or_error_handle_def sql_find_def sql_push_def intro!: frame_intros assms)

lemma frame_identity [frame_intros]:
  assumes "table_keeps T F" and "\<And>h. c = IoDrop h \<Longrightarrow> drop_keeps T F h"
  shows "keeps F (id_op_step T U c)"
  by (cases c) (auto simp: host_get_identity_def host_get_token_def host_drop_identity_def find_identity_def
      intro!: frame_intros assms)

lemma frame_ws [frame_intros]:
  assumes "table_keeps T F"
  shows "keeps F (ws_op_step T U c)"
  by (cases c) (auto simp: host_get_server_def host_get_peers_def host_send_peers_def host_send_all_def
      host_drop_server_def use_server_def intro!: frame_intros assms)

section \<open>The table of one host\<close>

lemma kind_table_laws:
  assumes "table_laws T" and "\<And>e. proj (wrap e) = Some e"
  shows "table_laws (kind_table wrap proj T)"
  unfolding table_laws_def
proof (intro conjI allI impI)
  fix e t h t' k
  assume "t_push (kind_table wrap proj T) e t = Inr (h, t')"
  then have push: "t_push T (wrap e) t = Inr (h, t')" by (simp add: kind_table_def)
  note push = table_push_get [OF assms(1) push]
  show "t_get (kind_table wrap proj T) h t = Inl NotPresent" "t_get (kind_table wrap proj T) h t' = Inr e"
    by (simp_all add: kind_table_def push assms(2))
  assume "k \<noteq> h"
  then show "t_get (kind_table wrap proj T) k t' = t_get (kind_table wrap proj T) k t"
    by (simp add: kind_table_def push)
next
  fix h t x t' k
  assume "t_delete (kind_table wrap proj T) h t = Inr (x, t')"
  then obtain y where y: "t_delete T h t = Inr (y, t')" "x = Option.bind y proj"
    by (auto simp: kind_table_def res_bind_Inr_iff)
  note del = table_delete_get [OF assms(1) y(1)]
  show "t_get (kind_table wrap proj T) h t = ok_or WrongType x" "t_get (kind_table wrap proj T) h t' = Inl NotPresent"
    by (cases y; simp add: kind_table_def del y(2))+
  assume "k \<noteq> h"
  then show "t_get (kind_table wrap proj T) k t' = t_get (kind_table wrap proj T) k t"
    by (simp add: kind_table_def del(3))
next
  fix h e e' t k
  assume "t_get (kind_table wrap proj T) h t = Inr e'"
  then obtain a where "t_get T h t = Inr a" by (auto simp: kind_table_def res_bind_Inr_iff)
  note put = table_put_get [OF assms(1) this]
  show "t_get (kind_table wrap proj T) h (t_put (kind_table wrap proj T) h e t) = Inr e"
    by (simp add: kind_table_def put assms(2))
  assume "k \<noteq> h"
  then show "t_get (kind_table wrap proj T) k (t_put (kind_table wrap proj T) h e t) = t_get (kind_table wrap proj T) k t"
    by (simp add: kind_table_def put)
qed

lemma kind_table_keeps:
  assumes "table_laws T" and "\<And>a e. proj a = Some e \<Longrightarrow> entry_kind a = K" and "\<And>e. entry_kind (wrap e) = K"
  shows "entry_kind a \<noteq> K \<Longrightarrow> table_keeps (kind_table wrap proj T) (\<lambda>t. t_get T k t = Inr a)"
    and "table_keeps (kind_table wrap proj T) (\<lambda>t. \<forall>a. t_get T k t = Inr a \<longrightarrow> entry_kind a = K)"
    and "h \<noteq> k \<Longrightarrow> drop_keeps (kind_table wrap proj T) (\<lambda>t. t_get T k t = Inr a) h"
    and "drop_keeps (kind_table wrap proj T) (\<lambda>t. \<forall>a. t_get T k t = Inr a \<longrightarrow> entry_kind a = K) h"
proof -
  let ?T = "kind_table wrap proj T"
  have push: "t_get T k t' = (if k = h then Inr (wrap e) else t_get T k t) \<and> t_get T h t = Inl NotPresent"
    if "t_push ?T e t = Inr (h, t')" for e t h t'
  proof -
    from that have "t_push T (wrap e) t = Inr (h, t')" by (simp add: kind_table_def)
    from table_push_get [OF assms(1) this] show ?thesis by simp
  qed
  have put: "\<exists>b. t_get T h t = Inr b \<and> entry_kind b = K \<and>
      t_get T k (t_put ?T h e t) = (if k = h then Inr (wrap e) else t_get T k t)"
    if "t_get ?T h t = Inr a0" for h e a0 t
  proof -
    from that obtain b where b: "t_get T h t = Inr b" "proj b = Some a0" by (auto simp: kind_table_def res_bind_Inr_iff)
    from table_put_get [OF assms(1) b(1)] show ?thesis using b assms(2) by (simp add: kind_table_def)
  qed
  have del: "t_get T k t' = (if k = h then Inl NotPresent else t_get T k t)"
    if "t_delete ?T h t = Inr (x, t')" for h t x t'
  proof -
    from that obtain y where "t_delete T h t = Inr (y, t')" by (auto simp: kind_table_def res_bind_Inr_iff)
    from table_delete_get [OF assms(1) this] show ?thesis by simp
  qed
  show "drop_keeps ?T (\<lambda>t. t_get T k t = Inr a) h" if "h \<noteq> k"
    unfolding drop_keeps_def using del that by auto
  show "drop_keeps ?T (\<lambda>t. \<forall>a. t_get T k t = Inr a \<longrightarrow> entry_kind a = K) h"
    unfolding drop_keeps_def using del by (auto split: if_splits)
  show "table_keeps ?T (\<lambda>t. t_get T k t = Inr a)" if "entry_kind a \<noteq> K"
    unfolding table_keeps_def
  proof (intro conjI allI impI)
    fix e t h t' assume "t_push ?T e t = Inr (h, t')" "t_get T k t = Inr a"
    with push [OF this(1)] show "t_get T k t' = Inr a" by auto
  next
    fix h e a0 t assume "t_get ?T h t = Inr a0" "t_get T k t = Inr a"
    with put [OF this(1), of e] that show "t_get T k (t_put ?T h e t) = Inr a" by auto
  qed
  show "table_keeps ?T (\<lambda>t. \<forall>a. t_get T k t = Inr a \<longrightarrow> entry_kind a = K)"
    unfolding table_keeps_def
  proof (intro conjI allI impI)
    fix e t h t' b
    assume "t_push ?T e t = Inr (h, t')" "\<forall>a. t_get T k t = Inr a \<longrightarrow> entry_kind a = K" "t_get T k t' = Inr b"
    with push [OF this(1)] assms(3) show "entry_kind b = K" by (auto split: if_splits)
  next
    fix h e a0 t b
    assume "t_get ?T h t = Inr a0" "\<forall>a. t_get T k t = Inr a \<longrightarrow> entry_kind a = K" "t_get T k (t_put ?T h e t) = Inr b"
    with put [OF this(1), of e] assms(3) show "entry_kind b = K" by (auto split: if_splits)
  qed
qed

lemma any_kinds:
  "any_kv a = Some e1 \<Longrightarrow> entry_kind a = KvHost" "any_vault a = Some e2 \<Longrightarrow> entry_kind a = VaultHost"
  "any_blob a = Some e3 \<Longrightarrow> entry_kind a = BlobHost" "any_msg a = Some e4 \<Longrightarrow> entry_kind a = MsgHost"
  "any_sql a = Some e5 \<Longrightarrow> entry_kind a = SqlHost" "any_identity a = Some e6 \<Longrightarrow> entry_kind a = IdentityHost"
  "any_ws a = Some e7 \<Longrightarrow> entry_kind a = WsHost"
  by (cases a; simp)+

lemma in_view_table:
  assumes "keeps F m" and "in_view ctx set_ctx m s = (r, s')" and "F (sx_table s)"
    and "\<And>w s. sx_table (set_ctx w s) = sx_table s"
  shows "F (sx_table s')"
proof -
  obtain v where v: "m \<lparr>cv_ctx = ctx s, cv_table = sx_table s\<rparr> = (r, v)" "s' = set_ctx (cv_ctx v) (s\<lparr>sx_table := cv_table v\<rparr>)"
    using assms(2) by (auto simp: in_view_def split: prod.splits)
  from op_preservesD [OF assms(1) _ v(1)] assms(3) show ?thesis by (simp add: v(2) assms(4))
qed

text \<open>A call on a handle that its host does not find, or finds to be of another type, fails.\<close>

lemma bad_bind: "\<exists>e. m v = (Inl e, v) \<Longrightarrow> \<exists>e. op_bind m f v = (Inl e, v)"
  by auto

lemma bad_kv:
  assumes "t_get T h (cv_table v) = Inl e" and "call_self (CallKv c) = Some h" and "call_drops (CallKv c) = None"
  shows "\<exists>e. kv_op_step T c v = (Inl e, v)"
proof -
  have bad: "get_bucket T h v = (Inl KvNoSuchStore, v)" by (simp add: get_bucket_def get_entry_bad [OF assms(1)])
  have "\<exists>e. guest_step T in_mem_ops g v = (Inl e, v)" if "call_handle g = h" for g
    using that bad by (cases g) (simp_all add: op_fmap_def host_get_def host_set_def host_delete_def host_exists_def
        host_list_keys_def host_get_many_def host_set_many_def host_delete_many_def host_increment_def)
  then show ?thesis using assms bad
    by (cases c) (auto simp: call_self_def call_drops_def op_fmap_def cas_new_def cas_current_of_def get_entry_bad
        intro!: bad_bind)
qed

lemma bad_vault:
  assumes "t_get T h (cv_table v) = Inl e" and "call_self (CallVault c) = Some h" and "call_drops (CallVault c) = None"
  shows "\<exists>e. vault_op_step T c v = (Inl e, v)"
proof -
  have "\<exists>e. vault_step T locker_ops h d v = (Inl e, v)" for d
    by (cases d) (simp_all add: vault_get_def vault_set_def vault_delete_def vault_exists_def vault_list_ids_def
        get_locker_def get_entry_bad [OF assms(1)])
  then show ?thesis using assms(2,3)
    by (cases c) (auto simp: call_self_def call_drops_def op_fmap_def intro!: bad_bind)
qed

lemma bad_blob:
  assumes "t_get T h (cv_table v) = Inl e" and "call_self (CallBlob c) = Some h" and "call_drops (CallBlob c) = None"
  shows "\<exists>e. blob_op_step T c v = (Inl e, v)"
proof -
  note bad = get_entry_bad [OF assms(1)]
  have "\<exists>e. blob_write_data T h name data v = (Inl e, v)" for name data
  proof -
    obtain r where "op_map_err table_anyhow (get_entry T as_outgoing data) v = (r, v)"
      by (cases "get_entry T as_outgoing data v") (auto simp: op_map_err_def dest: arg_cong [where f = snd] split: sum.splits)
    then show ?thesis
      by (cases r) (simp_all add: blob_write_data_def pipe_contents_def on_ctx_def find_container_def bad)
  qed
  moreover have "quiet (blob_write_data T h name data) v = (Inl (), v)" if "blob_write_data T h name data v = (Inl x, v)" for name data x
    using that by (simp add: quiet_def)
  ultimately have "quiet (blob_write_data T h name data) v = (Inl (), v)" for name data by blast
  then show ?thesis using assms(2,3)
    by (cases c) (auto simp: call_self_def call_drops_def blob_name_def blob_info_def blob_get_data_def
        blob_list_objects_def blob_delete_object_def blob_delete_objects_def blob_has_object_def blob_object_info_def
        blob_clear_def consume_sync_def consume_async_def incoming_size_def outgoing_write_body_def find_container_def
        find_incoming_def bad quiet_def)
qed

lemma bad_msg:
  assumes "t_get T h (cv_table v) = Inl e" and "call_self (CallMsg c) = Some h" and "call_drops (CallMsg c) = None"
  shows "\<exists>e. msg_op_step T sender c v = (Inl e, v)"
  using assms(2,3)
  by (cases c) (auto simp: call_self_def call_drops_def msg_topic_def msg_content_type_def msg_data_def msg_metadata_def
      msg_set_content_type_def msg_set_data_def msg_add_metadata_def msg_set_metadata_def msg_remove_metadata_def
      push_updated_def producer_send_def msg_request_def msg_reply_def options_set_timeout_def options_set_expected_def
      update_entry_def find_message_def get_client_def get_message_def get_entry_bad [OF assms(1)] quiet_def)

lemma bad_sql:
  assumes "t_get T h (cv_table v) = Inl e" and "call_self (CallSql c) = Some h" and "call_drops (CallSql c) = None"
  shows "\<exists>e. sql_op_step T U c v = (Inl e, v)"
  using assms(2,3)
  by (cases c) (auto simp: call_self_def call_drops_def host_query_def host_exec_def host_trace_def sql_find_def
      get_entry_bad [OF assms(1)] quiet_def)

lemma bad_identity:
  assumes "t_get T h (cv_table v) = Inl e" and "call_self (CallIdentity c) = Some h" and "call_drops (CallIdentity c) = None"
  shows "\<exists>e. id_op_step T U c v = (Inl e, v)"
  using assms(2,3)
  by (cases c) (auto simp: call_self_def call_drops_def host_get_token_def find_identity_def get_entry_bad [OF assms(1)]
      quiet_def)

lemma bad_ws:
  assumes "t_get T h (cv_table v) = Inl e" and "call_self (CallWs c) = Some h"
  shows "\<exists>e. ws_op_step T U c v = (Inl e, v)"
  using assms(2)
  by (cases c) (auto simp: call_self_def host_get_peers_def host_send_peers_def host_send_all_def use_server_def
      get_entry_bad [OF assms(1)] quiet_def)

lemma apfst_eqD: "apfst f p = (r, s) \<Longrightarrow> \<exists>q. p = (q, s)"
  by (cases p) auto

text \<open>One call, through the view of its host.\<close>

lemma host_call_keeps:
  assumes "host_call T U c s = (r, s')" and "F (sx_table s)"
    and "call_kind c = KvHost \<Longrightarrow> table_keeps (kv_table T) F \<and> (\<forall>h. call_drops c = Some h \<longrightarrow> drop_keeps (kv_table T) F h)"
    and "call_kind c = VaultHost \<Longrightarrow> table_keeps (vault_table T) F \<and> (\<forall>h. call_drops c = Some h \<longrightarrow> drop_keeps (vault_table T) F h)"
    and "call_kind c = BlobHost \<Longrightarrow> table_keeps (blobs_table T) F \<and> (\<forall>h. call_drops c = Some h \<longrightarrow> drop_keeps (blobs_table T) F h)"
    and "call_kind c = MsgHost \<Longrightarrow> table_keeps (msgs_table T) F \<and> (\<forall>h. call_drops c = Some h \<longrightarrow> drop_keeps (msgs_table T) F h)"
    and "call_kind c = SqlHost \<Longrightarrow> table_keeps (sql_table T) F \<and> (\<forall>h. call_drops c = Some h \<longrightarrow> drop_keeps (sql_table T) F h)"
    and "call_kind c = IdentityHost \<Longrightarrow> table_keeps (id_table T) F \<and> (\<forall>h. call_drops c = Some h \<longrightarrow> drop_keeps (id_table T) F h)"
    and "call_kind c = WsHost \<Longrightarrow> table_keeps (ws_table T) F"
  shows "F (sx_table s')"
proof (cases c)
  case (CallKv d)
  then obtain q where "keyvalue_view (kv_op_step (kv_table T) d) s = (q, s')" using assms(1) by (auto dest!: apfst_eqD)
  from in_view_table [where F = F, OF frame_kv [where F = F] this [unfolded keyvalue_view_def]] show ?thesis using assms CallKv by (simp add: call_drops_def)
next
  case (CallVault d)
  then obtain q where "vault_view_of (vault_op_step (vault_table T) d) s = (q, s')" using assms(1) by (auto dest!: apfst_eqD)
  from in_view_table [where F = F, OF frame_vault [where F = F] this [unfolded vault_view_of_def]] show ?thesis using assms CallVault by (simp add: call_drops_def)
next
  case (CallBlob d)
  then obtain q where "blobstore_view (blob_op_step (blobs_table T) d) s = (q, s')" using assms(1) by (auto dest!: apfst_eqD)
  from in_view_table [where F = F, OF frame_blob [where F = F] this [unfolded blobstore_view_def]] show ?thesis using assms CallBlob by (simp add: call_drops_def)
next
  case (CallMsg d)
  then obtain q where "messaging_view (msg_op_step (msgs_table T) (su_sender U) d) s = (q, s')" using assms(1) by (auto dest!: apfst_eqD)
  from in_view_table [where F = F, OF frame_msg [where F = F] this [unfolded messaging_view_def]] show ?thesis using assms CallMsg by (simp add: call_drops_def)
next
  case (CallSql d)
  then obtain q where "sql_view (sql_op_step (sql_table T) U d) s = (q, s')" using assms(1) by (auto dest!: apfst_eqD)
  from in_view_table [where F = F, OF frame_sql [where F = F] this [unfolded sql_view_def]] show ?thesis using assms CallSql by (simp add: call_drops_def)
next
  case (CallIdentity d)
  then obtain q where "identity_view (id_op_step (id_table T) U d) s = (q, s')" using assms(1) by (auto dest!: apfst_eqD)
  from in_view_table [where F = F, OF frame_identity [where F = F] this [unfolded identity_view_def]] show ?thesis using assms CallIdentity by (simp add: call_drops_def)
next
  case (CallWs d)
  then obtain q where "websockets_view (ws_op_step (ws_table T) U d) s = (q, s')" using assms(1) by (auto dest!: apfst_eqD)
  from in_view_table [where F = F, OF frame_ws [where F = F] this [unfolded websockets_view_def]] show ?thesis using assms CallWs by simp
qed

text \<open>Another host's handle is refused, by the table or before it is dropped.\<close>

fun refused :: "sys_ret \<Rightarrow> bool" where
  "refused (RetKv q) = isl q"
| "refused (RetVault q) = isl q"
| "refused (RetOther q) = isl q"
| "refused RetTrap = True"

lemma in_view_bad:
  assumes "\<And>v. cv_table v = sx_table s \<Longrightarrow> \<exists>e. m v = (Inl e, v)" and "\<And>s. set_ctx (ctx s) s = s"
  shows "\<exists>e. in_view ctx set_ctx m s = (Inl e, s)"
proof -
  obtain e where "m \<lparr>cv_ctx = ctx s, cv_table = sx_table s\<rparr> = (Inl e, \<lparr>cv_ctx = ctx s, cv_table = sx_table s\<rparr>)"
    using assms(1) [of "\<lparr>cv_ctx = ctx s, cv_table = sx_table s\<rparr>"] by auto
  then show ?thesis by (simp add: in_view_def assms(2))
qed

lemma host_call_bad:
  assumes "call_self c = Some h" and "call_drops c = None" and "t_get T h (sx_table s) = Inr a" and "entry_kind a \<noteq> call_kind c"
  shows "\<exists>r. host_call T U c s = (r, s) \<and> refused r"
proof -
  have get: "t_get (kind_table wrap proj T) h (sx_table s) = Inl WrongType" if "proj a = None" for wrap proj
    using assms(3) that by (simp add: kind_table_def)
  show ?thesis
  proof (cases c)
    case (CallKv d)
    then have none: "any_kv a = None" using assms(4) by (cases a) simp_all
    have "\<exists>e. keyvalue_view (kv_op_step (kv_table T) d) s = (Inl e, s)"
      unfolding keyvalue_view_def by (rule in_view_bad, rule bad_kv [where h = h and e = WrongType])
        (use CallKv assms(1-3) none in \<open>simp_all add: get\<close>)
    then show ?thesis by (auto simp: CallKv)
  next
    case (CallVault d)
    then have none: "any_vault a = None" using assms(4) by (cases a) simp_all
    have "\<exists>e. vault_view_of (vault_op_step (vault_table T) d) s = (Inl e, s)"
      unfolding vault_view_of_def by (rule in_view_bad, rule bad_vault [where h = h and e = WrongType])
        (use CallVault assms(1-3) none in \<open>simp_all add: get\<close>)
    then show ?thesis by (auto simp: CallVault)
  next
    case (CallBlob d)
    then have none: "any_blob a = None" using assms(4) by (cases a) simp_all
    have "\<exists>e. blobstore_view (blob_op_step (blobs_table T) d) s = (Inl e, s)"
      unfolding blobstore_view_def by (rule in_view_bad, rule bad_blob [where h = h and e = WrongType])
        (use CallBlob assms(1-3) none in \<open>simp_all add: get\<close>)
    then show ?thesis by (auto simp: CallBlob)
  next
    case (CallMsg d)
    then have none: "any_msg a = None" using assms(4) by (cases a) simp_all
    have "\<exists>e. messaging_view (msg_op_step (msgs_table T) (su_sender U) d) s = (Inl e, s)"
      unfolding messaging_view_def by (rule in_view_bad, rule bad_msg [where h = h and e = WrongType])
        (use CallMsg assms(1-3) none in \<open>simp_all add: get\<close>)
    then show ?thesis by (auto simp: CallMsg)
  next
    case (CallSql d)
    then have none: "any_sql a = None" using assms(4) by (cases a) simp_all
    have "\<exists>e. sql_view (sql_op_step (sql_table T) U d) s = (Inl e, s)"
      unfolding sql_view_def by (rule in_view_bad, rule bad_sql [where h = h and e = WrongType])
        (use CallSql assms(1-3) none in \<open>simp_all add: get\<close>)
    then show ?thesis by (auto simp: CallSql)
  next
    case (CallIdentity d)
    then have none: "any_identity a = None" using assms(4) by (cases a) simp_all
    have "\<exists>e. identity_view (id_op_step (id_table T) U d) s = (Inl e, s)"
      unfolding identity_view_def by (rule in_view_bad, rule bad_identity [where h = h and e = WrongType])
        (use CallIdentity assms(1-3) none in \<open>simp_all add: get\<close>)
    then show ?thesis by (auto simp: CallIdentity)
  next
    case (CallWs d)
    then have none: "any_ws a = None" using assms(4) by (cases a) simp_all
    have "\<exists>e. websockets_view (ws_op_step (ws_table T) U d) s = (Inl e, s)"
      unfolding websockets_view_def by (rule in_view_bad, rule bad_ws [where h = h and e = WrongType])
        (use CallWs assms(1-3) none in \<open>simp_all add: get\<close>)
    then show ?thesis by (auto simp: CallWs)
  qed
qed

lemma drops_self: "call_drops c = Some h \<Longrightarrow> call_self c = Some k \<Longrightarrow> k = h"
  by (cases c) (auto simp: call_drops_def call_self_def split: kv_op.splits vault_op.splits blob_op.splits msg_op.splits
      sql_op.splits id_op.splits)

lemma sys_step_refused:
  assumes "sys_step T U c s = (r, s')" and "call_self c = Some h" and "t_get T h (sx_table s) = Inr a"
    and "entry_kind a \<noteq> call_kind c"
  shows "refused r \<and> s' = s"
  using assms(1)
proof (cases rule: sys_step_cases)
  case 2
  have "call_drops c = None"
    using not_foreign_drop [OF 2(1)] drops_self [OF _ assms(2)] assms(3,4) by (cases "call_drops c") auto
  then obtain q where "host_call T U c s = (q, s)" "refused q" using host_call_bad [OF assms(2) _ assms(3,4)] by blast
  with 2(2) show ?thesis by simp
qed simp

lemma sys_step_others:
  assumes "sys_step T U c s = (r, s')"
  shows "call_kind c \<noteq> KvHost \<Longrightarrow> sx_keyvalue s' = sx_keyvalue s"
    and "call_kind c \<noteq> VaultHost \<Longrightarrow> sx_vault s' = sx_vault s"
    and "call_kind c \<noteq> BlobHost \<Longrightarrow> sx_blobstore s' = sx_blobstore s"
    and "call_kind c \<noteq> MsgHost \<Longrightarrow> sx_messaging s' = sx_messaging s"
    and "call_kind c \<noteq> SqlHost \<Longrightarrow> sx_sql s' = sx_sql s"
    and "call_kind c \<noteq> IdentityHost \<Longrightarrow> sx_identity s' = sx_identity s"
    and "call_kind c \<noteq> WsHost \<Longrightarrow> sx_websockets s' = sx_websockets s"
  using assms by (cases c; auto simp: sys_step_def view_defs split: prod.splits if_splits)+

lemma sys_step_kinds:
  assumes "table_laws T" and "sys_step T U c s = (r, s')"
  shows "t_get T k (sx_table s) = Inr a \<Longrightarrow> entry_kind a \<noteq> call_kind c \<Longrightarrow> t_get T k (sx_table s') = Inr a"
    and "\<forall>a. t_get T k (sx_table s) = Inr a \<longrightarrow> entry_kind a = call_kind c \<Longrightarrow>
      \<forall>a. t_get T k (sx_table s') = Inr a \<longrightarrow> entry_kind a = call_kind c"
proof -
  note keeps = kind_table_keeps [OF assms(1)]
  show "t_get T k (sx_table s') = Inr a" if a: "t_get T k (sx_table s) = Inr a" "entry_kind a \<noteq> call_kind c"
    using assms(2)
  proof (cases rule: sys_step_cases)
    case 2
    have "call_drops c = Some h \<Longrightarrow> h \<noteq> k" for h using not_foreign_drop [OF 2(1)] a by auto
    then show ?thesis
      by (intro host_call_keeps [OF 2(2), where F = "\<lambda>t. t_get T k t = Inr a"])
        (use a in \<open>auto intro!: keeps(1,3) dest: any_kinds\<close>)
  qed (use a in simp)
  show "\<forall>a. t_get T k (sx_table s') = Inr a \<longrightarrow> entry_kind a = call_kind c"
    if a: "\<forall>a. t_get T k (sx_table s) = Inr a \<longrightarrow> entry_kind a = call_kind c"
    using assms(2)
  proof (cases rule: sys_step_cases)
    case 2
    show ?thesis
      by (rule host_call_keeps [OF 2(2), where F = "\<lambda>t. \<forall>a. t_get T k t = Inr a \<longrightarrow> entry_kind a = call_kind c"])
        (use a in \<open>auto intro!: keeps(2,4) dest: any_kinds\<close>)
  qed (use a in simp)
qed

end
