(* ===== verification/HostSessions.thy ===== *)
theory HostSessions
  imports SharedStore
begin

text \<open>
  What a store shared by all hosts promises: handles keep their type, and a call of one host leaves
  what every other host sees as it was.  What the key-value host and the vault promise alone,
  handles included, is specified here.
\<close>

section \<open>A host alone\<close>

text \<open>
  What the key-value host promises alone: its state is which bucket a handle names and the contents
  of the buckets.  A new handle was free; a failing \<open>open\<close> or \<open>drop\<close> changes nothing a guest sees.
  The snapshot behind a cas handle is not followed.
\<close>

type_synonym kv_abs = "(nat \<Rightarrow> string option) \<times> string spec_state"

inductive kv_spec :: "kv_abs \<Rightarrow> kv_op \<Rightarrow> kv_error + kv_ret \<Rightarrow> kv_abs \<Rightarrow> bool" where
  kv_open: "H h = None \<Longrightarrow> kv_spec (H, m) (KvOpen name) (Inr (KrHandle h)) (H(h \<mapsto> name), m)"
| kv_open_full: "kv_spec (H, m) (KvOpen name) (Inl (kv_from_table e)) (H, m)"
| kv_do: "spec_step H c m r m' \<Longrightarrow> kv_spec (H, m) (KvDo c) (map_sum id KrOut r) (H, m')"
| kv_cas: "H h = Some i \<Longrightarrow> H h' = None \<Longrightarrow> kv_spec (H, m) (KvCas h key) (Inr (KrHandle h')) (H, m)"
| kv_cas_full: "H h = Some i \<Longrightarrow> kv_spec (H, m) (KvCas h key) (Inl (kv_from_table e)) (H, m)"
| kv_cas_none: "H h = None \<Longrightarrow> kv_spec (H, m) (KvCas h key) (Inl KvNoSuchStore) (H, m)"
| kv_current: "kv_spec (H, m) (KvCurrent h) r (H, m)"
| kv_drop: "kv_spec (H, m) (KvDrop h) (Inr KrDone) (H(h := None), m)"
| kv_drop_bad: "kv_spec (H, m) (KvDrop h) (Inl (KvOther (Of_table e))) (H, m)"

text \<open>The same for the vault.\<close>

inductive vault_spec :: "kv_abs \<Rightarrow> vault_op \<Rightarrow> vault_error + vault_ret \<Rightarrow> kv_abs \<Rightarrow> bool" where
  v_open: "L h = None \<Longrightarrow> vault_spec (L, m) (VOpen name) (Inr (VrHandle h)) (L(h \<mapsto> name), m)"
| v_open_full: "vault_spec (L, m) (VOpen name) (Inl (vault_from_table e)) (L, m)"
| v_do: "L h = Some i \<Longrightarrow> out_matches out (fst (spec_cmd i c m)) \<Longrightarrow>
    vault_spec (L, m) (VDo h c) (Inr (VrOut out)) (L, snd (spec_cmd i c m))"
| v_bad: "L h = None \<Longrightarrow> vault_spec (L, m) (VDo h c) (Inl (vault_from_table e)) (L, m)"
| v_drop: "vault_spec (L, m) (VDrop h) (Inr VrDone) (L(h := None), m)"
| v_drop_bad: "vault_spec (L, m) (VDrop h) (Inl (VaultOther (Of_table e))) (L, m)"

definition locker_at ::
  "('t, in_memory_locker locker_entry) table_ops \<Rightarrow> 't \<Rightarrow> nat \<Rightarrow> string option" where
  "locker_at T t h = (case locker_ident T lk_identifier t h of Inr i \<Rightarrow> Some i | Inl _ \<Rightarrow> None)"

definition kv_abs_of :: "('t, ('c, 'f, 'd) any_entry) table_ops \<Rightarrow> ('a, 'm, 'q, 't) store_ctx \<Rightarrow> kv_abs" where
  "kv_abs_of T s = (handle_of (kv_table T) bk_name (sx_table s), kv_view (sx_keyvalue s))"

definition vault_abs_of :: "('t, ('c, 'f, 'd) any_entry) table_ops \<Rightarrow> ('a, 'm, 'q, 't) store_ctx \<Rightarrow> kv_abs" where
  "vault_abs_of T s = (locker_at (vault_table T) (sx_table s), vault_view (sx_vault s))"

section \<open>Each host keeps its promise\<close>

lemma delete_entry_cases:
  obtains e where "delete_entry T h v = (Inl e, v)"
  | t where "t_delete T h (cv_table v) = Inr (None, t)" "delete_entry T h v = (Inl WrongType, v\<lparr>cv_table := t\<rparr>)"
  | e t where "t_delete T h (cv_table v) = Inr (Some e, t)" "delete_entry T h v = (Inr (), v\<lparr>cv_table := t\<rparr>)"
proof (cases "t_delete T h (cv_table v)")
  case (Inr p)
  then show ?thesis using that(2,3)
    by (cases p; cases "fst p") (simp_all add: delete_entry_def)
qed (use that(1) in \<open>simp add: delete_entry_def\<close>)

lemma push_entry_cases:
  obtains e where "push_entry T x v = (Inl e, v)"
  | h t where "t_push T x (cv_table v) = Inr (h, t)" "push_entry T x v = (Inr h, v\<lparr>cv_table := t\<rparr>)"
  by (cases "t_push T x (cv_table v)") (auto simp: push_entry_def split: prod.splits)

lemma open_bucket_ok: "open_bucket name w = (Inr \<lparr>bk_name = name\<rparr>, snd (open_bucket name w))"
  by (simp add: open_bucket_def Let_def)

abbreviation "kv_abs_at T v \<equiv> (handle_of T bk_name (cv_table v), kv_view (cv_ctx v))"

lemma kv_open_refines:
  assumes "table_laws T" and "kv_wf (cv_ctx v)" and "kv_op_step T (KvOpen name) v = (r, v')"
  shows "kv_spec (kv_abs_at T v) (KvOpen name) r (kv_abs_at T v') \<and> kv_wf (cv_ctx v')"
proof -
  let ?v = "v\<lparr>cv_ctx := snd (open_bucket name (cv_ctx v))\<rparr>" and ?b = "EBucket \<lparr>bk_name = name\<rparr>"
  have run: "host_open T open_bucket name v = op_map_err kv_from_table (push_entry T ?b) ?v"
    using on_ctx_run [of "open_bucket name" v, OF open_bucket_ok] by (simp add: host_open_def kv_call_def)
  show ?thesis
  proof (rule push_entry_cases [of T ?b ?v])
    fix e assume "push_entry T ?b ?v = (Inl e, ?v)"
    then have "r = Inl (kv_from_table e)" "v' = ?v" using assms(3) run by (auto simp: op_fmap_def op_map_err_def)
    then show ?thesis using assms(2) by (simp add: kv_view_open kv_wf_open kv_open_full)
  next
    fix h t assume "push_entry T ?b ?v = (Inr h, ?v\<lparr>cv_table := t\<rparr>)"
    then have "r = Inr (KrHandle h)" and "host_open T open_bucket name v = (Inr h, v')"
      using assms(3) run by (auto simp: op_fmap_def op_map_err_def)
    with host_open_spec [OF assms(1,2) this(2)] show ?thesis by (simp add: kv_open)
  qed
qed

lemma kv_do_refines:
  assumes "table_laws T" and "kv_wf (cv_ctx v)" and "kv_op_step T (KvDo g) v = (r, v')"
  shows "kv_spec (kv_abs_at T v) (KvDo g) r (kv_abs_at T v') \<and> kv_wf (cv_ctx v')"
proof -
  obtain q w where q: "guest_step T in_mem_ops g v = (q, v\<lparr>cv_ctx := w\<rparr>)" "kv_wf w"
      "spec_step (handle_of T bk_name (cv_table v)) g (kv_view (cv_ctx v)) q (kv_view w)"
    using kv.guest_step_refines [OF assms(2)] by blast
  then have "r = map_sum id KrOut q" "v' = v\<lparr>cv_ctx := w\<rparr>"
    using assms(3) by (cases q; simp add: op_fmap_def)+
  with kv_do [OF q(3)] q(2) show ?thesis by (simp add:)
qed

lemma kv_cas_refines:
  assumes "table_laws T" and "kv_wf (cv_ctx v)" and "kv_op_step T (KvCas h key) v = (r, v')"
  shows "kv_spec (kv_abs_at T v) (KvCas h key) r (kv_abs_at T v') \<and> kv_wf (cv_ctx v')"
proof -
  let ?H = "handle_of T bk_name (cv_table v)"
  show ?thesis
  proof (cases "?H h")
    case None
    then have "cas_new T in_mem_ops h key v = (Inl KvNoSuchStore, v)"
      by (simp add: cas_new_def get_bucket_none)
    then show ?thesis using assms(2,3) kv_cas_none [of ?H h, OF None] by (auto simp: op_fmap_def)
  next
    case (Some i)
    then obtain b where b: "t_get T h (cv_table v) = Inr (EBucket b)" by (auto simp: handle_of_Some)
    obtain x where x: "so_get in_mem_ops b key (cv_ctx v) = (Inr x, cv_ctx v)"
      using kv.get_ok [OF assms(2)] by blast
    let ?e = "ECas \<lparr>cas_key = key, cas_current = x\<rparr>"
    have run: "cas_new T in_mem_ops h key v = op_map_err kv_from_table (push_entry T ?e) v"
      using get_bucket_ok [OF b] x by (simp add: cas_new_def kv_call_ctx_def)
    show ?thesis
    proof (rule push_entry_cases [of T ?e v])
      fix e assume "push_entry T ?e v = (Inl e, v)"
      then show ?thesis using assms(2,3) run kv_cas_full [of ?H h, OF Some] by (auto simp: op_fmap_def op_map_err_def)
    next
      fix k t assume t: "t_push T ?e (cv_table v) = Inr (k, t)" "push_entry T ?e v = (Inr k, v\<lparr>cv_table := t\<rparr>)"
      note push = table_push_get [OF assms(1) t(1)]
      have "handle_of T bk_name t j = ?H j" for j
        by (cases "j = k") (simp_all add: handle_of_def push)
      then have "handle_of T bk_name t = ?H" and k: "?H k = None"
        by (simp_all add: fun_eq_iff handle_of_def push)
      then show ?thesis using assms(2,3) run t(2) kv_cas [of ?H h, OF Some k] by (auto simp: op_fmap_def op_map_err_def)
    qed
  qed
qed

lemma kv_current_refines:
  assumes "table_laws T" and "kv_wf (cv_ctx v)" and "kv_op_step T (KvCurrent h) v = (r, v')"
  shows "kv_spec (kv_abs_at T v) (KvCurrent h) r (kv_abs_at T v') \<and> kv_wf (cv_ctx v')"
proof -
  have "v' = v"
    using assms(3) by (auto simp: op_fmap_def cas_current_of_def op_bind_def op_map_err_def get_entry_def
        split: sum.splits option.splits prod.splits)
  then show ?thesis using assms(2) kv_current by simp
qed

lemma kv_drop_refines:
  assumes "table_laws T" and "kv_wf (cv_ctx v)" and "kv_op_step T (KvDrop h) v = (r, v')"
  shows "kv_spec (kv_abs_at T v) (KvDrop h) r (kv_abs_at T v') \<and> kv_wf (cv_ctx v')"
proof -
  show ?thesis
  proof (rule delete_entry_cases [of T h v])
    fix e assume "delete_entry T h v = (Inl e, v)"
    then show ?thesis using assms(2,3) kv_drop_bad
      by (auto simp: op_fmap_def host_drop_bucket_def op_map_err_def)
  next
    fix t assume t: "t_delete T h (cv_table v) = Inr (None, t)" "delete_entry T h v = (Inl WrongType, v\<lparr>cv_table := t\<rparr>)"
    note del = table_delete_get [OF assms(1) t(1)]
    have "handle_of T bk_name t j = handle_of T bk_name (cv_table v) j" for j
      by (cases "j = h") (simp_all add: handle_of_def del)
    then have "handle_of T bk_name t = handle_of T bk_name (cv_table v)" by blast
    then show ?thesis using assms(2,3) t(2) kv_drop_bad
      by (auto simp: op_fmap_def host_drop_bucket_def op_map_err_def)
  next
    fix e t assume t: "t_delete T h (cv_table v) = Inr (Some e, t)" "delete_entry T h v = (Inr (), v\<lparr>cv_table := t\<rparr>)"
    note del = table_delete_get [OF assms(1) t(1)]
    have "handle_of T bk_name t = (handle_of T bk_name (cv_table v))(h := None)"
      by (auto simp: handle_of_def fun_eq_iff del)
    then show ?thesis using assms(2,3) t(2) kv_drop
      by (auto simp: op_fmap_def host_drop_bucket_def op_map_err_def)
  qed
qed

lemma kv_op_refines:
  assumes "table_laws T" and "kv_wf (cv_ctx v)" and "kv_op_step T c v = (r, v')"
  shows "kv_spec (kv_abs_at T v) c r (kv_abs_at T v') \<and> kv_wf (cv_ctx v')"
  using assms(3) by (cases c; hypsubst)
    (erule kv_open_refines [OF assms(1,2)] kv_do_refines [OF assms(1,2)] kv_cas_refines [OF assms(1,2)]
      kv_current_refines [OF assms(1,2)] kv_drop_refines [OF assms(1,2)])+

lemma open_locker_ok:
  assumes "vault_wf w"
  shows "open_locker name w = (Inr \<lparr>lk_identifier = name\<rparr>, snd (open_locker name w))"
    and "vault_view (snd (open_locker name w)) = vault_view w" and "vault_wf (snd (open_locker name w))"
  using assms by (auto simp: open_locker_def Let_def vault_view_def vault_wf_def fun_eq_iff hm_get_entry_or ran_def
      split: if_splits)

lemma locker_at_cases:
  "(\<exists>b. locker_of T t h = Inr b \<and> locker_at T t h = Some (lk_identifier b)) \<or>
   (\<exists>e. locker_of T t h = Inl e \<and> locker_at T t h = None)"
  by (cases "locker_of T t h") (simp_all add: locker_at_def locker_ident_at)

abbreviation "vault_abs_at T v \<equiv> (locker_at T (cv_table v), vault_view (cv_ctx v))"

lemma vault_open_refines:
  assumes "table_laws T" and "vault_wf (cv_ctx v)" and "vault_op_step T (VOpen name) v = (r, v')"
  shows "vault_spec (vault_abs_at T v) (VOpen name) r (vault_abs_at T v') \<and> vault_wf (cv_ctx v')"
proof -
  let ?v = "v\<lparr>cv_ctx := snd (open_locker name (cv_ctx v))\<rparr>" and ?b = "ELocker \<lparr>lk_identifier = name\<rparr>"
  note ok = open_locker_ok [OF assms(2), of name]
  have run: "vault_open T open_locker name v = op_map_err vault_from_table (push_entry T ?b) ?v"
    using on_ctx_run [of "open_locker name" v, OF ok(1)] by (simp add: vault_open_def)
  show ?thesis
  proof (rule push_entry_cases [of T ?b ?v])
    fix e assume "push_entry T ?b ?v = (Inl e, ?v)"
    then have "r = Inl (vault_from_table e)" "v' = ?v" using assms(3) run by (auto simp: op_fmap_def op_map_err_def)
    then show ?thesis using ok by (simp add: v_open_full)
  next
    fix h t assume t: "t_push T ?b (cv_table ?v) = Inr (h, t)" "push_entry T ?b ?v = (Inr h, ?v\<lparr>cv_table := t\<rparr>)"
    note push = table_push_get [OF assms(1) t(1)]
    have r: "r = Inr (VrHandle h)" "v' = ?v\<lparr>cv_table := t\<rparr>"
      using assms(3) run t(2) by (auto simp: op_fmap_def op_map_err_def)
    have "locker_at T t j = ((locker_at T (cv_table v))(h \<mapsto> name)) j" for j
      using push by (cases "j = h") (simp_all add: locker_at_def locker_ident_def locker_of_def)
    then have "locker_at T t = (locker_at T (cv_table v))(h \<mapsto> name)" by blast
    moreover have "locker_at T (cv_table v) h = None"
      using push by (simp add: locker_at_def locker_ident_def locker_of_def)
    ultimately show ?thesis
      using ok(2,3) v_open [of "locker_at T (cv_table v)" h] by (simp add: r)
  qed
qed

lemma vault_do_refines:
  assumes "table_laws T" and "vault_wf (cv_ctx v)" and "vault_op_step T (VDo h d) v = (r, v')"
  shows "vault_spec (vault_abs_at T v) (VDo h d) r (vault_abs_at T v') \<and> vault_wf (cv_ctx v')"
proof -
  from locker_at_cases [of T "cv_table v" h] show ?thesis
  proof (elim disjE exE conjE)
    fix b assume b: "locker_of T (cv_table v) h = Inr b" "locker_at T (cv_table v) h = Some (lk_identifier b)"
    obtain out w where w: "vault_step T locker_ops h d v = (Inr out, v\<lparr>cv_ctx := w\<rparr>)" "vault_wf w"
        "out_matches out (fst (spec_cmd (lk_identifier b) d (vault_view (cv_ctx v))))"
        "vault_view w = snd (spec_cmd (lk_identifier b) d (vault_view (cv_ctx v)))"
      using vault.vault_step_ok [OF assms(2) b(1)] by blast
    then have "r = Inr (VrOut out)" "v' = v\<lparr>cv_ctx := w\<rparr>" using assms(3) by (simp_all add: op_fmap_def)
    with v_do [of "locker_at T (cv_table v)" h, OF b(2) w(3)] w show ?thesis by (simp add:)
  next
    fix e assume e: "locker_of T (cv_table v) h = Inl e" "locker_at T (cv_table v) h = None"
    then have "r = Inl (vault_from_table e)" "v' = v"
      using assms(3) vault_step_bad [OF e(1)] by (simp_all add: op_fmap_def)
    with v_bad [of "locker_at T (cv_table v)" h, OF e(2)] assms(2) show ?thesis by (simp add:)
  qed
qed

lemma vault_drop_refines:
  assumes "table_laws T" and "vault_wf (cv_ctx v)" and "vault_op_step T (VDrop h) v = (r, v')"
  shows "vault_spec (vault_abs_at T v) (VDrop h) r (vault_abs_at T v') \<and> vault_wf (cv_ctx v')"
proof -
  show ?thesis
  proof (rule delete_entry_cases [of T h v])
    fix e assume "delete_entry T h v = (Inl e, v)"
    then show ?thesis using assms(2,3) v_drop_bad by (auto simp: op_fmap_def vault_drop_def op_map_err_def)
  next
    fix t assume t: "t_delete T h (cv_table v) = Inr (None, t)" "delete_entry T h v = (Inl WrongType, v\<lparr>cv_table := t\<rparr>)"
    note del = table_delete_get [OF assms(1) t(1)]
    have "locker_at T t j = locker_at T (cv_table v) j" for j
      by (cases "j = h") (simp_all add: locker_at_def locker_ident_def locker_of_def del)
    then have "locker_at T t = locker_at T (cv_table v)" by blast
    then show ?thesis using assms(2,3) t(2) v_drop_bad by (auto simp: op_fmap_def vault_drop_def op_map_err_def)
  next
    fix e t assume t: "t_delete T h (cv_table v) = Inr (Some e, t)" "delete_entry T h v = (Inr (), v\<lparr>cv_table := t\<rparr>)"
    note del = table_delete_get [OF assms(1) t(1)]
    have "locker_at T t j = ((locker_at T (cv_table v))(h := None)) j" for j
      using del by (cases "j = h") (simp_all add: locker_at_def locker_ident_def locker_of_def)
    then have "locker_at T t = (locker_at T (cv_table v))(h := None)" by blast
    then show ?thesis using assms(2,3) t(2) v_drop by (auto simp: op_fmap_def vault_drop_def op_map_err_def)
  qed
qed

lemma vault_op_refines:
  assumes "table_laws T" and "vault_wf (cv_ctx v)" and "vault_op_step T c v = (r, v')"
  shows "vault_spec (vault_abs_at T v) c r (vault_abs_at T v') \<and> vault_wf (cv_ctx v')"
  using assms(3) by (cases c; hypsubst)
    (erule vault_open_refines [OF assms(1,2)] vault_do_refines [OF assms(1,2)] vault_drop_refines [OF assms(1,2)])+

text \<open>A call of another host leaves the state of this one as it was.\<close>

lemma foreign_entry:
  assumes "table_laws T" and "sys_step T U c s = (r, s')"
  shows "(\<exists>a. t_get T k (sx_table s) = Inr a \<and> t_get T k (sx_table s') = Inr a) \<or>
    ((\<forall>a. t_get T k (sx_table s) = Inr a \<longrightarrow> entry_kind a = call_kind c) \<and>
     (\<forall>a. t_get T k (sx_table s') = Inr a \<longrightarrow> entry_kind a = call_kind c))"
  using sys_step_kinds [OF assms, of k] by blast

lemma foreign_get:
  assumes "table_laws T" and "sys_step T U c s = (r, s')" and "call_kind c \<noteq> K"
    and "\<And>a e. proj a = Some e \<Longrightarrow> entry_kind a = K"
  shows "t_get (kind_table wrap proj T) k (sx_table s') = Inr e \<longleftrightarrow> t_get (kind_table wrap proj T) k (sx_table s) = Inr e"
  using foreign_entry [OF assms(1,2), of k] assms(3,4) by (auto simp: kind_table_def res_bind_Inr_iff)

lemma same_entry:
  assumes "\<And>e. x = Inr e \<longleftrightarrow> y = Inr e"
  shows "(\<exists>e. x = Inr e \<and> y = Inr e) \<or> (\<exists>a b. x = Inl a \<and> y = Inl b)"
  using assms [of "projr x"] assms [of "projr y"] by (cases x; cases y) simp_all

lemma foreign_abs:
  assumes "table_laws T" and "sys_step T U c s = (r, s')"
  shows "call_kind c \<noteq> KvHost \<Longrightarrow> kv_abs_of T s' = kv_abs_of T s"
    and "call_kind c \<noteq> VaultHost \<Longrightarrow> vault_abs_of T s' = vault_abs_of T s"
proof -
  assume other: "call_kind c \<noteq> KvHost"
  have get: "t_get (kv_table T) k (sx_table s') = Inr e \<longleftrightarrow> t_get (kv_table T) k (sx_table s) = Inr e" for k e
    by (rule foreign_get [OF assms other]) (rule any_kinds)
  have "handle_of (kv_table T) bk_name (sx_table s') k = handle_of (kv_table T) bk_name (sx_table s) k" for k
    using same_entry [OF get [of k]] by (elim disjE exE conjE)
      (simp_all add: handle_of_def)
  then show "kv_abs_of T s' = kv_abs_of T s"
    using sys_step_others(1) [OF assms(2) other] by (simp add: kv_abs_of_def fun_eq_iff)
next
  assume other: "call_kind c \<noteq> VaultHost"
  have get: "t_get (vault_table T) k (sx_table s') = Inr e \<longleftrightarrow> t_get (vault_table T) k (sx_table s) = Inr e" for k e
    by (rule foreign_get [OF assms other]) (rule any_kinds)
  have "locker_at (vault_table T) (sx_table s') k = locker_at (vault_table T) (sx_table s) k" for k
    using same_entry [OF get [of k]] by (elim disjE exE conjE)
      (simp_all add: locker_at_def locker_ident_def locker_of_def)
  then show "vault_abs_of T s' = vault_abs_of T s"
    using sys_step_others(2) [OF assms(2) other] by (simp add: vault_abs_of_def fun_eq_iff)
qed

lemma own_abs:
  assumes "table_laws T" and "host_call T U c s = (r, s')"
  shows "c = CallKv d \<Longrightarrow> kv_wf (sx_keyvalue s) \<Longrightarrow>
      \<exists>q. r = RetKv q \<and> kv_spec (kv_abs_of T s) d q (kv_abs_of T s') \<and> kv_wf (sx_keyvalue s')"
    and "c = CallVault x \<Longrightarrow> vault_wf (sx_vault s) \<Longrightarrow>
      \<exists>q. r = RetVault q \<and> vault_spec (vault_abs_of T s) x q (vault_abs_of T s') \<and> vault_wf (sx_vault s')"
proof -
  assume c: "c = CallKv d" and wf: "kv_wf (sx_keyvalue s)"
  let ?v = "\<lparr>cv_ctx = sx_keyvalue s, cv_table = sx_table s\<rparr>"
  obtain q v where q: "kv_op_step (kv_table T) d ?v = (q, v)" by (rule prod.exhaust)
  have "table_laws (kv_table T)" by (rule kind_table_laws [OF assms(1)]) simp
  from kv_op_refines [OF this _ q] wf
  show "\<exists>q. r = RetKv q \<and> kv_spec (kv_abs_of T s) d q (kv_abs_of T s') \<and> kv_wf (sx_keyvalue s')"
    using assms(2) c q by (auto simp: kv_abs_of_def keyvalue_view_def in_view_def)
next
  assume c: "c = CallVault x" and wf: "vault_wf (sx_vault s)"
  let ?v = "\<lparr>cv_ctx = sx_vault s, cv_table = sx_table s\<rparr>"
  obtain q v where q: "vault_op_step (vault_table T) x ?v = (q, v)" by (rule prod.exhaust)
  have "table_laws (vault_table T)" by (rule kind_table_laws [OF assms(1)]) simp
  from vault_op_refines [OF this _ q] wf
  show "\<exists>q. r = RetVault q \<and> vault_spec (vault_abs_of T s) x q (vault_abs_of T s') \<and> vault_wf (sx_vault s')"
    using assms(2) c q by (auto simp: vault_abs_of_def vault_view_of_def in_view_def)
qed

lemma own_calls:
  assumes "table_laws T" and "sys_step T U c s = (r, s')"
  shows "c = CallKv d \<Longrightarrow> kv_wf (sx_keyvalue s) \<Longrightarrow> r = RetTrap \<and> s' = s \<or>
      (\<exists>q. r = RetKv q \<and> kv_spec (kv_abs_of T s) d q (kv_abs_of T s')) \<and> kv_wf (sx_keyvalue s')"
    and "c = CallVault x \<Longrightarrow> vault_wf (sx_vault s) \<Longrightarrow> r = RetTrap \<and> s' = s \<or>
      (\<exists>q. r = RetVault q \<and> vault_spec (vault_abs_of T s) x q (vault_abs_of T s')) \<and> vault_wf (sx_vault s')"
  using assms(2) own_abs [OF assms(1)] by (cases rule: sys_step_cases; blast)+

lemma in_view_same:
  "m \<lparr>cv_ctx = ctx s, cv_table = sx_table s\<rparr> = (r, \<lparr>cv_ctx = ctx s, cv_table = sx_table s\<rparr>) \<Longrightarrow>
   in_view ctx set_ctx m s = (r, set_ctx (ctx s) s)"
  by (simp add: in_view_def)

lemma wrong_kv:
  assumes "t_get T (call_handle g) (sx_table s) = Inr a" and "entry_kind a \<noteq> KvHost"
  shows "keyvalue_view (kv_op_step (kv_table T) (KvDo g)) s = (Inl KvNoSuchStore, s)"
proof -
  let ?v = "\<lparr>cv_ctx = sx_keyvalue s, cv_table = sx_table s\<rparr>"
  have "any_kv a = None" using assms(2) by (cases a) simp_all
  then have "handle_of (kv_table T) bk_name (cv_table ?v) (call_handle g) = None"
    using assms(1) by (simp add: handle_of_def kind_table_def)
  from guest_step_no_store [OF this] show ?thesis
    by (simp add: keyvalue_view_def in_view_same op_fmap_def)
qed

lemma wrong_vault:
  assumes "t_get T h (sx_table s) = Inr a" and "entry_kind a \<noteq> VaultHost"
  shows "vault_view_of (vault_op_step (vault_table T) (VDo h d)) s = (Inl (vault_from_table WrongType), s)"
proof -
  let ?v = "\<lparr>cv_ctx = sx_vault s, cv_table = sx_table s\<rparr>"
  have "any_vault a = None" using assms(2) by (cases a) simp_all
  then have "locker_of (vault_table T) (cv_table ?v) h = Inl WrongType"
    using assms(1) by (simp add: locker_of_def kind_table_def)
  from vault_step_bad [OF this] show ?thesis
    by (simp add: vault_view_of_def in_view_same op_fmap_def)
qed

lemma sys_step_same_kind:
  assumes "table_laws T" and "sys_step T U c s = (r, s')"
    and "t_get T k (sx_table s) = Inr a" and "t_get T k (sx_table s') = Inr a'"
  shows "entry_kind a' = entry_kind a"
proof (cases "entry_kind a = call_kind c")
  case True
  then have "\<forall>b. t_get T k (sx_table s) = Inr b \<longrightarrow> entry_kind b = call_kind c" using assms(3) by simp
  from sys_step_kinds(2) [OF assms(1,2) this] show ?thesis using assms(4) True by simp
next
  case False
  from sys_step_kinds(1) [OF assms(1,2,3) False] show ?thesis using assms(4) by simp
qed

lemma host_call_no_trap: "host_call T U c s \<noteq> (RetTrap, s')"
  by (cases c) (auto simp: apfst_def map_prod_def split: prod.splits)

section \<open>Properties\<close>

text \<open>
  C4: Handles keep their type.  A call of one host leaves every entry of another host, and the
  backends of all others, exactly as they were; a handle that stays in use keeps its type, and a
  handle that comes into use has a type of the calling host.  Every call that is made on another
  host's handle is refused without an effect: a destructor by the component model, any other by its
  own typed read, with the error \<open>NoSuchStore\<close> of the key-value operations and the table's
  \<open>WrongType\<close> of the vault.  Whatever the other hosts do, key-value and vault answer as their maps per
  bucket and locker: a call of theirs is one that the specification of the host alone allows, and a
  call of any other host leaves handles and contents of both as they were.
\<close>

theorem handles_typed:
  assumes "table_laws T" and "sys_step T U c s = (r, s')" and "kv_wf (sx_keyvalue s)" and "vault_wf (sx_vault s)"
  shows "(\<forall>k a. t_get T k (sx_table s) = Inr a \<and> entry_kind a \<noteq> call_kind c \<longrightarrow> t_get T k (sx_table s') = Inr a) \<and>
    (\<forall>k a a'. t_get T k (sx_table s) = Inr a \<and> t_get T k (sx_table s') = Inr a' \<longrightarrow> entry_kind a' = entry_kind a) \<and>
    (\<forall>k a. (\<nexists>b. t_get T k (sx_table s) = Inr b) \<and> t_get T k (sx_table s') = Inr a \<longrightarrow> entry_kind a = call_kind c) \<and>
    (call_kind c \<noteq> KvHost \<longrightarrow> sx_keyvalue s' = sx_keyvalue s) \<and> (call_kind c \<noteq> VaultHost \<longrightarrow> sx_vault s' = sx_vault s) \<and>
    (call_kind c \<noteq> BlobHost \<longrightarrow> sx_blobstore s' = sx_blobstore s) \<and> (call_kind c \<noteq> MsgHost \<longrightarrow> sx_messaging s' = sx_messaging s) \<and>
    (call_kind c \<noteq> SqlHost \<longrightarrow> sx_sql s' = sx_sql s) \<and> (call_kind c \<noteq> IdentityHost \<longrightarrow> sx_identity s' = sx_identity s) \<and>
    (call_kind c \<noteq> WsHost \<longrightarrow> sx_websockets s' = sx_websockets s) \<and>
    (\<forall>h a. call_self c = Some h \<and> t_get T h (sx_table s) = Inr a \<and> entry_kind a \<noteq> call_kind c \<longrightarrow> refused r \<and> s' = s) \<and>
    (\<forall>g a. c = CallKv (KvDo g) \<and> t_get T (call_handle g) (sx_table s) = Inr a \<and> entry_kind a \<noteq> KvHost \<longrightarrow>
       r = RetKv (Inl KvNoSuchStore)) \<and>
    (\<forall>h d a. c = CallVault (VDo h d) \<and> t_get T h (sx_table s) = Inr a \<and> entry_kind a \<noteq> VaultHost \<longrightarrow>
       r = RetVault (Inl (vault_from_table WrongType))) \<and>
    (\<forall>d. c = CallKv d \<and> r \<noteq> RetTrap \<longrightarrow> (\<exists>q. r = RetKv q \<and> kv_spec (kv_abs_of T s) d q (kv_abs_of T s'))) \<and>
    (\<forall>d. c = CallVault d \<and> r \<noteq> RetTrap \<longrightarrow> (\<exists>q. r = RetVault q \<and> vault_spec (vault_abs_of T s) d q (vault_abs_of T s'))) \<and>
    (r = RetTrap \<longrightarrow> foreign_drop T c s) \<and>
    (call_kind c \<noteq> KvHost \<longrightarrow> kv_abs_of T s' = kv_abs_of T s) \<and>
    (call_kind c \<noteq> VaultHost \<longrightarrow> vault_abs_of T s' = vault_abs_of T s)"
proof -
  note kinds = sys_step_kinds [OF assms(1,2)] and others = sys_step_others [OF assms(2)]
    and refuse = sys_step_refused [OF assms(2)] and foreign = foreign_abs [OF assms(1,2)]
    and own = own_calls(1) [OF assms(1,2) _ assms(3)] own_calls(2) [OF assms(1,2) _ assms(4)]
  have same: "entry_kind a' = entry_kind a" if "t_get T k (sx_table s) = Inr a" "t_get T k (sx_table s') = Inr a'" for k a a'
    by (rule sys_step_same_kind [OF assms(1,2) that])
  have fresh: "entry_kind a = call_kind c" if "\<nexists>b. t_get T k (sx_table s) = Inr b" "t_get T k (sx_table s') = Inr a" for k a
    using kinds(2) [of k] that by auto
  have kv: "r = RetKv (Inl KvNoSuchStore)"
    if "c = CallKv (KvDo g)" "t_get T (call_handle g) (sx_table s) = Inr a" "entry_kind a \<noteq> KvHost" for g a
    using assms(2) wrong_kv [OF that(2,3)] that(1) by (simp add: sys_step_def foreign_drop_def call_drops_def)
  have vault: "r = RetVault (Inl (vault_from_table WrongType))"
    if "c = CallVault (VDo h d)" "t_get T h (sx_table s) = Inr a" "entry_kind a \<noteq> VaultHost" for h d a
    using assms(2) wrong_vault [OF that(2,3)] that(1) by (simp add: sys_step_def foreign_drop_def call_drops_def)
  have trap: "r = RetTrap \<longrightarrow> foreign_drop T c s"
    using assms(2) by (auto simp: sys_step_def host_call_no_trap split: if_splits)
  show ?thesis
    by (intro conjI)
      (use kinds(1) in blast, use same in blast, use fresh in blast, use others in simp_all,
        use refuse in blast, use kv in blast, use vault in blast, use own(1) in blast, use own(2) in blast,
        rule trap, use foreign in simp_all)
qed

text \<open>A store with a bucket, a locker and a message, and its surroundings.\<close>

definition demo_surroundings :: "(nat, dyn_message list, unit, unit, int, int) surroundings" where
  "demo_surroundings = \<lparr>su_sender = log_sender, su_sqlite = demo_sqlite, su_path = ''db'', su_widen = (\<lambda>f. f),
     su_request = (\<lambda>_. Inl (Anyhow ''offline'')), su_ws = demo_ws_env\<rparr>"

definition demo_store :: "(nat, dyn_message list, unit, (unit, int, int) any_entry option list) store_ctx" where
  "demo_store = \<lparr>sx_table = [Some (AnyKv (EBucket \<lparr>bk_name = ''b''\<rparr>)), Some (AnyVault (ELocker \<lparr>lk_identifier = ''l''\<rparr>)),
       Some (AnyMsg (MProxy (InMem demo_message)))],
     sx_keyvalue = [(''b'', [])], sx_vault = [(''l'', [(''s'', [9])])], sx_blobstore = blob_connect_with,
     sx_messaging = [], sx_sql = (), sx_identity = token_manager_new 0, sx_websockets = demo_ws\<rparr>"

theorem handles_typed_witness:
  "\<exists>s'. sys_step slot_table demo_surroundings (CallKv (KvDo (KSet 1 ''k'' [1]))) demo_store = (RetKv (Inl KvNoSuchStore), s') \<and>
     s' = demo_store \<and> sx_vault s' = [(''l'', [(''s'', [9])])]"
proof -
  let ?c = "CallKv (KvDo (KSet 1 ''k'' [1])) :: (int, int) sys_call"
  obtain r s' where step: "sys_step slot_table demo_surroundings ?c demo_store = (r, s')" by (rule prod.exhaust)
  have wf: "kv_wf (sx_keyvalue demo_store)" "vault_wf (sx_vault demo_store)"
    by (simp_all add: demo_store_def kv_wf_def vault_wf_def hm_wf_def)
  have self: "call_self ?c = Some 1" "t_get slot_table 1 (sx_table demo_store) = Inr (AnyVault (ELocker \<lparr>lk_identifier = ''l''\<rparr>))"
    by (simp_all add: demo_store_def slot_table_def slot_get_def call_self_def)
  have "(\<forall>h a. call_self ?c = Some h \<and> t_get slot_table h (sx_table demo_store) = Inr a \<and> entry_kind a \<noteq> call_kind ?c \<longrightarrow>
      refused r \<and> s' = demo_store) \<and>
    (\<forall>g a. ?c = CallKv (KvDo g) \<and> t_get slot_table (call_handle g) (sx_table demo_store) = Inr a \<and>
      entry_kind a \<noteq> KvHost \<longrightarrow> r = RetKv (Inl KvNoSuchStore))"
    using handles_typed [OF slot_table_laws step wf] by (elim conjE) (intro conjI)
  with self have "r = RetKv (Inl KvNoSuchStore)" "s' = demo_store" by force+
  with step show ?thesis by (simp add: demo_store_def)
qed

end
