(* ===== verification/Instances.thy ===== *)
theory Instances
  imports HostSessions
begin

text \<open>
  Many guests on one runtime.  A server instantiates the component for every request or message, and
  \<open>State::store\<close> (\<open>runtime-macro/src/expand.rs\<close>) gives each instance a store of its own: a new resource
  table, and clones of the backends, which share their data behind an \<open>Arc\<close>, a broadcast channel, a
  static map or a database.

  The steps interleave whole handler calls of different instances; \<open>table0\<close> is \<open>ResourceTable::new\<close>.
\<close>

section \<open>The store of an instance\<close>

text \<open>The backends that an instance shares with the others, as a store without a table.\<close>

type_synonym ('a, 'm, 'q) backends = "('a, 'm, 'q, unit) store_ctx"

definition with_table :: "'t \<Rightarrow> ('a, 'm, 'q, 's) store_ctx \<Rightarrow> ('a, 'm, 'q, 't) store_ctx" where
  "with_table t s = \<lparr>sx_table = t, sx_keyvalue = sx_keyvalue s, sx_vault = sx_vault s, sx_blobstore = sx_blobstore s,
     sx_messaging = sx_messaging s, sx_sql = sx_sql s, sx_identity = sx_identity s, sx_websockets = sx_websockets s\<rparr>"

definition state_store :: "'t \<Rightarrow> ('a, 'm, 'q) backends \<Rightarrow> ('a, 'm, 'q, 't) store_ctx" where
  "state_store table0 b = with_table table0 b"

record ('a, 'm, 'q, 't) live_runtime =
  lr_backends :: "('a, 'm, 'q) backends"
  lr_tables :: "nat \<Rightarrow> 't option"          \<comment> \<open>of the instances that run\<close>

datatype ('f, 'd) life = Instantiate nat | Calls nat "('f, 'd) sys_call" | Ends nat

datatype sys_event = EvStart nat | EvCall nat sys_ret | EvEnd nat | EvNone

fun life_step ::
  "('t, ('c, 'f, 'd) any_entry) table_ops \<Rightarrow> ('a, 'm, 'q, 'c, 'f, 'd) surroundings \<Rightarrow> 't \<Rightarrow> ('f, 'd) life \<Rightarrow>
   ('a, 'm, 'q, 't) live_runtime \<Rightarrow> sys_event \<times> ('a, 'm, 'q, 't) live_runtime" where
  "life_step T U table0 (Instantiate i) R = (let s = state_store table0 (lr_backends R)
     in (EvStart i, R\<lparr>lr_backends := with_table () s, lr_tables := (lr_tables R)(i \<mapsto> sx_table s)\<rparr>))"
| "life_step T U table0 (Calls i c) R = (case lr_tables R i of
      None \<Rightarrow> (EvNone, R)
    | Some t \<Rightarrow> (case sys_step T U c (with_table t (lr_backends R)) of
        (r, s) \<Rightarrow> (EvCall i r, R\<lparr>lr_backends := with_table () s, lr_tables := (lr_tables R)(i \<mapsto> sx_table s)\<rparr>)))"
| "life_step T U table0 (Ends i) R = (EvEnd i, R\<lparr>lr_tables := (lr_tables R)(i := None)\<rparr>)"

fun life_run ::
  "('t, ('c, 'f, 'd) any_entry) table_ops \<Rightarrow> ('a, 'm, 'q, 'c, 'f, 'd) surroundings \<Rightarrow> 't \<Rightarrow> ('f, 'd) life list \<Rightarrow>
   ('a, 'm, 'q, 't) live_runtime \<Rightarrow> sys_event list \<times> ('a, 'm, 'q, 't) live_runtime" where
  "life_run T U table0 [] R = ([], R)"
| "life_run T U table0 (l # ls) R =
     (case life_step T U table0 l R of (e, R1) \<Rightarrow>
      case life_run T U table0 ls R1 of (es, R2) \<Rightarrow> (e # es, R2))"

section \<open>What the instances are promised\<close>

text \<open>
  The handles of every instance, and the data they all share.  \<open>act\<close> is a call of a host with its
  result; the specification of a host alone, \<open>kv_spec\<close> or \<open>vault_spec\<close>, says what it may do.
\<close>

type_synonym shared_abs = "(nat \<Rightarrow> nat \<Rightarrow> string option) \<times> string spec_state"

datatype 'act shared_event = Begins nat | Acts nat 'act | Stops nat

inductive shared_session ::
  "(kv_abs \<Rightarrow> 'act \<Rightarrow> kv_abs \<Rightarrow> bool) \<Rightarrow> shared_abs \<Rightarrow> 'act shared_event list \<Rightarrow> shared_abs \<Rightarrow> bool" for spec where
  sh_end: "shared_session spec A [] A"
| sh_begins: "shared_session spec (H(i := Map.empty), m) evs A \<Longrightarrow> shared_session spec (H, m) (Begins i # evs) A"
| sh_acts: "spec (H i, m) act (h, m') \<Longrightarrow> shared_session spec (H(i := h), m') evs A \<Longrightarrow>
    shared_session spec (H, m) (Acts i act # evs) A"
| sh_stops: "shared_session spec (H(i := Map.empty), m) evs A \<Longrightarrow> shared_session spec (H, m) (Stops i # evs) A"

fun kv_acts :: "('f, 'd) life list \<Rightarrow> sys_event list \<Rightarrow> (kv_op \<times> (kv_error + kv_ret)) shared_event list" where
  "kv_acts (Calls i (CallKv c) # ls) (EvCall j (RetKv r) # es) = Acts i (c, r) # kv_acts ls es"
| "kv_acts (Instantiate i # ls) (e # es) = Begins i # kv_acts ls es"
| "kv_acts (Ends i # ls) (e # es) = Stops i # kv_acts ls es"
| "kv_acts (l # ls) (e # es) = kv_acts ls es"
| "kv_acts ls es = []"

fun vault_acts :: "('f, 'd) life list \<Rightarrow> sys_event list \<Rightarrow> (vault_op \<times> (vault_error + vault_ret)) shared_event list" where
  "vault_acts (Calls i (CallVault c) # ls) (EvCall j (RetVault r) # es) = Acts i (c, r) # vault_acts ls es"
| "vault_acts (Instantiate i # ls) (e # es) = Begins i # vault_acts ls es"
| "vault_acts (Ends i # ls) (e # es) = Stops i # vault_acts ls es"
| "vault_acts (l # ls) (e # es) = vault_acts ls es"
| "vault_acts ls es = []"

definition kv_shared_of :: "('t, ('c, 'f, 'd) any_entry) table_ops \<Rightarrow> ('a, 'm, 'q, 't) live_runtime \<Rightarrow> shared_abs" where
  "kv_shared_of T R = (\<lambda>i. case lr_tables R i of None \<Rightarrow> Map.empty | Some t \<Rightarrow> handle_of (kv_table T) bk_name t,
     kv_view (sx_keyvalue (lr_backends R)))"

definition vault_shared_of :: "('t, ('c, 'f, 'd) any_entry) table_ops \<Rightarrow> ('a, 'm, 'q, 't) live_runtime \<Rightarrow> shared_abs" where
  "vault_shared_of T R = (\<lambda>i. case lr_tables R i of None \<Rightarrow> Map.empty | Some t \<Rightarrow> locker_at (vault_table T) t,
     vault_view (sx_vault (lr_backends R)))"

definition backends_wf :: "('a, 'm, 'q) backends \<Rightarrow> bool" where
  "backends_wf b \<longleftrightarrow> kv_wf (sx_keyvalue b) \<and> vault_wf (sx_vault b)"

lemma with_table_simps [simp]:
  "sx_table (with_table t s) = t" "sx_keyvalue (with_table t s) = sx_keyvalue s" "sx_vault (with_table t s) = sx_vault s"
  "with_table t (with_table u s) = with_table t s"
  by (simp_all add: with_table_def)

lemma kind_table_empty:
  assumes "\<And>h. \<exists>e. t_get T h table0 = Inl e"
  shows "\<exists>e. t_get (kind_table wrap proj T) h table0 = Inl e"
  using assms [of h] by (auto simp: kind_table_def)

lemma empty_handles:
  assumes "\<And>h. \<exists>e. t_get T h table0 = Inl e"
  shows "handle_of (kv_table T) bk_name table0 = Map.empty" and "locker_at (vault_table T) table0 = Map.empty"
proof -
  show "handle_of (kv_table T) bk_name table0 = Map.empty"
  proof
    fix h
    obtain e where "t_get (kv_table T) h table0 = Inl e" using kind_table_empty [OF assms] by blast
    then show "handle_of (kv_table T) bk_name table0 h = None" by (simp add: handle_of_def)
  qed
  show "locker_at (vault_table T) table0 = Map.empty"
  proof
    fix h
    obtain e where "t_get (vault_table T) h table0 = Inl e" using kind_table_empty [OF assms] by blast
    then show "locker_at (vault_table T) table0 h = None" by (simp add: locker_at_def locker_ident_def locker_of_def)
  qed
qed

text \<open>A call of instance \<open>i\<close>, as the specifications of the hosts see it.\<close>

lemma call_abs:
  fixes R :: "('a, 'm, 'q, 't) live_runtime"
  assumes "lr_tables R i = Some t"
  shows "kv_shared_of T R = (H, m) \<Longrightarrow> (H i, m) = kv_abs_of T (with_table t (lr_backends R))"
    and "vault_shared_of T R = (H, m) \<Longrightarrow> (H i, m) = vault_abs_of T (with_table t (lr_backends R))"
    and "kv_shared_of T (R\<lparr>lr_backends := with_table () s, lr_tables := (lr_tables R)(i \<mapsto> sx_table s)\<rparr>) =
      ((fst (kv_shared_of T R))(i := fst (kv_abs_of T s)), snd (kv_abs_of T s))"
    and "vault_shared_of T (R\<lparr>lr_backends := with_table () s, lr_tables := (lr_tables R)(i \<mapsto> sx_table s)\<rparr>) =
      ((fst (vault_shared_of T R))(i := fst (vault_abs_of T s)), snd (vault_abs_of T s))"
proof -
  note defs = kv_shared_of_def vault_shared_of_def kv_abs_of_def vault_abs_of_def
  show "(H i, m) = kv_abs_of T (with_table t (lr_backends R))" if "kv_shared_of T R = (H, m)"
    using that assms by (auto simp: defs)
  show "(H i, m) = vault_abs_of T (with_table t (lr_backends R))" if "vault_shared_of T R = (H, m)"
    using that assms by (auto simp: defs)
qed (auto simp: kv_shared_of_def vault_shared_of_def kv_abs_of_def vault_abs_of_def fun_eq_iff)

lemma call_same:
  assumes "lr_tables R i = Some t"
  shows "kv_abs_of T s = kv_abs_of T (with_table t (lr_backends R)) \<Longrightarrow>
      kv_shared_of T (R\<lparr>lr_backends := with_table () s, lr_tables := (lr_tables R)(i \<mapsto> sx_table s)\<rparr>) = kv_shared_of T R"
    and "vault_abs_of T s = vault_abs_of T (with_table t (lr_backends R)) \<Longrightarrow>
      vault_shared_of T (R\<lparr>lr_backends := with_table () s, lr_tables := (lr_tables R)(i \<mapsto> sx_table s)\<rparr>) = vault_shared_of T R"
  using assms by (auto simp: kv_shared_of_def vault_shared_of_def kv_abs_of_def vault_abs_of_def fun_eq_iff)

text \<open>One step of the runtime: the start, the end and the calls of an instance.\<close>

abbreviation "kv_session \<equiv> shared_session (\<lambda>A (c, r) A'. kv_spec A c r A')"

abbreviation "vault_session \<equiv> shared_session (\<lambda>A (c, r) A'. vault_spec A c r A')"

lemma with_table_unit [simp]: "with_table () (b :: ('a, 'm, 'q) backends) = b"
  by (simp add: with_table_def)

lemma start_step:
  assumes "\<And>h. \<exists>e. t_get T h table0 = Inl e" and "life_step T U table0 (Instantiate i) R = (e, R1)"
  shows "lr_backends R1 = lr_backends R"
    and "kv_shared_of T R1 = ((fst (kv_shared_of T R))(i := Map.empty), snd (kv_shared_of T R))"
    and "vault_shared_of T R1 = ((fst (vault_shared_of T R))(i := Map.empty), snd (vault_shared_of T R))"
proof -
  have "R1 = R\<lparr>lr_tables := (lr_tables R)(i \<mapsto> table0)\<rparr>" using assms(2) by (auto simp: state_store_def Let_def)
  then show "lr_backends R1 = lr_backends R"
    "kv_shared_of T R1 = ((fst (kv_shared_of T R))(i := Map.empty), snd (kv_shared_of T R))"
    "vault_shared_of T R1 = ((fst (vault_shared_of T R))(i := Map.empty), snd (vault_shared_of T R))"
    using empty_handles [OF assms(1)] by (auto simp: kv_shared_of_def vault_shared_of_def fun_eq_iff)
qed

lemma end_step:
  assumes "life_step T U table0 (Ends i) R = (e, R1)"
  shows "lr_backends R1 = lr_backends R"
    and "kv_shared_of T R1 = ((fst (kv_shared_of T R))(i := Map.empty), snd (kv_shared_of T R))"
    and "vault_shared_of T R1 = ((fst (vault_shared_of T R))(i := Map.empty), snd (vault_shared_of T R))"
  using assms by (auto simp: kv_shared_of_def vault_shared_of_def fun_eq_iff)

lemma call_step_wf:
  assumes "sys_step T U c (with_table t (lr_backends R)) = (r, s)" and "table_laws T" and "backends_wf (lr_backends R)"
  shows "backends_wf (with_table () s)"
proof -
  let ?s = "with_table t (lr_backends R)"
  have wf: "kv_wf (sx_keyvalue ?s)" "vault_wf (sx_vault ?s)" using assms(3) by (simp_all add: backends_wf_def)
  note own = own_calls [OF assms(2,1)] and others = sys_step_others [OF assms(1)]
  show ?thesis
  proof (cases c)
    case (CallKv d)
    then show ?thesis using own(1) [OF CallKv wf(1)] others(2) wf by (auto simp: backends_wf_def)
  next
    case (CallVault x)
    then show ?thesis using own(2) [OF CallVault wf(2)] others(1) wf by (auto simp: backends_wf_def)
  qed (use others wf in \<open>auto simp: backends_wf_def\<close>)
qed

lemma call_step:
  assumes "sys_step T U c (with_table t (lr_backends R)) = (r, s)" and "table_laws T" and "backends_wf (lr_backends R)"
    and "lr_tables R i = Some t" and R1: "R1 = R\<lparr>lr_backends := with_table () s, lr_tables := (lr_tables R)(i \<mapsto> sx_table s)\<rparr>"
  shows "call_kind c \<noteq> KvHost \<Longrightarrow> kv_shared_of T R1 = kv_shared_of T R"
    and "call_kind c \<noteq> VaultHost \<Longrightarrow> vault_shared_of T R1 = vault_shared_of T R"
    and "r = RetTrap \<Longrightarrow> kv_shared_of T R1 = kv_shared_of T R \<and> vault_shared_of T R1 = vault_shared_of T R"
    and "c = CallKv d \<Longrightarrow> r \<noteq> RetTrap \<Longrightarrow> \<exists>q. r = RetKv q \<and>
      (\<forall>evs A. kv_session (kv_shared_of T R1) evs A \<longrightarrow> kv_session (kv_shared_of T R) (Acts i (d, q) # evs) A)"
    and "c = CallVault x \<Longrightarrow> r \<noteq> RetTrap \<Longrightarrow> \<exists>q. r = RetVault q \<and>
      (\<forall>evs A. vault_session (vault_shared_of T R1) evs A \<longrightarrow> vault_session (vault_shared_of T R) (Acts i (x, q) # evs) A)"
proof -
  let ?s = "with_table t (lr_backends R)"
  have wf: "kv_wf (sx_keyvalue ?s)" "vault_wf (sx_vault ?s)" using assms(3) by (simp_all add: backends_wf_def)
  obtain Hk mk Hv mv where abs: "kv_shared_of T R = (Hk, mk)" "vault_shared_of T R = (Hv, mv)" by (meson prod.exhaust)
  note own = own_calls [OF assms(2,1)] and foreign = foreign_abs [OF assms(2,1)]
  note before = call_abs(1) [OF assms(4) abs(1)] call_abs(2) [OF assms(4) abs(2)]
    and after = call_abs(3,4) [OF assms(4), of T s] and same = call_same [OF assms(4), of T s]
  show "kv_shared_of T R1 = kv_shared_of T R" if "call_kind c \<noteq> KvHost" using same(1) foreign(1) that by (simp add: R1)
  show "vault_shared_of T R1 = vault_shared_of T R" if "call_kind c \<noteq> VaultHost" using same(2) foreign(2) that by (simp add: R1)
  have "s = ?s" if "r = RetTrap" using assms(1) that by (auto simp: sys_step_def host_call_no_trap split: if_splits)
  then show "kv_shared_of T R1 = kv_shared_of T R \<and> vault_shared_of T R1 = vault_shared_of T R" if "r = RetTrap"
    using same that by (simp add: R1)
  show "\<exists>q. r = RetKv q \<and>
      (\<forall>evs A. kv_session (kv_shared_of T R1) evs A \<longrightarrow> kv_session (kv_shared_of T R) (Acts i (d, q) # evs) A)"
    if kv: "c = CallKv d" "r \<noteq> RetTrap"
  proof -
    obtain q where "r = RetKv q" "kv_spec (kv_abs_of T ?s) d q (kv_abs_of T s)" using own(1) [OF kv(1) wf(1)] kv(2) by blast
    then show ?thesis unfolding R1 after abs before(1) [symmetric]
      by (auto intro: sh_acts [where h = "fst (kv_abs_of T s)" and m' = "snd (kv_abs_of T s)"])
  qed
  show "\<exists>q. r = RetVault q \<and>
      (\<forall>evs A. vault_session (vault_shared_of T R1) evs A \<longrightarrow> vault_session (vault_shared_of T R) (Acts i (x, q) # evs) A)"
    if vault: "c = CallVault x" "r \<noteq> RetTrap"
  proof -
    obtain q where "r = RetVault q" "vault_spec (vault_abs_of T ?s) x q (vault_abs_of T s)"
      using own(2) [OF vault(1) wf(2)] vault(2) by blast
    then show ?thesis unfolding R1 after abs before(2) [symmetric]
      by (auto intro: sh_acts [where h = "fst (vault_abs_of T s)" and m' = "snd (vault_abs_of T s)"])
  qed
qed

section \<open>Properties\<close>

text \<open>
  C7: Instances share data and no handles.  However the instances of a runtime start, call its hosts
  and end, their key-value calls with the results are a session of one key-value store that all
  share, in which every instance has handles of its own, none at its start; and so are the calls of
  the vault.
\<close>

theorem instances_share_data:
  assumes "table_laws T" and "\<And>h. \<exists>e. t_get T h table0 = Inl e" and "backends_wf (lr_backends R)"
    and "life_run T U table0 ls R = (es, R')"
  shows "shared_session (\<lambda>A (c, r) A'. kv_spec A c r A') (kv_shared_of T R) (kv_acts ls es) (kv_shared_of T R') \<and>
    shared_session (\<lambda>A (c, r) A'. vault_spec A c r A') (vault_shared_of T R) (vault_acts ls es) (vault_shared_of T R') \<and>
    backends_wf (lr_backends R')"
  using assms(3,4)
proof (induction ls arbitrary: R es)
  case Nil
  then show ?case by (simp add: sh_end)
next
  case (Cons l ls)
  obtain e R1 es1 where step: "life_step T U table0 l R = (e, R1)" and run: "life_run T U table0 ls R1 = (es1, R')" and es: "es = e # es1"
    using Cons.prems(2) by (auto split: prod.splits)
  note ih = Cons.IH [OF _ run]
  show ?case
  proof (cases l)
    case (Instantiate i)
    note first = start_step [OF assms(2) step [unfolded Instantiate]]
    from ih first Cons.prems(1) show ?thesis
      by (cases "kv_shared_of T R"; cases "vault_shared_of T R") (auto simp: es Instantiate intro: sh_begins)
  next
    case (Ends i)
    note last = end_step [OF step [unfolded Ends]]
    from ih last Cons.prems(1) show ?thesis
      by (cases "kv_shared_of T R"; cases "vault_shared_of T R") (auto simp: es Ends intro: sh_stops)
  next
    case (Calls i c)
    show ?thesis
    proof (cases "lr_tables R i")
      case None
      then have "R1 = R" "kv_acts (l # ls) es = kv_acts ls es1" "vault_acts (l # ls) es = vault_acts ls es1"
        using step Calls by (cases c; auto simp: es)+
      with ih Cons.prems(1) show ?thesis by simp
    next
      case (Some t)
      obtain r s where s: "sys_step T U c (with_table t (lr_backends R)) = (r, s)" by (rule prod.exhaust)
      with step Some Calls have R1: "R1 = R\<lparr>lr_backends := with_table () s, lr_tables := (lr_tables R)(i \<mapsto> sx_table s)\<rparr>"
        and e: "e = EvCall i r" by simp_all
      have wf: "backends_wf (lr_backends R1)" using call_step_wf [OF s assms(1) Cons.prems(1)] by (simp add: R1)
      note calls = call_step [OF s assms(1) Cons.prems(1) Some R1]
      show ?thesis
      proof (cases "r = RetTrap")
        case True
        then have "kv_acts (l # ls) es = kv_acts ls es1" "vault_acts (l # ls) es = vault_acts ls es1"
          by (cases c; simp add: es e Calls)+
        with ih [OF wf] calls(3) [OF True] show ?thesis by simp
      next
        case False
        with ih [OF wf] calls show ?thesis by (cases c) (auto simp: es e Calls simp del: split_paired_All)
      qed
    qed
  qed
qed

text \<open>One instance stores a value and ends; the next one finds it, through a handle of its own.\<close>

definition demo_backends :: "(nat, dyn_message list, unit) backends" where
  "demo_backends = with_table () (demo_store\<lparr>sx_keyvalue := []\<rparr>)"

definition demo_lives :: "(int, int) life list" where
  "demo_lives = [Instantiate 1, Calls 1 (CallKv (KvOpen ''b'')), Calls 1 (CallKv (KvDo (KSet 0 ''k'' [1]))), Ends 1,
     Instantiate 2, Calls 2 (CallKv (KvDo (KGet 0 ''k''))), Calls 2 (CallVault (VDo 0 (CGet ''s''))),
     Calls 2 (CallKv (KvOpen ''b'')), Calls 2 (CallKv (KvDo (KGet 0 ''k'')))]"

theorem instances_share_data_witness:
  "\<exists>R' :: (nat, dyn_message list, unit, (unit, int, int) any_entry option list) live_runtime.
     shared_session (\<lambda>A (c, r) A'. kv_spec A c r A') (\<lambda>i. Map.empty, kv_view [])
       [Begins 1, Acts 1 (KvOpen ''b'', Inr (KrHandle 0)), Acts 1 (KvDo (KSet 0 ''k'' [1]), Inr (KrOut GoUnit)), Stops 1,
        Begins 2, Acts 2 (KvDo (KGet 0 ''k''), Inl KvNoSuchStore), Acts 2 (KvOpen ''b'', Inr (KrHandle 0)),
        Acts 2 (KvDo (KGet 0 ''k''), Inr (KrOut (GoValue (Some [1]))))] (kv_shared_of slot_table R')"
proof -
  let ?R = "\<lparr>lr_backends = demo_backends, lr_tables = Map.empty\<rparr>
    :: (nat, dyn_message list, unit, (unit, int, int) any_entry option list) live_runtime"
  obtain R' where run: "life_run slot_table demo_surroundings [] demo_lives ?R =
      ([EvStart 1, EvCall 1 (RetKv (Inr (KrHandle 0))), EvCall 1 (RetKv (Inr (KrOut GoUnit))), EvEnd 1, EvStart 2,
        EvCall 2 (RetKv (Inl KvNoSuchStore)), EvCall 2 (RetVault (Inl (vault_from_table NotPresent))),
        EvCall 2 (RetKv (Inr (KrHandle 0))), EvCall 2 (RetKv (Inr (KrOut (GoValue (Some [1])))))], R')"
    by (simp add: demo_lives_def demo_backends_def demo_store_def state_store_def with_table_def view_defs op_fmap_def host_open_def
        sys_step_def foreign_drop_def call_drops_def
        kv_call_def open_bucket_def push_entry_def host_set_def host_get_def get_bucket_def get_entry_def
        kind_table_def slot_table_def slot_get_def kv_call_ctx_def in_mem_ops_def bucket_set_def bucket_get_def
        vault_get_def get_locker_def locker_call_def op_map_err_def
        op_bind_def on_ctx_def hm_entry_update_def hm_entry_or_def hm_insert_def hm_contains_def Let_def)
  have wf: "backends_wf (lr_backends ?R)"
    by (simp add: backends_wf_def demo_backends_def demo_store_def kv_wf_def vault_wf_def hm_wf_def)
  have none: "\<exists>e. t_get slot_table h [] = Inl e" for h by (simp add: slot_table_def slot_get_def)
  have "kv_shared_of slot_table ?R = (\<lambda>i. Map.empty, kv_view [])"
    by (simp add: kv_shared_of_def demo_backends_def demo_store_def)
  with instances_share_data [OF slot_table_laws none wf run] show ?thesis by (intro exI [of _ R']) (simp add: demo_lives_def)
qed

end
