(* ===== verification/Linking.thy ===== *)
theory Linking
  imports Runtime HttpHost WebSockets Messaging
begin

text \<open>
  How the hosts are plugged into a runtime: what each \<open>wasi-*/src/host.rs\<close> links
  (\<open>impl Host for \<dots>\<close>) and runs (\<open>impl Server for \<dots>\<close>), with the loops of the three hosts that are
  servers (\<open>wasi-http/src/host/server.rs\<close>, \<open>wasi-messaging/src/host/server.rs\<close>,
  \<open>wasi-websockets/src/host/server.rs\<close>), composed with the runtime of theory Runtime.

  The generated bindings and the two hosts that wasmtime provides are the record \<open>bindings\<close>;
  \<open>linker_laws\<close> is the documented behaviour of a linker that does not allow shadowing.
\<close>

section \<open>Linking\<close>

datatype wasi_host = WasiBlobstore | WasiConfig | WasiHttp | WasiIdentity | WasiKeyValue | WasiMessaging
  | WasiOtel | WasiSql | WasiVault | WasiWebSockets

record 'l bindings =
  bi_interface :: "string \<Rightarrow> ('l, anyhow, unit) op"   \<comment> \<open>the generated \<open>add_to_linker\<close> of an interface\<close>
  bi_http :: "('l, anyhow, unit) op"                  \<comment> \<open>\<open>wasmtime_wasi_http::p3::add_to_linker\<close>\<close>
  bi_config :: "('l, anyhow, unit) op"                \<comment> \<open>\<open>wasmtime_wasi_config::add_to_linker\<close>\<close>
  bi_http_names :: "string list"
  bi_config_names :: "string list"

definition blobstore_add_to_linker :: "'l bindings \<Rightarrow> ('l, anyhow, unit) op" where
  "blobstore_add_to_linker B = op_for (bi_interface B)
     [''wasi:blobstore/blobstore'', ''wasi:blobstore/container'', ''wasi:blobstore/types'']"

definition config_add_to_linker :: "'l bindings \<Rightarrow> ('l, anyhow, unit) op" where
  "config_add_to_linker B = bi_config B"

definition http_add_to_linker :: "'l bindings \<Rightarrow> ('l, anyhow, unit) op" where
  "http_add_to_linker B = bi_http B"

definition identity_add_to_linker :: "'l bindings \<Rightarrow> ('l, anyhow, unit) op" where
  "identity_add_to_linker B = op_for (bi_interface B) [''wasi:identity/credentials'']"

definition keyvalue_add_to_linker :: "'l bindings \<Rightarrow> ('l, anyhow, unit) op" where
  "keyvalue_add_to_linker B = op_for (bi_interface B)
     [''wasi:keyvalue/store'', ''wasi:keyvalue/atomics'', ''wasi:keyvalue/batch'']"

definition messaging_add_to_linker :: "'l bindings \<Rightarrow> ('l, anyhow, unit) op" where
  "messaging_add_to_linker B = op_for (bi_interface B)
     [''wasi:messaging/producer'', ''wasi:messaging/request-reply'', ''wasi:messaging/types'']"

definition otel_add_to_linker :: "'l bindings \<Rightarrow> ('l, anyhow, unit) op" where
  "otel_add_to_linker B = op_for (bi_interface B)
     [''wasi:otel/tracing'', ''wasi:otel/metrics'', ''wasi:otel/types'', ''wasi:otel/resource'']"

definition sql_add_to_linker :: "'l bindings \<Rightarrow> ('l, anyhow, unit) op" where
  "sql_add_to_linker B = op_for (bi_interface B) [''wasi:sql/readwrite'', ''wasi:sql/types'']"

definition vault_add_to_linker :: "'l bindings \<Rightarrow> ('l, anyhow, unit) op" where
  "vault_add_to_linker B = op_for (bi_interface B) [''wasi:vault/vault'']"

definition websockets_add_to_linker :: "'l bindings \<Rightarrow> ('l, anyhow, unit) op" where
  "websockets_add_to_linker B = op_for (bi_interface B) [''wasi:websockets/store'']"

fun host_add_to_linker :: "'l bindings \<Rightarrow> wasi_host \<Rightarrow> ('l, anyhow, unit) op" where
  "host_add_to_linker B WasiBlobstore = blobstore_add_to_linker B"
| "host_add_to_linker B WasiConfig = config_add_to_linker B"
| "host_add_to_linker B WasiHttp = http_add_to_linker B"
| "host_add_to_linker B WasiIdentity = identity_add_to_linker B"
| "host_add_to_linker B WasiKeyValue = keyvalue_add_to_linker B"
| "host_add_to_linker B WasiMessaging = messaging_add_to_linker B"
| "host_add_to_linker B WasiOtel = otel_add_to_linker B"
| "host_add_to_linker B WasiSql = sql_add_to_linker B"
| "host_add_to_linker B WasiVault = vault_add_to_linker B"
| "host_add_to_linker B WasiWebSockets = websockets_add_to_linker B"

section \<open>The servers\<close>

text \<open>
  The network: what \<open>bind\<close> and \<open>local_addr\<close> answer, and what the listeners yield from then on.  A
  socket that was reset right after it was accepted has no peer address any more.
\<close>

datatype 'c ws_accepted = WsAccepted 'c | WsAcceptFailed anyhow | WsNoPeer 'c

record 'c network =
  nw_bind :: "string \<Rightarrow> anyhow + unit"
  nw_local_addr :: "anyhow + unit"
  nw_http :: "'c accepted list"
  nw_websockets :: "'c ws_accepted list"

definition http_address :: "(string, string) hashmap \<Rightarrow> string" where
  "http_address env = (case hm_get env ''HTTP_ADDR'' of None \<Rightarrow> ''0.0.0.0:8080'' | Some addr \<Rightarrow> addr)"

text \<open>The connections handed to tasks, and the error that ended the server, if any.\<close>

definition http_serve :: "'c network \<Rightarrow> (string, string) hashmap \<Rightarrow> 'c list \<times> anyhow option" where
  "http_serve N env = (case nw_bind N (http_address env) of
      Inl e \<Rightarrow> ([], Some e)
    | Inr _ \<Rightarrow> accept_loop (nw_http N))"

fun ws_accept_loop :: "'c ws_accepted list \<Rightarrow> 'c list \<times> ws_fault option" where
  "ws_accept_loop [] = ([], None)"
| "ws_accept_loop (WsAccepted c # rest) = (case ws_accept_loop rest of (cs, e) \<Rightarrow> (c # cs, e))"
| "ws_accept_loop (WsAcceptFailed e # rest) = ([], Some (WsErr e))"
| "ws_accept_loop (WsNoPeer c # rest) = ([], Some WsPanic)"

definition ws_serve :: "'c network \<Rightarrow> (string, string) hashmap \<Rightarrow> 'c list \<times> ws_fault option" where
  "ws_serve N env = (case nw_bind N (ws_address env) of
      Inl e \<Rightarrow> ([], Some (WsErr e))
    | Inr _ \<Rightarrow> (case nw_local_addr N of
          Inl e \<Rightarrow> ([], Some (WsErr e))
        | Inr _ \<Rightarrow> ws_accept_loop (nw_websockets N)))"

text \<open>
  The messaging server: \<open>subscriptions\<close> connects a client and subscribes; the loop over the messages
  is theory MessagingServer, and \<open>closed\<close> says whether their stream has ended.
\<close>

definition subscriptions :: "anyhow + 'client \<Rightarrow> ('client \<Rightarrow> anyhow + 'stream) \<Rightarrow> anyhow + 'stream" where
  "subscriptions connect subscribe = res_bind connect subscribe"

definition messaging_run :: "anyhow + 'stream \<Rightarrow> ('stream \<Rightarrow> bool) \<Rightarrow> (anyhow + unit) option" where
  "messaging_run stream closed = (case stream of
      Inl e \<Rightarrow> Some (Inl e)
    | Inr s \<Rightarrow> if closed s then Some (Inr ()) else None)"

text \<open>
  \<open>Server::run\<close> of a host: how it has ended, or \<open>None\<close> while it runs.  The other hosts have the
  default of the trait.
\<close>

fun host_run ::
  "'c network \<Rightarrow> (string, string) hashmap \<Rightarrow> anyhow + 'stream \<Rightarrow> ('stream \<Rightarrow> bool) \<Rightarrow> wasi_host \<Rightarrow> (ws_fault + unit) option" where
  "host_run N env stream closed WasiHttp = map_option (\<lambda>e. Inl (WsErr e)) (snd (http_serve N env))"
| "host_run N env stream closed WasiMessaging = map_option (res_map_err WsErr) (messaging_run stream closed)"
| "host_run N env stream closed WasiWebSockets = map_option Inl (snd (ws_serve N env))"
| "host_run N env stream closed h = Some (res_map_err WsErr (fst (server_run_default ())))"

section \<open>Lemmas\<close>

text \<open>The names that a host links, and the law of the linker; \<open>defined\<close> lists what a linker has.\<close>

fun host_interfaces :: "'l bindings \<Rightarrow> wasi_host \<Rightarrow> string list" where
  "host_interfaces B WasiBlobstore = [''wasi:blobstore/blobstore'', ''wasi:blobstore/container'', ''wasi:blobstore/types'']"
| "host_interfaces B WasiConfig = bi_config_names B"
| "host_interfaces B WasiHttp = bi_http_names B"
| "host_interfaces B WasiIdentity = [''wasi:identity/credentials'']"
| "host_interfaces B WasiKeyValue = [''wasi:keyvalue/store'', ''wasi:keyvalue/atomics'', ''wasi:keyvalue/batch'']"
| "host_interfaces B WasiMessaging = [''wasi:messaging/producer'', ''wasi:messaging/request-reply'', ''wasi:messaging/types'']"
| "host_interfaces B WasiOtel = [''wasi:otel/tracing'', ''wasi:otel/metrics'', ''wasi:otel/types'', ''wasi:otel/resource'']"
| "host_interfaces B WasiSql = [''wasi:sql/readwrite'', ''wasi:sql/types'']"
| "host_interfaces B WasiVault = [''wasi:vault/vault'']"
| "host_interfaces B WasiWebSockets = [''wasi:websockets/store'']"

text \<open>\<open>links defined m names\<close>: \<open>m\<close> defines new names, in order, and fails exactly if one is taken.\<close>

definition links :: "('l \<Rightarrow> string list) \<Rightarrow> ('l, anyhow, unit) op \<Rightarrow> string list \<Rightarrow> bool" where
  "links defined m names \<longleftrightarrow> (\<forall>l. distinct (defined l) \<longrightarrow>
     (if distinct (defined l @ names) then \<exists>l'. m l = (Inr (), l') \<and> defined l' = defined l @ names
      else \<exists>e l'. m l = (Inl e, l')))"

definition linker_laws :: "('l \<Rightarrow> string list) \<Rightarrow> 'l bindings \<Rightarrow> bool" where
  "linker_laws defined B \<longleftrightarrow> (\<forall>i. links defined (bi_interface B i) [i]) \<and>
     links defined (bi_http B) (bi_http_names B) \<and> links defined (bi_config B) (bi_config_names B)"

lemma links_bind:
  assumes "links defined m xs" and "links defined n ys"
  shows "links defined (op_bind m (\<lambda>_. n)) (xs @ ys)"
  unfolding links_def
proof (intro allI impI)
  fix l assume l: "distinct (defined l)"
  show "if distinct (defined l @ xs @ ys) then \<exists>l'. op_bind m (\<lambda>_. n) l = (Inr (), l') \<and> defined l' = defined l @ xs @ ys
      else \<exists>e l'. op_bind m (\<lambda>_. n) l = (Inl e, l')"
  proof (cases "distinct (defined l @ xs)")
    case True
    with assms(1) [unfolded links_def, rule_format, OF l]
    obtain l1 where l1: "m l = (Inr (), l1)" "defined l1 = defined l @ xs" by (auto split: if_splits)
    with True have "distinct (defined l1)" by simp
    with assms(2) have "if distinct (defined l1 @ ys) then \<exists>l'. n l1 = (Inr (), l') \<and> defined l' = defined l1 @ ys
      else \<exists>e l'. n l1 = (Inl e, l')" by (simp add: links_def)
    then show ?thesis by (simp add: l1 del: distinct_append split: if_splits)
  next
    case False
    with assms(1) [unfolded links_def, rule_format, OF l] obtain e l1 where "m l = (Inl e, l1)" by (auto split: if_splits)
    moreover have "\<not> distinct (defined l @ xs @ ys)" using False by auto
    ultimately show ?thesis by (simp del: distinct_append)
  qed
qed

lemma links_for:
  assumes "\<And>x. x \<in> set xs \<Longrightarrow> links defined (f x) (names x)"
  shows "links defined (op_for f xs) (concat (map names xs))"
  using assms
proof (induction xs)
  case Nil
  then show ?case by (simp add: links_def)
next
  case (Cons x xs)
  then show ?case using links_bind [of defined "f x" "names x"] by simp
qed

lemma links_host:
  assumes "linker_laws defined B"
  shows "links defined (host_add_to_linker B h) (host_interfaces B h)"
proof -
  have "links defined (op_for (bi_interface B) xs) xs" for xs
    using links_for [of xs defined "bi_interface B" "\<lambda>i. [i]"] assms by (simp add: linker_laws_def)
  then show ?thesis
    using assms
    by (cases h) (simp_all only: linker_laws_def host_add_to_linker.simps host_interfaces.simps
        blobstore_add_to_linker_def config_add_to_linker_def http_add_to_linker_def identity_add_to_linker_def
        keyvalue_add_to_linker_def messaging_add_to_linker_def otel_add_to_linker_def sql_add_to_linker_def
        vault_add_to_linker_def websockets_add_to_linker_def)
qed

text \<open>What a server has done when it has ended.\<close>

lemma host_run_ends:
  "host_run N env stream closed h = Some (Inr ()) \<Longrightarrow> h \<noteq> WasiHttp \<and> h \<noteq> WasiWebSockets \<and>
     (h = WasiMessaging \<longrightarrow> (\<exists>s. stream = Inr s \<and> closed s))"
  "h \<notin> {WasiHttp, WasiMessaging, WasiWebSockets} \<Longrightarrow> host_run N env stream closed h = Some (Inr ())"
  by (cases h; auto simp: messaging_run_def server_run_default_def split: sum.splits if_splits)+

lemma find_none: "find P xs = None \<longleftrightarrow> (\<forall>x \<in> set xs. \<not> P x)"
  by (auto simp: find_None_iff)

lemma all_ended_card: "card {i. i < n \<and> f i \<noteq> None} < n \<longleftrightarrow> (\<exists>i < n. f i = None)"
proof
  assume "card {i. i < n \<and> f i \<noteq> None} < n"
  then have "{i. i < n \<and> f i \<noteq> None} \<noteq> {..<n}" by (metis card_lessThan less_irrefl)
  then show "\<exists>i < n. f i = None" by auto
next
  assume "\<exists>i < n. f i = None"
  then obtain i where i: "i < n" "f i = None" by blast
  then have "i \<in> {..<n}" "i \<notin> {i. i < n \<and> f i \<noteq> None}" by auto
  then have "{i. i < n \<and> f i \<noteq> None} \<subset> {..<n}" by blast
  from psubset_card_mono [OF finite_lessThan this] show "card {i. i < n \<and> f i \<noteq> None} < n" by simp
qed

lemma ws_loop_panics: "snd (ws_accept_loop (map WsAccepted cs @ WsNoPeer c # rest)) = Some WsPanic"
  by (induction cs) (auto split: prod.splits)

section \<open>Properties\<close>


text \<open>A linker that refuses a second definition, and a component that imports the key-value store.\<close>

definition demo_define :: "string \<Rightarrow> (string list, anyhow, unit) op" where
  "demo_define i l = (if i \<in> set l then (Inl (Foreign ''defined twice''), l) else (Inr (), l @ [i]))"

definition demo_bindings :: "string list bindings" where
  "demo_bindings = \<lparr>bi_interface = demo_define, bi_http = demo_define ''wasi:http/handler'',
     bi_config = demo_define ''wasi:config/store'', bi_http_names = [''wasi:http/handler''],
     bi_config_names = [''wasi:config/store'']\<rparr>"

definition demo_imports :: "string \<Rightarrow> string list" where
  "demo_imports c = [''p2'', ''wasi:keyvalue/store'']"

definition demo_engine :: "(nat, string, string list, string list) wasmtime" where
  "demo_engine = demo_wasmtime\<lparr>wt_instantiate_pre := \<lambda>l c.
     if set (demo_imports c) \<subseteq> set l then Inr (c # l) else Inl (Foreign ''unknown import'')\<rparr>"

definition demo_hosts :: expanded where
  "demo_hosts = (let ph = (\<lambda>n. \<lparr>ph_leading_colon = False, ph_segments = [(n, [])]\<rparr>) in
     \<lparr>ex_context_fields = [], ex_store_ctx_fields = [], ex_store_ctx_values = [],
      ex_host_trait_impls = [ph ''WasiHttp'', ph ''WasiKeyValue''], ex_wasi_view_impls = [], ex_main_fn = False\<rparr>)"

definition demo_host_of :: "rust_path \<Rightarrow> wasi_host" where
  "demo_host_of path = (if map fst (ph_segments path) = [''WasiHttp''] then WasiHttp else WasiKeyValue)"

lemma demo_laws: "linker_laws id demo_bindings"
  by (auto simp: linker_laws_def links_def demo_bindings_def demo_define_def)

lemma demo_hosts_prepared:
  "\<exists>inst flds p'. prepare_runtime True demo_sdk demo_engine (\<lambda>_. True) (\<lambda>path. host_add_to_linker demo_bindings (demo_host_of path))
      demo_connect demo_hosts ''app.wasm'' demo_process = (Inr (inst, flds), p')"
proof -
  obtain p' where c: "runtime_create True demo_sdk demo_wasmtime (\<lambda>_. True) ''app.wasm'' demo_process =
      (Inr \<lparr>cp_component = ''app.wasm'', cp_linker = [''p2'', ''p3'']\<rparr>, p')" using demo_created by blast
  have "runtime_create True demo_sdk demo_engine = runtime_create True demo_sdk demo_wasmtime"
  proof -
    have "load_component True demo_engine e f = load_component True demo_wasmtime e f" for e f
      by (cases "wt_deserialize demo_wasmtime e f") (simp_all add: load_component_def demo_engine_def)
    moreover have "new_linker demo_engine e = new_linker demo_wasmtime e" for e by (simp add: new_linker_def demo_engine_def)
    moreover have "wt_engine demo_engine = wt_engine demo_wasmtime" by (simp add: demo_engine_def)
    ultimately show ?thesis by (intro ext) (simp add: runtime_create_def)
  qed
  then have "runtime_create True demo_sdk demo_engine (\<lambda>_. True) ''app.wasm'' demo_process =
      (Inr \<lparr>cp_component = ''app.wasm'', cp_linker = [''p2'', ''p3'']\<rparr>, p')" using c by simp
  moreover have "\<exists>inst. fst (context_new (\<lambda>path. compiled_link (host_add_to_linker demo_bindings (demo_host_of path)))
      (compiled_pre_instantiate demo_engine) (\<lambda>backend. op_lift (demo_connect backend (pr_env p'))) demo_hosts
      \<lparr>cp_component = ''app.wasm'', cp_linker = [''p2'', ''p3'']\<rparr>) = Inr (inst, [])"
    by (simp add: context_new_def demo_hosts_def Let_def demo_host_of_def op_bind_def compiled_link_def http_add_to_linker_def
        keyvalue_add_to_linker_def demo_bindings_def demo_define_def compiled_pre_instantiate_def demo_engine_def demo_imports_def)
  ultimately show ?thesis unfolding prepare_runtime_def by (auto simp: op_bind_def op_map_err_def)
qed


text \<open>
  A runtime whose servers have ended as \<open>ended\<close> lists them: \<open>run\<close> says how a host's server ends, if it does.
\<close>

abbreviation servers_ended :: "('h \<Rightarrow> ('e + unit) option) \<Rightarrow> 'h list \<Rightarrow> (nat \<times> ('e + unit)) list \<Rightarrow> bool" where
  "servers_ended run hosts ended \<equiv>
     distinct (map fst ended) \<and> set ended = {(i, r). i < length hosts \<and> run (hosts ! i) = Some r}"

lemma start_result:
  assumes "length (ex_host_trait_impls ex) = length hosts" and "servers_ended run hosts ended"
  shows "context_start ex ended = (case find (\<lambda>(i, r). isl r) ended of Some (i, r) \<Rightarrow> Some r
      | None \<Rightarrow> if \<exists>i < length hosts. run (hosts ! i) = None then None else Some (Inr ()))"
proof -
  have fst: "fst ` set ended = {i. i < length hosts \<and> run (hosts ! i) \<noteq> None}" using assms(2) by force
  have len: "length ended = card {i. i < length hosts \<and> run (hosts ! i) \<noteq> None}"
    using distinct_card [of "map fst ended"] assms(2) fst by simp
  have "length ended < length hosts \<longleftrightarrow> (\<exists>i < length hosts. run (hosts ! i) = None)"
    unfolding len using all_ended_card .
  then show ?thesis unfolding context_start_def using assms by (subst try_join_all_spec) auto
qed

lemma first_failure_linked:
  assumes "servers_ended run hosts ended"
  shows "find (\<lambda>(i, r). isl r) ended = None \<longleftrightarrow> (\<forall>h \<in> set hosts. \<forall>e. run h \<noteq> Some (Inl e))"
    and "find (\<lambda>(i, r). isl r) ended = Some (i, r) \<Longrightarrow> \<exists>h \<in> set hosts. \<exists>e. r = Inl e \<and> run h = Some (Inl e)"
proof -
  show "find (\<lambda>(i, r). isl r) ended = None \<longleftrightarrow> (\<forall>h \<in> set hosts. \<forall>e. run h \<noteq> Some (Inl e))"
    unfolding find_none using assms by (fastforce simp: in_set_conv_nth isl_def)
  show "\<exists>h \<in> set hosts. \<exists>e. r = Inl e \<and> run h = Some (Inl e)" if "find (\<lambda>(i, r). isl r) ended = Some (i, r)"
    using that assms by (auto simp: find_Some_iff isl_def) (metis (mono_tags, lifting) case_prodD mem_Collect_eq nth_mem)
qed

lemma start_fails:
  assumes "length (ex_host_trait_impls ex) = length hosts" and "servers_ended run hosts ended"
  shows "context_start ex ended = Some (Inl e) \<Longrightarrow> \<exists>h \<in> set hosts. run h = Some (Inl e)"
    and "h \<in> set hosts \<Longrightarrow> run h = Some (Inl e) \<Longrightarrow> \<exists>e. context_start ex ended = Some (Inl e)"
proof -
  note start = start_result [OF assms] and failure = first_failure_linked [OF assms(2)]
  show "\<exists>h \<in> set hosts. run h = Some (Inl e)" if "context_start ex ended = Some (Inl e)"
    using that failure(2) unfolding start by (auto split: option.splits prod.splits if_splits)
  show "\<exists>e. context_start ex ended = Some (Inl e)" if "h \<in> set hosts" "run h = Some (Inl e)"
  proof (cases "find (\<lambda>(i, r). isl r) ended")
    case None
    with failure(1) that show ?thesis by blast
  next
    case (Some a)
    then show ?thesis using failure(2) [of "fst a" "snd a"] by (auto simp: start split: prod.splits)
  qed
qed

lemma start_returns:
  assumes "length (ex_host_trait_impls ex) = length hosts" and "servers_ended run hosts ended"
  shows "context_start ex ended = Some (Inr ()) \<longleftrightarrow> (\<forall>h \<in> set hosts. run h = Some (Inr ()))"
proof
  note start = start_result [OF assms] and failure = first_failure_linked [OF assms(2)]
  assume ok: "context_start ex ended = Some (Inr ())"
  then have none: "find (\<lambda>(i, r). isl r) ended = None"
    using failure(2) unfolding start by (cases "find (\<lambda>(i, r). isl r) ended") auto
  have "run h = Some (Inr ())" if "h \<in> set hosts" for h
  proof -
    have "run h \<noteq> None" using ok none that unfolding start by (auto simp: in_set_conv_nth split: if_splits)
    then obtain r where "run h = Some r" by blast
    with none failure(1) that show ?thesis by (cases r) auto
  qed
  then show "\<forall>h \<in> set hosts. run h = Some (Inr ())" by blast
next
  assume all: "\<forall>h \<in> set hosts. run h = Some (Inr ())"
  then have "find (\<lambda>(i, r). isl r) ended = None" using first_failure_linked(1) [OF assms(2)] by auto
  then show "context_start ex ended = Some (Inr ())" using all by (auto simp: start_result [OF assms])
qed


definition demo_network :: "nat network" where
  "demo_network = \<lparr>nw_bind = (\<lambda>_. Inr ()), nw_local_addr = Inr (), nw_http = [], nw_websockets = [WsAccepted 1, WsNoPeer 2]\<rparr>"


end
