(* ===== verification/Backends.thy ===== *)
theory Backends
  imports Runtime Capabilities Vault Blobstore Sql Identity
begin

text \<open>
  The default backends at the start of a runtime: \<open>ConnectOptions::from_env\<close> and \<open>connect_with\<close> of the
  \<open>wasi-*/src/host/default_impl.rs\<close> files, as \<open>Backend::connect\<close> composes them in the generated
  \<open>Context::new\<close> (theory Runtime).

  The derive macro \<open>FromEnv\<close> and SQLite are not part of the repository: \<open>read\<close> reads the listed
  variables, each with its default, under the law \<open>from_env_laws\<close>.
\<close>

section \<open>Options\<close>

type_synonym env = "(string, string) hashmap"

type_synonym env_reader = "(string \<times> string option) list \<Rightarrow> env \<Rightarrow> anyhow + (string \<Rightarrow> string)"

definition env_options :: "env_reader \<Rightarrow> (string \<times> string option) list \<Rightarrow> env \<Rightarrow> anyhow + (string \<Rightarrow> string)" where
  "env_options read vars env = res_map_err (Context ''issue loading connection options'') (read vars env)"

definition unit_from_env :: "env \<Rightarrow> anyhow + unit" where
  "unit_from_env env = Inr ()"

definition http_from_env :: "env_reader \<Rightarrow> env \<Rightarrow> anyhow + string" where
  "http_from_env read env = res_bind (env_options read [(''HTTP_ADDR'', Some ''http://localhost:8080'')] env)
     (\<lambda>val. Inr (val ''HTTP_ADDR''))"

record identity_options =
  io_client_id :: string
  io_client_secret :: string
  io_token_url :: string

definition identity_from_env :: "env_reader \<Rightarrow> env \<Rightarrow> anyhow + identity_options" where
  "identity_from_env read env = res_bind
     (env_options read [(''IDENTITY_CLIENT_ID'', None), (''IDENTITY_CLIENT_SECRET'', None), (''IDENTITY_TOKEN_URL'', None)] env)
     (\<lambda>val. Inr \<lparr>io_client_id = val ''IDENTITY_CLIENT_ID'', io_client_secret = val ''IDENTITY_CLIENT_SECRET'',
       io_token_url = val ''IDENTITY_TOKEN_URL''\<rparr>)"

definition sql_from_env :: "env_reader \<Rightarrow> env \<Rightarrow> anyhow + string" where
  "sql_from_env read env = res_bind (env_options read [(''SQL_DATABASE'', Some '':memory:'')] env)
     (\<lambda>val. Inr (val ''SQL_DATABASE''))"

section \<open>Connecting\<close>

text \<open>
  What a connected backend holds.  The messaging backend is a broadcast channel, of which the
  capacity is kept; the SQL backend keeps the path of its database.
\<close>

datatype default_backend = BlobstoreDefault | ConfigDefault | HttpDefault | IdentityDefault | KeyValueDefault
  | MessagingDefault | OtelDefault | SqlDefault | VaultDefault | WebSocketsDefault

datatype connected = OfBlobstore blob_world | OfConfig env | OfHttp | OfIdentity identity_options cached_token
  | OfKeyValue kv_store | OfMessaging nat | OfOtel | OfSql string | OfVault vault_store | OfWebSockets

definition http_connect_with :: "string \<Rightarrow> anyhow + connected" where
  "http_connect_with addr = Inr OfHttp"

definition identity_connect_with :: "int \<Rightarrow> identity_options \<Rightarrow> anyhow + connected" where
  "identity_connect_with now opts = Inr (OfIdentity opts (token_manager_new now))"

definition config_connect_with :: "env \<Rightarrow> unit \<Rightarrow> anyhow + connected" where
  "config_connect_with env _ = Inr (OfConfig (config_connect env))"

definition messaging_connect_with :: "unit \<Rightarrow> anyhow + connected" where
  "messaging_connect_with _ = Inr (OfMessaging 32)"

definition otel_connect_with :: "unit \<Rightarrow> anyhow + connected" where
  "otel_connect_with _ = Inr OfOtel"

definition websockets_connect_with :: "unit \<Rightarrow> anyhow + connected" where
  "websockets_connect_with _ = Inr OfWebSockets"

text \<open>\<open>Backend::connect\<close> of each; \<open>now\<close> is the instant and \<open>w\<close> the file system it starts with.\<close>

fun default_connect :: "env_reader \<Rightarrow> ('w, 'd, 'c) sqlite_ops \<Rightarrow> 'w \<Rightarrow> int \<Rightarrow> default_backend \<Rightarrow> env \<Rightarrow> anyhow + connected" where
  "default_connect read Q w now BlobstoreDefault env =
     backend_connect unit_from_env (\<lambda>_. Inr (OfBlobstore blob_connect_with)) env"
| "default_connect read Q w now ConfigDefault env = backend_connect unit_from_env (config_connect_with env) env"
| "default_connect read Q w now HttpDefault env = backend_connect (http_from_env read) http_connect_with env"
| "default_connect read Q w now IdentityDefault env =
     backend_connect (identity_from_env read) (identity_connect_with now) env"
| "default_connect read Q w now KeyValueDefault env =
     backend_connect unit_from_env (\<lambda>_. Inr (OfKeyValue kv_connect_with)) env"
| "default_connect read Q w now MessagingDefault env = backend_connect unit_from_env messaging_connect_with env"
| "default_connect read Q w now OtelDefault env = backend_connect unit_from_env otel_connect_with env"
| "default_connect read Q w now SqlDefault env =
     backend_connect (sql_from_env read) (\<lambda>path. res_bind (fst (sql_connect_with Q path w)) (\<lambda>p. Inr (OfSql p))) env"
| "default_connect read Q w now VaultDefault env =
     backend_connect unit_from_env (\<lambda>_. Inr (OfVault vault_connect_with)) env"
| "default_connect read Q w now WebSocketsDefault env = backend_connect unit_from_env websockets_connect_with env"

section \<open>Lemmas\<close>

text \<open>A variable is read if it is set or has a dflt, and else the options are refused.\<close>

definition from_env_laws :: "env_reader \<Rightarrow> bool" where
  "from_env_laws read \<longleftrightarrow> (\<forall>vars env. distinct (map fst vars) \<longrightarrow>
     (if \<forall>(name, dflt) \<in> set vars. hm_get env name \<noteq> None \<or> dflt \<noteq> None
     then \<exists>val. read vars env = Inr val \<and>
       (\<forall>(name, dflt) \<in> set vars. val name = (case hm_get env name of Some v \<Rightarrow> v | None \<Rightarrow> the dflt))
     else \<exists>e. read vars env = Inl e))"

lemma env_options_Inr:
  assumes "from_env_laws read" and "env_options read vars env = Inr val" and "(name, dflt) \<in> set vars"
    and "distinct (map fst vars)"
  shows "(hm_get env name \<noteq> None \<or> dflt \<noteq> None) \<and> val name = (case hm_get env name of Some v \<Rightarrow> v | None \<Rightarrow> the dflt)"
proof -
  have r: "read vars env = Inr val" using assms(2) by (cases "read vars env") (simp_all add: env_options_def)
  have law: "if \<forall>(name, dflt) \<in> set vars. hm_get env name \<noteq> None \<or> dflt \<noteq> None
     then \<exists>val. read vars env = Inr val \<and>
       (\<forall>(name, dflt) \<in> set vars. val name = (case hm_get env name of Some v \<Rightarrow> v | None \<Rightarrow> the dflt))
     else \<exists>e. read vars env = Inl e" using assms(1,4) unfolding from_env_laws_def by blast
  show ?thesis
  proof (cases "\<forall>(name, dflt) \<in> set vars. hm_get env name \<noteq> None \<or> dflt \<noteq> None")
    case True
    with law r have "\<forall>(name, dflt) \<in> set vars. val name = (case hm_get env name of Some v \<Rightarrow> v | None \<Rightarrow> the dflt)" by simp
    with True assms(3) show ?thesis by fast
  next
    case False
    from law [unfolded if_not_P [OF False]] r show ?thesis by simp
  qed
qed

lemma identity_from_env_Inr:
  assumes "from_env_laws read" and "identity_from_env read env = Inr opts"
  shows "hm_get env ''IDENTITY_CLIENT_ID'' = Some (io_client_id opts) \<and>
    hm_get env ''IDENTITY_CLIENT_SECRET'' = Some (io_client_secret opts) \<and>
    hm_get env ''IDENTITY_TOKEN_URL'' = Some (io_token_url opts)"
proof -
  obtain val where val: "env_options read [(''IDENTITY_CLIENT_ID'', None), (''IDENTITY_CLIENT_SECRET'', None),
      (''IDENTITY_TOKEN_URL'', None)] env = Inr val"
    and opts: "opts = \<lparr>io_client_id = val ''IDENTITY_CLIENT_ID'', io_client_secret = val ''IDENTITY_CLIENT_SECRET'',
       io_token_url = val ''IDENTITY_TOKEN_URL''\<rparr>"
    using assms(2) by (auto simp: identity_from_env_def res_bind_Inr_iff)
  note r = env_options_Inr [OF assms(1) val]
  from r [of "''IDENTITY_CLIENT_ID''" None] r [of "''IDENTITY_CLIENT_SECRET''" None] r [of "''IDENTITY_TOKEN_URL''" None]
  show ?thesis by (auto simp: opts)
qed

lemma sql_from_env_Inr:
  assumes "from_env_laws read" and "sql_from_env read env = Inr path"
  shows "path = (case hm_get env ''SQL_DATABASE'' of None \<Rightarrow> '':memory:'' | Some v \<Rightarrow> v)"
proof -
  obtain val where val: "env_options read [(''SQL_DATABASE'', Some '':memory:'')] env = Inr val" "path = val ''SQL_DATABASE''"
    using assms(2) by (auto simp: sql_from_env_def res_bind_Inr_iff)
  from env_options_Inr [OF assms(1) val(1), of "''SQL_DATABASE''" "Some '':memory:''"] val(2)
  show ?thesis by (simp split: option.splits)
qed

lemma config_connect_dom: "hm_get (config_connect env) name = None \<longleftrightarrow> hm_get env name = None"
proof -
  have "hm_get (fold (\<lambda>(k, v). hm_insert k v) vars m) name = None \<longleftrightarrow> hm_get m name = None \<and> name \<notin> fst ` set vars"
    for vars :: "(string \<times> string) list" and m
    by (induction vars arbitrary: m) (auto split: if_splits)
  then show ?thesis by (simp add: config_connect_def map_of_eq_None_iff)
qed

text \<open>What a field holds when its backend has connected, in the environment \<open>env\<close>.\<close>

fun starts_as :: "('w, 'd, 'c) sqlite_ops \<Rightarrow> 'w \<Rightarrow> int \<Rightarrow> env \<Rightarrow> default_backend \<Rightarrow> connected \<Rightarrow> bool" where
  "starts_as Q w now env KeyValueDefault c = (\<exists>s. c = OfKeyValue s \<and> kv_wf s \<and> (\<forall>b k. kv_view s b k = None))"
| "starts_as Q w now env VaultDefault c = (\<exists>s. c = OfVault s \<and> vault_wf s \<and> (\<forall>l k. vault_view s l k = None))"
| "starts_as Q w now env BlobstoreDefault c = (\<exists>s. c = OfBlobstore s \<and> blob_wf s \<and> (\<forall>name. hm_get (bw_store s) name = None))"
| "starts_as Q w now env IdentityDefault c = (\<exists>opts cache. c = OfIdentity opts cache \<and>
     hm_get env ''IDENTITY_CLIENT_ID'' = Some (io_client_id opts) \<and>
     hm_get env ''IDENTITY_CLIENT_SECRET'' = Some (io_client_secret opts) \<and>
     hm_get env ''IDENTITY_TOKEN_URL'' = Some (io_token_url opts) \<and> (\<forall>later \<ge> now. check_cache later cache = None))"
| "starts_as Q w now env SqlDefault c = (\<exists>path conn. c = OfSql path \<and> fst (sq_open Q path w) = Inr conn \<and>
     path = (case hm_get env ''SQL_DATABASE'' of None \<Rightarrow> '':memory:'' | Some v \<Rightarrow> v))"
| "starts_as Q w now env ConfigDefault c = (\<exists>vars. c = OfConfig vars \<and> (\<forall>name. hm_get vars name = None \<longleftrightarrow> hm_get env name = None) \<and>
     hm_get vars ''COMPONENT'' \<noteq> None)"
| "starts_as Q w now env HttpDefault c = (c = OfHttp)"
| "starts_as Q w now env MessagingDefault c = (c = OfMessaging 32)"
| "starts_as Q w now env OtelDefault c = (c = OfOtel)"
| "starts_as Q w now env WebSocketsDefault c = (c = OfWebSockets)"

lemma connect_no_options [simp]: "backend_connect unit_from_env f env = f ()"
  by (simp add: backend_connect_def unit_from_env_def)

lemma starts_empty:
  "kv_wf kv_connect_with \<and> (\<forall>b k. kv_view kv_connect_with b k = None)"
  "vault_wf vault_connect_with \<and> (\<forall>l k. vault_view vault_connect_with l k = None)"
  "blob_wf blob_connect_with \<and> (\<forall>name. hm_get (bw_store blob_connect_with) name = None)"
  using kv_wf_connect by (auto simp: kv_connect_with_def kv_view_def vault_connect_with_def vault_view_def vault_wf_def
      blob_connect_with_def blob_wf_def)

lemma default_connect_starts:
  assumes "from_env_laws read" and "hm_get env ''COMPONENT'' \<noteq> None"
    and "default_connect read Q w now b env = Inr c"
  shows "starts_as Q w now env b c"
proof (cases b)
  case IdentityDefault
  then obtain opts where "identity_from_env read env = Inr opts" "c = OfIdentity opts (token_manager_new now)"
    using assms(3) by (auto simp: backend_connect_def identity_connect_with_def res_bind_Inr_iff)
  with identity_from_env_Inr [OF assms(1) this(1)] IdentityDefault show ?thesis
    by (simp add: token_manager_new_def check_cache_def)
next
  case SqlDefault
  then obtain path p where path: "sql_from_env read env = Inr path" "fst (sql_connect_with Q path w) = Inr p" "c = OfSql p"
    using assms(3) by (auto simp: backend_connect_def res_bind_Inr_iff)
  have "fst (sq_open Q path w) = Inr conn \<Longrightarrow> p = path" for conn
    using path(2) by (cases "sq_open Q path w") (simp add: sql_connect_with_def op_map_err_def op_bind_def)
  moreover obtain conn where "fst (sq_open Q path w) = Inr conn"
    using path(2) by (cases "sq_open Q path w"; cases "fst (sq_open Q path w)")
      (simp_all add: sql_connect_with_def op_map_err_def op_bind_def)
  ultimately have "fst (sq_open Q path w) = Inr conn" "p = path" by blast+
  with path(3) sql_from_env_Inr [OF assms(1) path(1)] SqlDefault show ?thesis by simp
next
  case ConfigDefault
  then have "c = OfConfig (config_connect env)" using assms(3) by (simp add: config_connect_with_def)
  then show ?thesis using assms(2) config_connect_dom [of env] ConfigDefault by (simp del: not_None_eq)
next
  case HttpDefault
  then show ?thesis using assms(3) by (auto simp: backend_connect_def res_bind_Inr_iff http_connect_with_def)
next
  case KeyValueDefault
  then show ?thesis using assms(3) starts_empty(1) by auto
next
  case VaultDefault
  then show ?thesis using assms(3) starts_empty(2) by auto
next
  case BlobstoreDefault
  then show ?thesis using assms(3) starts_empty(3) by auto
qed (use assms(3) in \<open>simp_all add: messaging_connect_with_def otel_connect_with_def websockets_connect_with_def\<close>)

section \<open>Properties\<close>


text \<open>A reader, and a runtime with the key-value store, the configuration and SQL.\<close>

definition demo_reader :: env_reader where
  "demo_reader vars env = (if list_all (\<lambda>(name, dflt). hm_get env name \<noteq> None \<or> dflt \<noteq> None) vars
     then Inr (\<lambda>name. case hm_get env name of Some v \<Rightarrow> v | None \<Rightarrow> the (the (map_of vars name)))
     else Inl (Foreign ''FromEnvError''))"

lemma demo_reader_laws: "from_env_laws demo_reader"
  unfolding from_env_laws_def
proof (intro allI impI)
  fix vars :: "(string \<times> string option) list" and env
  assume d: "distinct (map fst vars)"
  show "if \<forall>(name, dflt) \<in> set vars. hm_get env name \<noteq> None \<or> dflt \<noteq> None
     then \<exists>val. demo_reader vars env = Inr val \<and>
       (\<forall>(name, dflt) \<in> set vars. val name = (case hm_get env name of Some v \<Rightarrow> v | None \<Rightarrow> the dflt))
     else \<exists>e. demo_reader vars env = Inl e"
    using d by (auto simp: demo_reader_def list_all_iff split: option.splits)
qed

definition demo_context :: expanded where
  "demo_context = (let ph = (\<lambda>n. \<lparr>ph_leading_colon = False, ph_segments = [(n, [])]\<rparr>) in
     \<lparr>ex_context_fields = [(''kv'', ph ''KeyValueDefault''), (''sql'', ph ''SqlDefault'')], ex_store_ctx_fields = [],
      ex_store_ctx_values = [], ex_host_trait_impls = [], ex_wasi_view_impls = [], ex_main_fn = False\<rparr>)"

definition demo_backend_of :: "rust_path \<Rightarrow> default_backend" where
  "demo_backend_of path = (if map fst (ph_segments path) = [''SqlDefault''] then SqlDefault else KeyValueDefault)"


end
