(* ===== verification/HttpServing.thy ===== *)
theory HttpServing
  imports HttpHost GuestMacro
begin

text \<open>
  A request from the network into a generated guest and back: the server of
  \<open>wasi-http/src/host/server.rs\<close> (theory HttpHost), the guest's \<open>serve\<close>
  (\<open>wasi-http/src/guest/incoming.rs\<close>), the router that \<open>guest!\<close> generates (\<open>guest-macro/src/http.rs\<close>) and
  the endpoint behind the route (theory GuestMacro).

  The router of axum, its extractor of bodies and the conversions between wasi and http requests
  are not part of the repository: \<open>router_laws\<close> states what axum documents for a request that fits
  a single route, and \<open>body_laws\<close> the limit it sets by default on a body that is read.
\<close>

section \<open>The generated module\<close>

record axum_request =
  ar_method :: string
  ar_path :: string
  ar_query :: "string option"
  ar_body :: bytes

type_synonym ('s, 'm) endpoint = "http_input \<Rightarrow> 's \<Rightarrow> 'm axum_response \<times> 's"

text \<open>
  \<open>ax_route\<close> panics on some tables; routing itself cannot fail.  \<open>ax_bytes\<close> is the extractor of a \<open>Bytes\<close>
  argument: the response that rejects the body, or the body.
\<close>

record ('r, 's, 'm) axum_ops =
  ax_new :: 'r
  ax_route :: "string \<Rightarrow> string \<Rightarrow> ('s, 'm) endpoint \<Rightarrow> 'r \<Rightarrow> 'r option"
  ax_oneshot :: "'r \<Rightarrow> axum_request \<Rightarrow> 's \<Rightarrow> 'm axum_response \<times> 's"
  ax_bytes :: "bytes \<Rightarrow> 'm axum_response + bytes"

text \<open>
  Names that generated code can give to functions, or to the arguments of one: no two the same, and
  no word that Rust (2024) reserves.
\<close>

definition rust_words :: "string list" where
  "rust_words = [''_'', ''abstract'', ''as'', ''async'', ''await'', ''become'', ''box'', ''break'', ''const'', ''continue'', ''crate'',
     ''do'', ''dyn'', ''else'', ''enum'', ''extern'', ''false'', ''final'', ''fn'', ''for'', ''gen'', ''if'', ''impl'', ''in'', ''let'',
     ''loop'', ''macro'', ''match'', ''mod'', ''move'', ''mut'', ''override'', ''priv'', ''pub'', ''ref'', ''return'', ''self'', ''Self'',
     ''static'', ''struct'', ''super'', ''trait'', ''true'', ''try'', ''type'', ''typeof'', ''unsafe'', ''unsized'', ''use'', ''virtual'',
     ''where'', ''while'', ''yield'']"

definition usable_names :: "string list \<Rightarrow> bool" where
  "usable_names names \<longleftrightarrow> distinct names \<and> list_all (\<lambda>n. n \<notin> set rust_words) names"

text \<open>
  The functions of the module, by name, unless their names are not usable or, for a get route, those
  of its path parameters, which are its arguments: then the module does not compile.
\<close>

definition routes_usable :: "route list \<Rightarrow> bool" where
  "routes_usable routes \<longleftrightarrow> usable_names (map rt_function routes) \<and>
     list_all (\<lambda>r. hn_method (rt_handler r) = ''get'' \<longrightarrow> usable_names (rt_params r)) routes"

definition module_functions :: "(route \<Rightarrow> ('s, 'm) endpoint) \<Rightarrow> route list \<Rightarrow> (string \<times> ('s, 'm) endpoint) list option" where
  "module_functions expand_handler routes =
     (if routes_usable routes then Some (map (\<lambda>r. (rt_function r, expand_handler r)) routes) else None)"

definition expand_route ::
  "('r, 's, 'm) axum_ops \<Rightarrow> (string \<times> ('s, 'm) endpoint) list \<Rightarrow> route \<Rightarrow> 'r \<Rightarrow> 'r option" where
  "expand_route A fns route router = Option.bind (map_of fns (rt_function route))
     (\<lambda>function. ax_route A (rt_path route) (hn_method (rt_handler route)) function router)"

fun add_routes ::
  "('r, 's, 'm) axum_ops \<Rightarrow> (string \<times> ('s, 'm) endpoint) list \<Rightarrow> route list \<Rightarrow> 'r \<Rightarrow> 'r option" where
  "add_routes A fns [] router = Some router"
| "add_routes A fns (r # rs) router = Option.bind (expand_route A fns r router) (add_routes A fns rs)"

definition http_router ::
  "('r, 's, 'm) axum_ops \<Rightarrow> (string \<times> ('s, 'm) endpoint) list \<Rightarrow> route list \<Rightarrow> 'r option" where
  "http_router A fns routes = add_routes A fns routes (ax_new A)"

section \<open>Serving\<close>

definition guest_serve ::
  "('q \<Rightarrow> error_code + 'h) \<Rightarrow> ('r \<Rightarrow> 'h \<Rightarrow> ('s, string, 'p) op) \<Rightarrow> ('p \<Rightarrow> error_code + 'w) \<Rightarrow> 'r \<Rightarrow> 'q
    \<Rightarrow> ('s, error_code, 'w) op" where
  "guest_serve from_wasi oneshot into_wasi router req =
     op_bind (op_lift (from_wasi req)) (\<lambda>http_req.
     op_bind (op_map_err (\<lambda>e. InternalError (Some (''issue processing request: '' @ e))) (oneshot router http_req)) (\<lambda>http_resp.
     op_lift (into_wasi http_resp)))"

text \<open>The generated \<open>handle\<close>: an error of the interface, or a trap when the router panics.\<close>

datatype guest_fault = GuestCode error_code | GuestTrap

definition guest_handle ::
  "('r, 's, 'm) axum_ops \<Rightarrow> (string \<times> ('s, 'm) endpoint) list \<Rightarrow> route list \<Rightarrow> ('q \<Rightarrow> error_code + axum_request)
    \<Rightarrow> ('m axum_response \<Rightarrow> error_code + 'w) \<Rightarrow> 'q \<Rightarrow> ('s, guest_fault, 'w) op" where
  "guest_handle A fns routes from_wasi into_wasi req = (case http_router A fns routes of
      None \<Rightarrow> op_fail GuestTrap
    | Some router \<Rightarrow> op_map_err GuestCode
        (guest_serve from_wasi (\<lambda>r q s. case ax_oneshot A r q s of (resp, s') \<Rightarrow> (Inr resp, s')) into_wasi router req))"

text \<open>
  A generated function as axum runs it: its arguments are extracted, of which only the body of a
  post route \<open>with_body\<close> can be rejected; then the endpoint runs, and its result is a response.
  \<open>Rs\<close> gives the handler of each request type.
\<close>

definition takes_body :: "route \<Rightarrow> bool" where
  "takes_body r \<longleftrightarrow> hn_method (rt_handler r) \<noteq> ''get'' \<and> hn_with_body (rt_handler r)"

definition extract_args :: "('r, 's, 'm) axum_ops \<Rightarrow> route \<Rightarrow> http_input \<Rightarrow> 'm axum_response + http_input" where
  "extract_args A r req = (if takes_body r
     then res_bind (ax_bytes A (hi_body req)) (\<lambda>body. Inr (req\<lparr>hi_body := body\<rparr>))
     else Inr req)"

definition endpoint_function ::
  "('r, 's, 'm) axum_ops \<Rightarrow> 'm header_ops \<Rightarrow> ('b \<Rightarrow> string + bytes) \<Rightarrow>
    (string \<Rightarrow> (endpoint_input, 'q, 's, 'p, 'm, sdk_error, 'b) handler_ops) \<Rightarrow> 'm
    \<Rightarrow> (string \<Rightarrow> 'p) \<Rightarrow> guest_config \<Rightarrow> route \<Rightarrow> ('s, 'm) endpoint" where
  "endpoint_function A H into_body Rs m0 new cfg r req s = (case extract_args A r req of
      Inl rejection \<Rightarrow> (rejection, s)
    | Inr input \<Rightarrow> (case http_endpoint (Rs (hn_request (rt_handler r))) http_error_from m0 new cfg r input s of
        (answer, s') \<Rightarrow> (http_result_response H into_body answer, s')))"

text \<open>
  The server on such a guest, in an instance whose state is \<open>s\<close>: the response, and the state the
  instance is left in.  \<open>fault\<close> is the error that the host makes of a failed call.
\<close>

definition serve_guest ::
  "'m header_ops \<Rightarrow> bytes \<Rightarrow> 'm \<Rightarrow> 'uri uri_ops \<Rightarrow> (guest_fault \<Rightarrow> anyhow)
    \<Rightarrow> (string \<times> 'uri \<times> 'm \<times> bytes \<Rightarrow> ('s, guest_fault, 'm response) op) \<Rightarrow> string \<Rightarrow> string option \<Rightarrow> 'm \<Rightarrow> bytes \<Rightarrow> 's
    \<Rightarrow> 'm response" where
  "serve_guest H page m0 V fault guest verb p_and_q headers body s =
     serve_request H page m0 V (\<lambda>uri hs b. res_map_err fault (fst (guest (verb, uri, hs, b) s))) p_and_q headers body"

section \<open>Lemmas\<close>

text \<open>
  What axum documents: \<open>fits p path\<close> are the values of the parameters of the pattern \<open>p\<close> in \<open>path\<close>, if it
  matches.  A router that was built sends a request whose path fits the pattern of one added
  route only, with that route's method, to its function.
\<close>

fun routed ::
  "('r, 's, 'm) axum_ops \<Rightarrow> (string \<times> string \<times> ('s, 'm) endpoint) list \<Rightarrow> 'r \<Rightarrow> 'r option" where
  "routed A [] router = Some router"
| "routed A ((p, m, f) # rest) router = Option.bind (ax_route A p m f router) (routed A rest)"

definition router_laws :: "(string \<Rightarrow> string \<Rightarrow> string list option) \<Rightarrow> ('r, 's, 'm) axum_ops \<Rightarrow> bool" where
  "router_laws fits A \<longleftrightarrow> (\<forall>rs router p m f req params s. routed A rs (ax_new A) = Some router \<longrightarrow> (p, m, f) \<in> set rs \<longrightarrow>
     ar_method req = m \<longrightarrow> fits p (ar_path req) = Some params \<longrightarrow>
     (\<forall>(p', m', f') \<in> set rs. fits p' (ar_path req) \<noteq> None \<longrightarrow> (p', m', f') = (p, m, f)) \<longrightarrow>
     ax_oneshot A router req s = f \<lparr>hi_params = params, hi_query = ar_query req, hi_body = ar_body req\<rparr> s)"

text \<open>
  The documented default limit of an extracted body is 2 MB; a longer one is rejected with status 413.
\<close>

definition body_limit :: nat where
  "body_limit = 2097152"

fun response_status :: "'m axum_response \<Rightarrow> u16" where
  "response_status (TextResponse st t) = st"
| "response_status (FullResponse st m b) = st"

definition body_laws :: "('r, 's, 'm) axum_ops \<Rightarrow> bool" where
  "body_laws A \<longleftrightarrow> (\<forall>b. if length b \<le> body_limit then ax_bytes A b = Inr b
     else \<exists>rejection. ax_bytes A b = Inl rejection \<and> response_status rejection = 413)"

text \<open>Whether a request's body, if the route reads it, is within the limit.\<close>

definition body_fits :: "route \<Rightarrow> bytes \<Rightarrow> bool" where
  "body_fits r body \<longleftrightarrow> (takes_body r \<longrightarrow> length body \<le> body_limit)"

lemma add_routes_routed:
  assumes "module_functions g routes = Some fns" and "set rs \<subseteq> set routes"
  shows "add_routes A fns rs router = routed A (map (\<lambda>r. (rt_path r, hn_method (rt_handler r), g r)) rs) router"
  using assms(2)
proof (induction rs arbitrary: router)
  case (Cons r rs)
  have fns: "fns = map (\<lambda>r. (rt_function r, g r)) routes" "distinct (map fst fns)"
    using assms(1) by (auto simp: module_functions_def routes_usable_def usable_names_def comp_def split: if_splits)
  have "(rt_function r, g r) \<in> set fns" using Cons.prems fns(1) by auto
  then have "map_of fns (rt_function r) = Some (g r)" using fns(2) by simp
  then show ?case using Cons by (cases "ax_route A (rt_path r) (hn_method (rt_handler r)) (g r) router") (simp_all add: expand_route_def)
qed simp

text \<open>Two routes on one path, as \<open>parse_route\<close> makes them, have functions of one name.\<close>

lemma one_route_per_path:
  assumes "module_functions g routes = Some fns" and "\<forall>r \<in> set routes. handler_name (rt_path r) = Inr (rt_function r)"
    and "r \<in> set routes" and "r' \<in> set routes" and "rt_path r = rt_path r'"
  shows "r = r'"
proof -
  have "distinct (map rt_function routes)"
    using assms(1) by (simp add: module_functions_def routes_usable_def usable_names_def split: if_splits)
  moreover have "rt_function r = rt_function r'" using assms(2-5) by (metis sum.inject(2))
  ultimately show ?thesis using assms(3,4) by (auto simp: distinct_map dest: inj_onD)
qed

lemma endpoint_function_run:
  assumes "body_laws A"
  shows "endpoint_function A H into_body Rs m0 new cfg r req s =
     (if body_fits r (hi_body req) then
       (case handled (Rs (hn_request (rt_handler r))) m0 new cfg (endpoint_input r req) s of
          (Inl e, s') \<Rightarrow> (TextResponse (error_status e) (error_display e), s')
        | (Inr reply, s') \<Rightarrow> (reply_into_response H into_body reply, s'))
      else (projl (ax_bytes A (hi_body req)), s))"
proof -
  let ?R = "Rs (hn_request (rt_handler r))"
  have run: "http_endpoint ?R http_error_from m0 new cfg r req s = op_map_err http_error_from (handled ?R m0 new cfg (endpoint_input r req)) s"
    by (cases "ho_from_input ?R (endpoint_input r req)")
      (simp_all add: http_endpoint_def handler_for_def handled_def builder_defs rh_handle_def op_bind_def op_map_err_def Let_def)
  have limit: "if length (hi_body req) \<le> body_limit then ax_bytes A (hi_body req) = Inr (hi_body req)
      else \<exists>rejection. ax_bytes A (hi_body req) = Inl rejection \<and> response_status rejection = 413"
    using assms by (simp add: body_laws_def)
  show ?thesis
  proof (cases "body_fits r (hi_body req)")
    case True
    then have "extract_args A r req = Inr req" using limit by (auto simp: extract_args_def body_fits_def)
    then show ?thesis using True
      by (simp add: endpoint_function_def run op_map_err_def http_error_into_response_def http_error_from_def
          split: prod.splits sum.splits)
  next
    case False
    then show ?thesis using limit by (auto simp: endpoint_function_def extract_args_def body_fits_def)
  qed
qed

text \<open>The response of a route's handler, given what it made of its input.\<close>

definition endpoint_response :: "'m header_ops \<Rightarrow> ('b \<Rightarrow> string + bytes) \<Rightarrow> sdk_error + ('m, 'b) sdk_reply \<Rightarrow> 'm axum_response" where
  "endpoint_response H into_body answer = (case answer of
      Inl e \<Rightarrow> TextResponse (error_status e) (error_display e)
    | Inr reply \<Rightarrow> reply_into_response H into_body reply)"

lemma guest_handle_run:
  assumes "router_laws fits A" and "body_laws A"
    and "module_functions (endpoint_function A H into_body Rs m0 new cfg) routes = Some fns"
    and "http_router A fns routes = Some router" and "\<forall>x \<in> set routes. handler_name (rt_path x) = Inr (rt_function x)"
    and "r \<in> set routes" and "from_wasi q = Inr req" and "ar_method req = hn_method (rt_handler r)"
    and "fits (rt_path r) (ar_path req) = Some params"
    and "\<forall>x \<in> set routes. fits (rt_path x) (ar_path req) \<noteq> None \<longrightarrow> rt_path x = rt_path r"
  shows "body_fits r (ar_body req) \<Longrightarrow> handled (Rs (hn_request (rt_handler r))) m0 new cfg
      (endpoint_input r \<lparr>hi_params = params, hi_query = ar_query req, hi_body = ar_body req\<rparr>) s = (answer, s') \<Longrightarrow>
    guest_handle A fns routes from_wasi into_wasi q s = (res_map_err GuestCode (into_wasi (endpoint_response H into_body answer)), s')"
    and "\<not> body_fits r (ar_body req) \<Longrightarrow> \<exists>rejection. response_status rejection = 413 \<and>
    guest_handle A fns routes from_wasi into_wasi q s = (res_map_err GuestCode (into_wasi rejection), s)"
proof -
  let ?g = "endpoint_function A H into_body Rs m0 new cfg" and ?input = "\<lparr>hi_params = params, hi_query = ar_query req, hi_body = ar_body req\<rparr>"
  let ?table = "map (\<lambda>x. (rt_path x, hn_method (rt_handler x), ?g x)) routes"
  have "routed A ?table (ax_new A) = Some router"
    using assms(4) add_routes_routed [OF assms(3) order_refl, of A] by (simp add: http_router_def)
  moreover have "(rt_path r, hn_method (rt_handler r), ?g r) \<in> set ?table" using assms(6) by auto
  moreover have "\<forall>(p', m', f') \<in> set ?table. fits p' (ar_path req) \<noteq> None \<longrightarrow>
      (p', m', f') = (rt_path r, hn_method (rt_handler r), ?g r)"
    using assms(10) one_route_per_path [OF assms(3,5) assms(6)] by fastforce
  ultimately have shot: "ax_oneshot A router req s = ?g r ?input s"
    using assms(1,8,9) unfolding router_laws_def by blast
  have serve: "guest_handle A fns routes from_wasi into_wasi q s = (res_map_err GuestCode (into_wasi resp), t)"
    if "ax_oneshot A router req s = (resp, t)" for resp t
    using assms(4,7) that by (cases "into_wasi resp") (simp_all add: guest_handle_def guest_serve_def)
  note run = endpoint_function_run [OF assms(2)]
  show "guest_handle A fns routes from_wasi into_wasi q s = (res_map_err GuestCode (into_wasi (endpoint_response H into_body answer)), s')"
    if "body_fits r (ar_body req)" "handled (Rs (hn_request (rt_handler r))) m0 new cfg (endpoint_input r ?input) s = (answer, s')"
    by (rule serve, use that in \<open>cases answer; simp add: shot run endpoint_response_def\<close>)
  show "\<exists>rejection. response_status rejection = 413 \<and>
      guest_handle A fns routes from_wasi into_wasi q s = (res_map_err GuestCode (into_wasi rejection), s)"
    if long: "\<not> body_fits r (ar_body req)"
  proof -
    obtain rejection where "ax_bytes A (ar_body req) = Inl rejection" "response_status rejection = 413"
      using long spec [OF assms(2) [unfolded body_laws_def], of "ar_body req"] by (auto simp: body_fits_def split: if_splits)
    then show ?thesis using long serve by (intro exI [of _ rejection]) (simp add: shot run)
  qed
qed

section \<open>Properties\<close>

text \<open>
  C10: A request through server, router and handler.  A request that fits one configured route, by path
  and method, and whose body, if the route reads it, is within axum's limit of 2 MB, runs the handler
  of that route's request type once, on the route's input, under the configured owner and provider.
  The client gets the handler's reply, or the status and text of its error, and the error page of
  status 500 only when the response cannot be handed over; the instance is left in the state the
  handler left.  A longer body is rejected with status 413: no handler runs.
\<close>

theorem http_end_to_end:
  assumes "router_laws fits A" and "body_laws A"
    and "module_functions (endpoint_function A H into_body Rs m0 new cfg) routes = Some fns"
    and "http_router A fns routes = Some router" and "\<forall>x \<in> set routes. handler_name (rt_path x) = Inr (rt_function x)"
    and "uri_seen H V p_and_q headers = Some u" and "ur_from_parts V u = Inr uri"
    and "r \<in> set routes" and "from_wasi (verb, uri, headers, body) = Inr req" and "ar_method req = hn_method (rt_handler r)"
    and "fits (rt_path r) (ar_path req) = Some params"
    and "\<forall>x \<in> set routes. fits (rt_path x) (ar_path req) \<noteq> None \<longrightarrow> rt_path x = rt_path r"
    and "handled (Rs (hn_request (rt_handler r))) m0 new cfg
      (endpoint_input r \<lparr>hi_params = params, hi_query = ar_query req, hi_body = ar_body req\<rparr>) s = (answer, s')"
  shows "\<exists>resp t. (if takes_body r \<and> body_limit < length (ar_body req) then response_status resp = 413 \<and> t = s
      else resp = endpoint_response H into_body answer \<and> t = s') \<and>
    serve_guest H page none V fault (guest_handle A fns routes from_wasi into_wasi) verb p_and_q headers body s =
      (case into_wasi resp of Inl e \<Rightarrow> error_page H page none | Inr w \<Rightarrow> w) \<and>
    snd (guest_handle A fns routes from_wasi into_wasi (verb, uri, headers, body) s) = t"
proof -
  note run = guest_handle_run [where fits = fits and from_wasi = from_wasi and q = "(verb, uri, headers, body)" and
      into_wasi = into_wasi and req = req and params = params and r = r, OF assms(1-5,8-12)]
  have served: "serve_guest H page none V fault (guest_handle A fns routes from_wasi into_wasi) verb p_and_q headers body s =
      (case into_wasi resp of Inl e \<Rightarrow> error_page H page none | Inr w \<Rightarrow> w)"
    if "guest_handle A fns routes from_wasi into_wasi (verb, uri, headers, body) s = (res_map_err GuestCode (into_wasi resp), t)" for resp t
  proof -
    have "fix_request H V p_and_q headers = Inr uri" using assms(6,7) by (simp add: fix_request_seen)
    then show ?thesis using that
      by (cases "into_wasi resp") (simp_all add: handler_handle_def serve_guest_def serve_request_def)
  qed
  show ?thesis
  proof (cases "body_fits r (ar_body req)")
    case True
    from run(1) [OF this assms(13)] True show ?thesis
      by (intro exI [of _ "endpoint_response H into_body answer"] exI [of _ s']) (auto simp: served body_fits_def)
  next
    case False
    obtain rejection where "response_status rejection = 413"
      "guest_handle A fns routes from_wasi into_wasi (verb, uri, headers, body) s = (res_map_err GuestCode (into_wasi rejection), s)"
      using run(2) [OF False] by blast
    with False show ?thesis by (intro exI [of _ rejection] exI [of _ s]) (auto simp: served body_fits_def)
  qed
qed

text \<open>A router that is a table of exact paths, and a guest with a get and a post route.\<close>

definition table_router :: "((string \<times> string \<times> (nat list, 'm) endpoint) list, nat list, 'm) axum_ops" where
  "table_router = \<lparr>ax_new = [], ax_route = (\<lambda>p m f table. Some (table @ [(p, m, f)])),
     ax_oneshot = (\<lambda>table req s. case find (\<lambda>(p, m, f). p = ar_path req \<and> m = ar_method req) table of
        None \<Rightarrow> (TextResponse 404 [], s)
      | Some (p, m, f) \<Rightarrow> f \<lparr>hi_params = [], hi_query = ar_query req, hi_body = ar_body req\<rparr> s),
     ax_bytes = (\<lambda>b. if length b \<le> body_limit then Inr b
       else Inl (TextResponse 413 ''Failed to buffer the request body: length limit exceeded''))\<rparr>"

definition exact_fit :: "string \<Rightarrow> string \<Rightarrow> string list option" where
  "exact_fit p path = (if p = path then Some [] else None)"

lemma table_router_routed: "routed table_router rs table = Some (table @ rs)"
  by (induction rs arbitrary: table) (auto simp: table_router_def)

lemma find_hit: "find P xs = Some x \<Longrightarrow> x \<in> set xs \<and> P x"
  by (induction xs) (auto split: if_splits)

lemma table_body_laws: "body_laws table_router"
  by (simp add: body_laws_def table_router_def)

lemma table_router_laws: "router_laws exact_fit table_router"
  unfolding router_laws_def
proof (intro allI impI)
  fix rs router p m params s and req :: axum_request and f :: "(nat list, 'm) endpoint"
  assume a: "routed table_router rs (ax_new table_router) = Some router" "(p, m, f) \<in> set rs" "ar_method req = m"
    "exact_fit p (ar_path req) = Some params"
    and one: "\<forall>(p', m', f') \<in> set rs. exact_fit p' (ar_path req) \<noteq> None \<longrightarrow> (p', m', f') = (p, m, f)"
  have router: "router = rs" using a(1) by (simp add: table_router_routed) (simp add: table_router_def)
  have p: "p = ar_path req" "params = []" using a(4) by (auto simp: exact_fit_def split: if_splits)
  let ?P = "\<lambda>(p, m, f :: (nat list, 'm) endpoint). p = ar_path req \<and> m = ar_method req"
  obtain x where x: "find ?P rs = Some x" using a(2,3) p(1) by (cases "find ?P rs") (auto simp: find_None_iff)
  then have "x \<in> set rs" "?P x" by (auto dest: find_hit)
  then have "x = (p, m, f)" using one by (auto simp: exact_fit_def)
  then show "ax_oneshot table_router router req s = f \<lparr>hi_params = params, hi_query = ar_query req, hi_body = ar_body req\<rparr> s"
    using x by (simp add: table_router_def router p(2))
qed

definition demo_routes :: "route list" where
  "demo_routes = [\<lparr>rt_path = ''/jobs'', rt_params = [], rt_handler = \<lparr>hn_method = ''post'', hn_request = ''Jobs'', hn_reply = ''Reply'',
       hn_with_body = True, hn_with_query = False\<rparr>, rt_function = ''jobs''\<rparr>,
     \<lparr>rt_path = ''/a-b'', rt_params = [], rt_handler = \<lparr>hn_method = ''get'', hn_request = ''Ab'', hn_reply = ''Reply'',
       hn_with_body = False, hn_with_query = False\<rparr>, rt_function = ''a_b''\<rparr>]"

text \<open>Its handlers log the length of the body and answer it with those of the request type and the owner.\<close>

definition demo_handlers :: "string \<Rightarrow> (endpoint_input, nat, nat list, string, (string \<times> string) list, sdk_error, bytes) handler_ops" where
  "demo_handlers name = \<lparr>ho_from_input = (\<lambda>input. case input of BodyInput b \<Rightarrow> Inr (length b) | _ \<Rightarrow> Inl (BadRequest ''bad_request'' ''no body'')),
     ho_handle = (\<lambda>n ctx log. (Inr (reply_ok [] (map of_nat [n, length name, length (cx_owner ctx)])), log @ [n]))\<rparr>"

definition demo_from_wasi :: "string \<times> string \<times> (string \<times> string) list \<times> bytes \<Rightarrow> error_code + axum_request" where
  "demo_from_wasi q = (case q of (verb, uri, headers, body) \<Rightarrow>
     Inr \<lparr>ar_method = verb, ar_path = uri, ar_query = None, ar_body = body\<rparr>)"

definition demo_into_wasi :: "(string \<times> string) list axum_response \<Rightarrow> error_code + (string \<times> string) list response" where
  "demo_into_wasi a = Inr (case a of TextResponse st t \<Rightarrow> \<lparr>rs_status = st, rs_headers = [], rs_body = map (\<lambda>c. of_nat (of_char c)) t\<rparr>
     | FullResponse st m b \<Rightarrow> \<lparr>rs_status = st, rs_headers = m, rs_body = b\<rparr>)"

lemma demo_routes_named: "\<forall>x \<in> set demo_routes. handler_name (rt_path x) = Inr (rt_function x)"
proof -
  have "handler_name ''/jobs'' = Inr ''jobs''" "handler_name ''/a-b'' = Inr ''a_b''" by code_simp+
  then show ?thesis by (simp add: demo_routes_def)
qed

lemma demo_routes_usable: "routes_usable demo_routes"
  by code_simp

text \<open>Uris that are their path, with any authority and scheme.\<close>

definition path_uri :: "string uri_ops" where
  "path_uri = \<lparr>ur_authority = (\<lambda>h. Inr ()), ur_scheme = (\<lambda>p. Inr ()), ur_from_parts = (\<lambda>u. Inr (up_path_and_query u))\<rparr>"

theorem http_end_to_end_witness:
  "\<exists>fns. module_functions (endpoint_function table_router alist_headers Inr demo_handlers [] id demo_config) demo_routes = Some fns \<and>
     rs_body (serve_guest alist_headers [] [] path_uri (\<lambda>_. Anyhow ''fault'')
       (guest_handle table_router fns demo_routes demo_from_wasi demo_into_wasi) ''post'' (Some ''/jobs'') [(''host'', ''h'')] [7, 8] [1]) =
       [2, 4, 2] \<and>
     snd (guest_handle table_router fns demo_routes demo_from_wasi demo_into_wasi (''post'', ''/jobs'', [(''host'', ''h'')], [7, 8]) [1]) = [1, 2]"
proof -
  let ?g = "endpoint_function table_router alist_headers Inr demo_handlers [] id demo_config" and ?r = "hd demo_routes"
  let ?u = "\<lparr>up_path_and_query = ''/jobs'', up_authority = Some ''h'', up_scheme = Some ''http''\<rparr>"
  let ?req = "\<lparr>ar_method = ''post'', ar_path = ''/jobs'', ar_query = None, ar_body = [7, 8]\<rparr>"
  let ?answer = "Inr (reply_ok [] [2, 4, 2]) :: sdk_error + ((string \<times> string) list, bytes) sdk_reply"
  obtain fns where fns: "module_functions ?g demo_routes = Some fns" by (simp add: module_functions_def demo_routes_usable)
  have router: "http_router table_router fns demo_routes = Some (map (\<lambda>r. (rt_path r, hn_method (rt_handler r), ?g r)) demo_routes)"
    unfolding http_router_def add_routes_routed [OF fns order_refl, of table_router] table_router_routed
    by (simp add: table_router_def)
  have uri: "uri_seen alist_headers path_uri (Some ''/jobs'') [(''host'', ''h'')] = Some ?u" by code_simp
  have r: "?r \<in> set demo_routes" "demo_from_wasi (''post'', ''/jobs'', [(''host'', ''h'')], [7, 8]) = Inr ?req"
      "ar_method ?req = hn_method (rt_handler ?r)" "exact_fit (rt_path ?r) (ar_path ?req) = Some []"
      "\<forall>x \<in> set demo_routes. exact_fit (rt_path x) (ar_path ?req) \<noteq> None \<longrightarrow> rt_path x = rt_path ?r"
    by (simp_all add: demo_routes_def demo_from_wasi_def exact_fit_def)
  have run: "handled (demo_handlers (hn_request (rt_handler ?r))) [] id demo_config
      (endpoint_input ?r \<lparr>hi_params = [], hi_query = ar_query ?req, hi_body = ar_body ?req\<rparr>) [1] = (?answer, [1, 2])" by code_simp
  have out: "demo_into_wasi (endpoint_response alist_headers Inr ?answer) =
      Inr \<lparr>rs_status = 200, rs_headers = [(''content-type'', ''text/plain; charset=utf-8'')], rs_body = [2, 4, 2]\<rparr>" by code_simp
  have build: "ur_from_parts path_uri ?u = Inr ''/jobs''" by (simp add: path_uri_def)
  note served = http_end_to_end [where fits = exact_fit and req = ?req and params = "[]" and r = ?r and uri = "''/jobs''" and verb = "''post''" and
      headers = "[(''host'', ''h'')]" and body = "[7, 8]" and s = "[1]" and from_wasi = demo_from_wasi and into_wasi = demo_into_wasi and
      V = path_uri and u = ?u and Rs = demo_handlers and ?m0.0 = "[]" and new = id and cfg = demo_config and
      H = alist_headers and into_body = Inr and routes = demo_routes and A = table_router and page = "[]" and none = "[]" and fault = "\<lambda>_. Anyhow ''fault''", OF table_router_laws table_body_laws fns router demo_routes_named uri build r run]
  show ?thesis using served fns out by (auto simp: body_limit_def)
qed

end
