(* ===== verification/GuestProgram.thy ===== *)
theory GuestProgram
  imports HttpServing MessagingFlow MacroSyntax
begin

text \<open>
  The whole of \<open>guest!\<close>: the entry point of \<open>guest-macro/src/lib.rs\<close> reads the configuration (theory
  MacroSyntax) and expands it (\<open>guest.rs\<close>) to a module with the HTTP endpoints (HttpServing) and
  the message handler (GuestMacro) that it asks for; and the entry point of \<open>runtime!\<close>.
\<close>

section \<open>The macros\<close>

text \<open>The modules that a generated guest has: functions and routes, and the handler of messages.\<close>

record ('s, 'm) guest_program =
  gp_http :: "((string \<times> ('s, 'm) endpoint) list \<times> route list) option"
  gp_messaging :: "(string option \<Rightarrow> bytes \<Rightarrow> ('s, string, unit) op) option"

text \<open>The functions of the message module have the names derived from the patterns.\<close>

definition messaging_module :: "(topic list \<Rightarrow> 'h) \<Rightarrow> topic list \<Rightarrow> 'h option" where
  "messaging_module handle topics = (if usable_names (map tp_handler topics) then Some (handle topics) else None)"

definition http_module ::
  "(route \<Rightarrow> ('s, 'm) endpoint) \<Rightarrow> route list \<Rightarrow> ((string \<times> ('s, 'm) endpoint) list \<times> route list) option" where
  "http_module expand_handler routes = map_option (\<lambda>fns. (fns, routes)) (module_functions expand_handler routes)"

text \<open>A module that is not configured is left out; \<open>None\<close> is generated code that does not compile.\<close>

definition configured :: "('c \<Rightarrow> 'm option) \<Rightarrow> 'c option \<Rightarrow> 'm option option" where
  "configured expand section' = (case section' of None \<Rightarrow> Some None | Some c \<Rightarrow> map_option Some (expand c))"

definition guest_expand ::
  "(guest_config \<Rightarrow> route \<Rightarrow> ('s, 'm) endpoint) \<Rightarrow> (guest_config \<Rightarrow> topic list \<Rightarrow> string option \<Rightarrow> bytes \<Rightarrow> ('s, string, unit) op)
    \<Rightarrow> guest_config \<Rightarrow> ('s, 'm) guest_program option" where
  "guest_expand endpoint_of arms_of config =
     Option.bind (configured (http_module (endpoint_of config)) (gc_http config)) (\<lambda>http_mod.
     Option.bind (configured (messaging_module (arms_of config)) (gc_messaging config)) (\<lambda>messaging_mod.
     Some \<lparr>gp_http = http_mod, gp_messaging = messaging_mod\<rparr>))"

text \<open>\<open>parse_macro_input!\<close> turns an error of the parser into a compile error; a panic is one as well.\<close>

definition guest_macro ::
  "string path_syntax \<Rightarrow> (guest_config \<Rightarrow> route \<Rightarrow> ('s, 'm) endpoint)
    \<Rightarrow> (guest_config \<Rightarrow> topic list \<Rightarrow> string option \<Rightarrow> bytes \<Rightarrow> ('s, string, unit) op) \<Rightarrow> token list
    \<Rightarrow> string + ('s, 'm) guest_program option" where
  "guest_macro P endpoint_of arms_of input =
     res_bind (read_guest P input) (\<lambda>config. Inr (guest_expand endpoint_of arms_of config))"

text \<open>The expansion of a runtime configuration cannot fail.\<close>

definition runtime_macro :: "rust_path path_syntax \<Rightarrow> token_text \<Rightarrow> token list \<Rightarrow> string + expanded" where
  "runtime_macro Q X input = res_bind (read_runtime Q input) (\<lambda>parsed. Inr (expand_runtime X parsed))"

section \<open>Lemmas\<close>

lemma last_in:
  assumes "fold (\<lambda>x acc. case f x of None \<Rightarrow> acc | Some y \<Rightarrow> Some y) xs d = Some z"
  shows "d = Some z \<or> (\<exists>x \<in> set xs. f x = Some z)"
  using assms
proof (induction xs arbitrary: d)
  case (Cons x xs)
  then have "fold (\<lambda>x acc. case f x of None \<Rightarrow> acc | Some y \<Rightarrow> Some y) xs (case f x of None \<Rightarrow> d | Some y \<Rightarrow> Some y) = Some z"
    by simp
  from Cons.IH [OF this] show ?case by (auto split: option.splits)
qed simp

lemma last_http_in:
  assumes "last_http xs None = Some routes"
  shows "OptHttp routes \<in> set xs"
proof -
  let ?f = "\<lambda>x. case x of OptHttp h \<Rightarrow> Some h | _ \<Rightarrow> None"
  have "(\<lambda>x acc. case x of OptHttp h \<Rightarrow> Some h | _ \<Rightarrow> acc) = (\<lambda>x acc. case ?f x of None \<Rightarrow> acc | Some y \<Rightarrow> Some y)"
    by (intro ext) (simp split: guest_opt.split)
  then obtain x where x: "x \<in> set xs" "?f x = Some routes"
    using last_in [of ?f xs None routes] assms by (auto simp: last_http_def)
  have "x = OptHttp routes" using x(2) by (cases x) simp_all
  with x(1) show ?thesis by simp
qed

lemma last_messaging_in:
  assumes "last_messaging xs None = Some topics"
  shows "OptMessaging topics \<in> set xs"
proof -
  let ?f = "\<lambda>x. case x of OptMessaging m \<Rightarrow> Some m | _ \<Rightarrow> None"
  have "(\<lambda>x acc. case x of OptMessaging m \<Rightarrow> Some m | _ \<Rightarrow> acc) = (\<lambda>x acc. case ?f x of None \<Rightarrow> acc | Some y \<Rightarrow> Some y)"
    by (intro ext) (simp split: guest_opt.split)
  then obtain x where x: "x \<in> set xs" "?f x = Some topics"
    using last_in [of ?f xs None topics] assms by (auto simp: last_messaging_def)
  have "x = OptMessaging topics" using x(2) by (cases x) simp_all
  with x(1) show ?thesis by simp
qed

lemma res_all_in:
  assumes "res_all f xs = Inr ys" and "y \<in> set ys"
  shows "\<exists>x \<in> set xs. f x = Inr y"
  using assms
proof (induction xs arbitrary: ys)
  case (Cons x xs)
  obtain z zs where z: "f x = Inr z" "res_all f xs = Inr zs" "ys = z # zs"
    using Cons.prems(1) by (auto simp: res_bind_Inr_iff)
  show ?case
  proof (cases "y = z")
    case False
    then have "y \<in> set zs" using Cons.prems(2) z(3) by simp
    from Cons.IH [OF z(2) this] show ?thesis by auto
  qed (use z in simp)
qed simp

lemma mapped_in: "List.map_filter f xs = [y] \<Longrightarrow> \<exists>x \<in> set xs. f x = Some y"
  by (induction xs) (auto simp: List.map_filter_def split: option.splits if_splits)

lemma checked_config:
  assumes "check_guest settings = Inr cfg"
  shows "(\<forall>routes. gc_http cfg = Some routes \<longrightarrow> (\<exists>rs. RawHttp rs \<in> set settings \<and> res_all check_route rs = Inr routes)) \<and>
    (\<forall>topics. gc_messaging cfg = Some topics \<longrightarrow> (\<exists>ts. RawMessaging ts \<in> set settings \<and>
      res_all (\<lambda>(pat, message). parse_topic pat message) ts = Inr topics)) \<and>
    RawOwner (gc_owner cfg) \<in> set settings \<and> RawProvider (gc_provider cfg) \<in> set settings"
proof -
  obtain opts where opts: "res_all check_setting settings = Inr opts" "parse_config opts = Inr cfg"
    using assms by (auto simp: check_guest_def res_bind_Inr_iff)
  have spec: "owners opts = [gc_owner cfg]" "providers opts = [gc_provider cfg]"
      "gc_http cfg = last_http opts None" "gc_messaging cfg = last_messaging opts None"
    using parse_config_spec [of opts] opts(2) by simp_all
  note from_setting = res_all_in [OF opts(1)]
  have http: "\<exists>rs. RawHttp rs \<in> set settings \<and> res_all check_route rs = Inr routes" if "gc_http cfg = Some routes" for routes
  proof -
    have "OptHttp routes \<in> set opts" using last_http_in spec(3) that by simp
    then obtain st where st: "st \<in> set settings" "check_setting st = Inr (OptHttp routes)" using from_setting by blast
    obtain rs where "st = RawHttp rs" "res_all check_route rs = Inr routes"
      using st(2) by (cases st) (auto simp: res_bind_Inr_iff)
    with st(1) show ?thesis by blast
  qed
  have topics: "\<exists>ts. RawMessaging ts \<in> set settings \<and> res_all (\<lambda>(pat, message). parse_topic pat message) ts = Inr topics"
    if "gc_messaging cfg = Some topics" for topics
  proof -
    have "OptMessaging topics \<in> set opts" using last_messaging_in spec(4) that by simp
    then obtain st where st: "st \<in> set settings" "check_setting st = Inr (OptMessaging topics)" using from_setting by blast
    obtain ts where "st = RawMessaging ts" "res_all (\<lambda>(pat, message). parse_topic pat message) ts = Inr topics"
      using st(2) by (cases st) (auto simp: res_bind_Inr_iff)
    with st(1) show ?thesis by blast
  qed
  have "OptOwner (gc_owner cfg) \<in> set opts" "OptProvider (gc_provider cfg) \<in> set opts"
    using spec(1,2) unfolding owners_def providers_def by (auto dest!: mapped_in split: guest_opt.splits)
  then obtain so sp where st: "so \<in> set settings" "check_setting so = Inr (OptOwner (gc_owner cfg))"
      "sp \<in> set settings" "check_setting sp = Inr (OptProvider (gc_provider cfg))" using from_setting by blast
  have "so = RawOwner (gc_owner cfg)" using st(2) by (cases so) (auto simp: res_bind_Inr_iff)
  moreover have "sp = RawProvider (gc_provider cfg)" using st(4) by (cases sp) (auto simp: res_bind_Inr_iff)
  ultimately have "RawOwner (gc_owner cfg) \<in> set settings" "RawProvider (gc_provider cfg) \<in> set settings" using st(1,3) by simp_all
  then show ?thesis using http topics by blast
qed

lemma checked_route:
  assumes "check_route (path, hs) = Inr r"
  shows "rt_path r = path" and "handler_name path = Inr (rt_function r)" and "extract_params path = Inr (rt_params r)"
  using assms by (auto simp: parse_route_def res_bind_Inr_iff split: option.splits)

lemma written_route:
  assumes "check_guest settings = Inr cfg" and "gc_http cfg = Some routes" and "r \<in> set routes"
  shows "\<exists>rs hs. RawHttp rs \<in> set settings \<and> (rt_path r, hs) \<in> set rs \<and> check_route (rt_path r, hs) = Inr r"
proof -
  obtain rs where rs: "RawHttp rs \<in> set settings" "res_all check_route rs = Inr routes"
    using checked_config [OF assms(1)] assms(2) by blast
  from res_all_in [OF rs(2) assms(3)] obtain path hs where "(path, hs) \<in> set rs" "check_route (path, hs) = Inr r" by auto
  with rs(1) checked_route(1) [of path hs r] show ?thesis by metis
qed

lemma checked_routes:
  assumes "check_guest settings = Inr cfg" and "gc_http cfg = Some routes" and "r \<in> set routes"
  shows "handler_name (rt_path r) = Inr (rt_function r)"
  using written_route [OF assms] checked_route(2) by blast

lemma written_topic:
  assumes "check_guest settings = Inr cfg" and "gc_messaging cfg = Some topics" and "tp \<in> set topics"
  shows "\<exists>ts. RawMessaging ts \<in> set settings \<and> (tp_pattern tp, tp_message tp) \<in> set ts"
proof -
  obtain ts where ts: "RawMessaging ts \<in> set settings" "res_all (\<lambda>(pat, message). parse_topic pat message) ts = Inr topics"
    using checked_config [OF assms(1)] assms(2) by blast
  obtain pat message where "(pat, message) \<in> set ts" "parse_topic pat message = Inr tp"
    using res_all_in [OF ts(2) assms(3)] by auto
  with ts(1) show ?thesis by (auto simp: parse_topic_def res_bind_Inr_iff)
qed

lemma checked_topics:
  assumes "check_guest settings = Inr cfg" and "gc_messaging cfg = Some topics" and "tp \<in> set topics"
  shows "handler_name (tp_pattern tp) = Inr (tp_handler tp)"
proof -
  obtain ts where "res_all (\<lambda>(pat, message). parse_topic pat message) ts = Inr topics"
    using checked_config [OF assms(1)] assms(2) by blast
  from res_all_in [OF this assms(3)] show ?thesis by (auto simp: parse_topic_def res_bind_Inr_iff)
qed

lemma guest_expand_Some:
  "guest_expand E M cfg = Some prog \<longleftrightarrow>
    (case gc_http cfg of None \<Rightarrow> gp_http prog = None
     | Some routes \<Rightarrow> \<exists>fns. module_functions (E cfg) routes = Some fns \<and> gp_http prog = Some (fns, routes)) \<and>
    (case gc_messaging cfg of None \<Rightarrow> gp_messaging prog = None
     | Some topics \<Rightarrow> usable_names (map tp_handler topics) \<and> gp_messaging prog = Some (M cfg topics))"
  by (cases prog) (auto simp: guest_expand_def configured_def http_module_def messaging_module_def
      bind_eq_Some_conv split: option.splits)

text \<open>It compiles exactly when the derived names of its routes, and those of its topics, are usable.\<close>

lemma guest_expand_compiles:
  "guest_expand E M cfg \<noteq> None \<longleftrightarrow>
    (\<forall>routes. gc_http cfg = Some routes \<longrightarrow> routes_usable routes) \<and>
    (\<forall>topics. gc_messaging cfg = Some topics \<longrightarrow> usable_names (map tp_handler topics))"
  by (cases "gc_http cfg"; cases "gc_messaging cfg")
    (simp_all add: guest_expand_def configured_def http_module_def messaging_module_def module_functions_def)

text \<open>Requests and messages of a program, given the configuration that it was expanded from.\<close>

lemma program_request:
  assumes "router_laws fits A" and "body_laws A" and "check_guest settings = Inr cfg"
    and "guest_expand (endpoint_function A H into_body Rs m0 new) M cfg = Some prog" and "gp_http prog = Some (fns, routes)"
    and request: "http_router A fns routes = Some router" "r \<in> set routes" "from_wasi q = Inr req"
      "ar_method req = hn_method (rt_handler r)" "fits (rt_path r) (ar_path req) = Some params"
      "\<forall>x \<in> set routes. fits (rt_path x) (ar_path req) \<noteq> None \<longrightarrow> rt_path x = rt_path r"
    and handled: "handled (Rs (hn_request (rt_handler r))) m0 new cfg
        (endpoint_input r \<lparr>hi_params = params, hi_query = ar_query req, hi_body = ar_body req\<rparr>) s = (answer, s')"
  shows "(\<exists>rs hs. RawHttp rs \<in> set settings \<and> (rt_path r, hs) \<in> set rs \<and> check_route (rt_path r, hs) = Inr r) \<and>
    (\<exists>resp t. (if takes_body r \<and> body_limit < length (ar_body req) then response_status resp = 413 \<and> t = s
       else resp = endpoint_response H into_body answer \<and> t = s') \<and>
     guest_handle A fns routes from_wasi into_wasi q s = (res_map_err GuestCode (into_wasi resp), t))"
proof
  have fns: "module_functions (endpoint_function A H into_body Rs m0 new cfg) routes = Some fns" "gc_http cfg = Some routes"
    using assms(4,5) unfolding guest_expand_Some by (auto split: option.splits)
  have names: "\<forall>x \<in> set routes. handler_name (rt_path x) = Inr (rt_function x)" using checked_routes [OF assms(3) fns(2)] by blast
  note run = guest_handle_run [where fits = fits and from_wasi = from_wasi and q = q and Rs = Rs and new = new and ?m0.0 = m0 and cfg = cfg and
      req = req and params = params and r = r and s = s, OF assms(1,2) fns(1) request(1) names request(2-6)]
  show "\<exists>rs hs. RawHttp rs \<in> set settings \<and> (rt_path r, hs) \<in> set rs \<and> check_route (rt_path r, hs) = Inr r"
    by (rule written_route [OF assms(3) fns(2) request(2)])
  show "\<exists>resp t. (if takes_body r \<and> body_limit < length (ar_body req) then response_status resp = 413 \<and> t = s
       else resp = endpoint_response H into_body answer \<and> t = s') \<and>
     guest_handle A fns routes from_wasi into_wasi q s = (res_map_err GuestCode (into_wasi resp), t)"
  proof (cases "body_fits r (ar_body req)")
    case True
    from run(1) [OF this handled] True show ?thesis
      by (intro exI [of _ "endpoint_response H into_body answer"] exI [of _ s']) (auto simp: body_fits_def)
  next
    case False
    from run(2) [OF this] False show ?thesis by (auto simp: body_fits_def)
  qed
qed

lemma program_message:
  assumes "check_guest settings = Inr cfg" and "guest_expand E (handle_message Ms m0 new fault) cfg = Some prog"
    and "gp_messaging prog = Some handler" and "gc_messaging cfg = Some (earlier @ tp # later)"
    and first: "\<forall>t \<in> set earlier. \<not> contains (tp_pattern t) topic" "contains (tp_pattern tp) topic"
  shows "(\<exists>ts. RawMessaging ts \<in> set settings \<and> (tp_pattern tp, tp_message tp) \<in> set ts) \<and>
    (\<forall>payload. handler (Some topic) payload =
      op_map_err fault (op_bind (handled (Ms (tp_message tp)) m0 new cfg payload) (\<lambda>_. op_return ())))"
proof -
  have "handler = handle_message Ms m0 new fault cfg (earlier @ tp # later)"
    using assms(2,3,4) unfolding guest_expand_Some by simp
  then show ?thesis using written_topic [OF assms(1,4)] by (simp add: handle_message_first [OF first])
qed

text \<open>The runtime macro accepts every configuration that is written in its syntax.\<close>

lemma runtime_macro_written:
  assumes "path_syntax_laws Q"
  shows "runtime_macro Q X (show_runtime comma Q options) = Inr (expand_runtime X (parse_runtime options))"
  by (simp add: runtime_macro_def read_runtime_written [OF assms])

section \<open>Properties\<close>

text \<open>
  C13: A guest as it is written.  The text of a guest, in the syntax of the macro, either is rejected
  with the first error or panic of its checks (a path or pattern that leaves no identifier), or has
  routes or topics whose derived names collide or are reserved words and does not compile, or is a
  program: a request that fits one of its routes, within the limit of bodies that are read, runs the
  handler of the request type that was written for that path, and a message runs the handler of the
  first written topic whose pattern occurs in its own, each under the owner and the provider that
  were written.
\<close>

theorem guest_program_runs:
  assumes "path_syntax_laws P" and "list_all setting_ok settings" and "router_laws fits A" and "body_laws A"
  shows "case guest_macro P (endpoint_function A H into_body Rs m0 new) (handle_message Ms m0 new fault) (show_guest comma P settings) of
      Inl e \<Rightarrow> check_guest settings = Inl e
    | Inr None \<Rightarrow> \<exists>cfg. check_guest settings = Inr cfg \<and>
        ((\<exists>routes. gc_http cfg = Some routes \<and> \<not> routes_usable routes) \<or>
         (\<exists>topics. gc_messaging cfg = Some topics \<and> \<not> usable_names (map tp_handler topics)))
    | Inr (Some prog) \<Rightarrow> \<exists>cfg. check_guest settings = Inr cfg \<and>
        RawOwner (gc_owner cfg) \<in> set settings \<and> RawProvider (gc_provider cfg) \<in> set settings \<and>
        (\<forall>fns routes router r q req params s answer s'. gp_http prog = Some (fns, routes) \<and> http_router A fns routes = Some router \<and>
          r \<in> set routes \<and> from_wasi q = Inr req \<and> ar_method req = hn_method (rt_handler r) \<and>
          fits (rt_path r) (ar_path req) = Some params \<and>
          (\<forall>x \<in> set routes. fits (rt_path x) (ar_path req) \<noteq> None \<longrightarrow> rt_path x = rt_path r) \<and>
          handled (Rs (hn_request (rt_handler r))) m0 new cfg
            (endpoint_input r \<lparr>hi_params = params, hi_query = ar_query req, hi_body = ar_body req\<rparr>) s = (answer, s') \<longrightarrow>
          (\<exists>rs hs. RawHttp rs \<in> set settings \<and> (rt_path r, hs) \<in> set rs \<and> check_route (rt_path r, hs) = Inr r) \<and>
          (\<exists>resp t. (if takes_body r \<and> body_limit < length (ar_body req) then response_status resp = 413 \<and> t = s
             else resp = endpoint_response H into_body answer \<and> t = s') \<and>
           guest_handle A fns routes from_wasi into_wasi q s = (res_map_err GuestCode (into_wasi resp), t))) \<and>
        (\<forall>handler earlier tp later topic. gp_messaging prog = Some handler \<and> gc_messaging cfg = Some (earlier @ tp # later) \<and>
          (\<forall>t \<in> set earlier. \<not> contains (tp_pattern t) topic) \<and> contains (tp_pattern tp) topic \<longrightarrow>
          (\<exists>ts. RawMessaging ts \<in> set settings \<and> (tp_pattern tp, tp_message tp) \<in> set ts) \<and>
          (\<forall>payload. handler (Some topic) payload =
            op_map_err fault (op_bind (handled (Ms (tp_message tp)) m0 new cfg payload) (\<lambda>_. op_return ()))))"
proof -
  let ?E = "endpoint_function A H into_body Rs m0 new" and ?M = "handle_message Ms m0 new fault"
  have read: "guest_macro P ?E ?M (show_guest comma P settings) =
      res_bind (check_guest settings) (\<lambda>cfg. Inr (guest_expand ?E ?M cfg))"
    by (simp add: guest_macro_def read_guest_written [OF assms(1,2)])
  show ?thesis
  proof (cases "check_guest settings")
    case (Inl e)
    then show ?thesis by (simp add: read)
  next
    case (Inr cfg)
    show ?thesis
    proof (cases "guest_expand ?E ?M cfg")
      case None
      then show ?thesis using Inr guest_expand_compiles [of ?E ?M cfg] by (auto simp: read)
    next
      case (Some prog)
      have run: "guest_macro P ?E ?M (show_guest comma P settings) = Inr (Some prog)" by (simp add: read Inr Some)
      note config = checked_config [OF Inr, THEN conjunct2, THEN conjunct2]
      show ?thesis
        unfolding run sum.case option.case
        apply (intro exI [of _ cfg] conjI [OF Inr] conjI [OF config [THEN conjunct1]] conjI [OF config [THEN conjunct2]])
        apply (rule conjI; intro allI impI; elim conjE)
        subgoal by (rule program_request [OF assms(3,4) Inr Some]; assumption)
        subgoal by (rule program_message [OF Inr Some]; assumption)
        done
    qed
  qed
qed

text \<open>A guest with two routes and two topics; its state is a log of lengths.\<close>

definition demo_settings :: "raw_setting list" where
  "demo_settings = [RawOwner ''at'', RawProvider ''P'',
     RawHttp [(''/jobs'', [RawHandler ''post'' ''Jobs'' WithBody ''Reply'']), (''/a-b'', [RawHandler ''get'' ''Ab'' NoFlag ''Reply''])],
     RawMessaging [(''a'', ''A''), (''b'', ''Bee'')]]"

definition demo_messages :: "string \<Rightarrow> (bytes, nat, nat list, string, (string \<times> string) list, string, unit) handler_ops" where
  "demo_messages name = \<lparr>ho_from_input = (\<lambda>b. if b = [] then Inl ''empty'' else Inr (length b)),
     ho_handle = (\<lambda>n ctx log. (Inr (reply_ok [] ()), log @ [n + length name]))\<rparr>"

definition demo_written :: guest_config where
  "demo_written = demo_config\<lparr>gc_http := Some demo_routes, gc_messaging := Some [demo_topic ''a'' ''A'', demo_topic ''b'' ''Bee'']\<rparr>"

theorem guest_program_runs_witness:
  "\<exists>prog fns routes handler. guest_macro ident_syntax (endpoint_function table_router alist_headers Inr demo_handlers [] id)
        (handle_message demo_messages [] id id) (show_guest True ident_syntax demo_settings) = Inr (Some prog) \<and>
     gp_http prog = Some (fns, routes) \<and> gp_messaging prog = Some handler \<and>
     guest_handle table_router fns routes demo_from_wasi demo_into_wasi (''post'', ''/jobs'', [], [7, 8]) [1] =
       (Inr \<lparr>rs_status = 200, rs_headers = [(''content-type'', ''text/plain; charset=utf-8'')], rs_body = [2, 4, 2]\<rparr>, [1, 2]) \<and>
     handler (Some ''xb'') [5] [] = (Inr (), [4])"
proof -
  let ?E = "endpoint_function table_router alist_headers Inr demo_handlers [] id" and ?M = "handle_message demo_messages [] id id"
  let ?r = "hd demo_routes" and ?req = "\<lparr>ar_method = ''post'', ar_path = ''/jobs'', ar_query = None, ar_body = [7, 8]\<rparr>"
  have ok: "list_all setting_ok demo_settings" by (simp add: demo_settings_def)
  have check: "check_guest demo_settings = Inr demo_written" by code_simp
  have "usable_names (map tp_handler [demo_topic ''a'' ''A'', demo_topic ''b'' ''Bee''])" by code_simp
  then have "guest_expand ?E ?M demo_written \<noteq> None"
    unfolding guest_expand_compiles by (simp add: demo_written_def demo_routes_usable)
  then obtain prog where prog: "guest_expand ?E ?M demo_written = Some prog" by blast
  have macro: "guest_macro ident_syntax ?E ?M (show_guest True ident_syntax demo_settings) = Inr (Some prog)"
    using read_guest_written [OF demo_syntax_laws(1) ok] by (simp add: guest_macro_def check prog)
  obtain fns where fns: "module_functions (?E demo_written) demo_routes = Some fns" "gp_http prog = Some (fns, demo_routes)"
    and handler: "gp_messaging prog = Some (?M demo_written [demo_topic ''a'' ''A'', demo_topic ''b'' ''Bee''])"
    using prog [unfolded guest_expand_Some] by (auto simp: demo_written_def)
  have request: "?r \<in> set demo_routes" "demo_from_wasi (''post'', ''/jobs'', [], [7, 8]) = Inr ?req"
      "ar_method ?req = hn_method (rt_handler ?r)" "exact_fit (rt_path ?r) (ar_path ?req) = Some []"
      "\<forall>x \<in> set demo_routes. exact_fit (rt_path x) (ar_path ?req) \<noteq> None \<longrightarrow> rt_path x = rt_path ?r"
    by (simp_all add: demo_routes_def demo_from_wasi_def exact_fit_def)
  let ?answer = "Inr (reply_ok [] [2, 4, 2]) :: sdk_error + ((string \<times> string) list, bytes) sdk_reply"
  have run: "handled (demo_handlers (hn_request (rt_handler ?r))) [] id demo_written
      (endpoint_input ?r \<lparr>hi_params = [], hi_query = ar_query ?req, hi_body = ar_body ?req\<rparr>) [1] = (?answer, [1, 2])" by code_simp
  have out: "demo_into_wasi (endpoint_response alist_headers Inr ?answer) =
      Inr \<lparr>rs_status = 200, rs_headers = [(''content-type'', ''text/plain; charset=utf-8'')], rs_body = [2, 4, 2]\<rparr>" by code_simp
  have call: "op_map_err id (op_bind (handled (demo_messages (tp_message (demo_topic ''b'' ''Bee''))) [] id demo_written [5]) (\<lambda>_. op_return ())) [] =
      (Inr () :: string + unit, [4])" by code_simp
  have first: "\<forall>t \<in> set [demo_topic ''a'' ''A'']. \<not> contains (tp_pattern t) ''xb''" "contains (tp_pattern (demo_topic ''b'' ''Bee'')) ''xb''"
    by (simp_all add: demo_topic_def)
  note runs = guest_program_runs [where H = alist_headers and into_body = Inr and Rs = demo_handlers and ?m0.0 = "[]" and new = id and
      Ms = demo_messages and fault = id and comma = True and from_wasi = demo_from_wasi and into_wasi = demo_into_wasi,
      OF demo_syntax_laws(1) ok table_router_laws table_body_laws, unfolded macro sum.case option.case check, simplified sum.inject simp_thms]
  obtain router where router: "http_router table_router fns demo_routes = Some router"
    unfolding http_router_def add_routes_routed [OF fns(1) order_refl, of table_router] table_router_routed by blast
  have "\<exists>resp t. (if takes_body ?r \<and> body_limit < length (ar_body ?req) then response_status resp = 413 \<and> t = [1]
        else resp = endpoint_response alist_headers Inr ?answer \<and> t = [1, 2]) \<and>
      guest_handle table_router fns demo_routes demo_from_wasi demo_into_wasi (''post'', ''/jobs'', [], [7, 8]) [1] =
        (res_map_err GuestCode (demo_into_wasi resp), t)"
    by (rule runs [THEN conjunct2, THEN conjunct2, THEN conjunct1, rule_format,
          where router = router and r = ?r and req = ?req and params = "[]", THEN conjunct2])
      (use fns(2) router request run in blast)
  then have "guest_handle table_router fns demo_routes demo_from_wasi demo_into_wasi (''post'', ''/jobs'', [], [7, 8]) [1] =
      (res_map_err GuestCode (demo_into_wasi (endpoint_response alist_headers Inr ?answer)), [1, 2])"
    by (auto simp: body_limit_def)
  moreover have "?M demo_written [demo_topic ''a'' ''A'', demo_topic ''b'' ''Bee''] (Some ''xb'') [5] =
      op_map_err id (op_bind (handled (demo_messages (tp_message (demo_topic ''b'' ''Bee''))) [] id demo_written [5]) (\<lambda>_. op_return ()))"
    by (rule runs [THEN conjunct2, THEN conjunct2, THEN conjunct2, rule_format,
          where handler = "?M demo_written [demo_topic ''a'' ''A'', demo_topic ''b'' ''Bee'']" and
            earlier = "[demo_topic ''a'' ''A'']" and later = "[]" and topic = "''xb''", THEN conjunct2, rule_format])
      (use handler first in \<open>simp add: demo_written_def id_def\<close>)
  ultimately show ?thesis using fns(2) handler macro out call by auto
qed

end
