(* ===== verification/Examples.thy ===== *)
theory Examples
  imports HostSessions
begin

text \<open>
  Guests of the repository's \<open>examples/*/guest.rs\<close> on the modelled hosts: key-value, vault, blobstore,
  messaging and websockets (the HTTP proxy example is in theory HttpFlow).  A handler is the
  sequence of its host calls, with the calls that drop what it owns, and what it replies.

  A panic of a guest ends its instance, so nothing is dropped after it.  The JSON library is a
  parameter: \<open>parse\<close> is \<open>serde_json::from_slice\<close>.
\<close>

section \<open>Handlers\<close>

text \<open>
  An error of the interface with the context that the handler adds, a trap of the host, an error
  of its own, or a panic (\<open>unwrap\<close>, \<open>expect\<close>, \<open>assert_eq!\<close>).
\<close>

datatype 'e example_fault = ExErr string 'e | ExTrap anyhow | ExOther anyhow | ExPanic

text \<open>
  \<open>scoped release m\<close>: a value is dropped when \<open>m\<close> is left; \<open>on_failure release m\<close>: only when \<open>m\<close> fails,
  because it moves the value away.  A panic or a trap ends the instance.
\<close>

fun ends_instance :: "'e example_fault + 'r \<Rightarrow> bool" where
  "ends_instance (Inl ExPanic) = True"
| "ends_instance (Inl (ExTrap e)) = True"
| "ends_instance r = False"

definition scoped :: "('s, 'x, unit) op \<Rightarrow> ('s, 'e example_fault, 'r) op \<Rightarrow> ('s, 'e example_fault, 'r) op" where
  "scoped release m s = (case m s of (r, s1) \<Rightarrow> if ends_instance r then (r, s1) else (r, snd (release s1)))"

definition on_failure :: "('s, 'x, unit) op \<Rightarrow> ('s, 'e example_fault, 'r) op \<Rightarrow> ('s, 'e example_fault, 'r) op" where
  "on_failure release m s = (case m s of (r, s1) \<Rightarrow> if ends_instance r \<or> \<not> isl r then (r, s1) else (r, snd (release s1)))"

definition keyvalue_example ::
  "('t, in_mem_bucket kv_entry) table_ops \<Rightarrow> bytes \<Rightarrow> ((kv_store, 't) ctx_view, kv_error example_fault, string) op" where
  "keyvalue_example T body =
     op_bind (op_map_err (ExErr ''opening bucket'') (host_open T open_bucket ''credibil_bucket'')) (\<lambda>bucket.
     scoped (host_drop_bucket T bucket)
       (op_bind (op_map_err (ExErr ''storing data'') (host_set T in_mem_ops bucket ''my_key'' body)) (\<lambda>_.
        op_bind (op_map_err (ExErr ''reading data'') (host_get T in_mem_ops bucket ''my_key'')) (\<lambda>res.
        op_return ''Hello, World!''))))"

definition vault_example ::
  "('t, in_memory_locker locker_entry) table_ops \<Rightarrow> (bytes \<Rightarrow> anyhow + 'j) \<Rightarrow> bytes \<Rightarrow>
   ((vault_store, 't) ctx_view, vault_error example_fault, 'j) op" where
  "vault_example T parse body =
     op_bind (op_map_err (ExErr ''failed to open vault locker'') (vault_open T open_locker ''credibil-locker'')) (\<lambda>locker.
     scoped (vault_drop T locker)
       (op_bind (op_map_err (ExErr ''issue setting secret'') (vault_set T locker_ops locker ''secret-id'' body)) (\<lambda>_.
        op_bind (op_map_err (ExErr ''issue retriving secret'') (vault_get T locker_ops locker ''secret-id'')) (\<lambda>secret.
        if secret \<noteq> Some body then op_fail ExPanic
        else op_lift (res_map_err (\<lambda>e. ExOther (Context ''deserializing data'' e)) (parse body))))))"

text \<open>
  The blobstore handler.  \<open>finish\<close> and \<open>consume_sync\<close> take ownership of their handles; the host
  leaves both entries in its table.  \<open>write\<close> is the write to the output stream, of wasmtime.
\<close>

definition outgoing_capacity :: nat where
  "outgoing_capacity = 1024"

definition outgoing_finish :: "nat \<Rightarrow> ('t, unit) blob_handler" where
  "outgoing_finish self = op_return ()"

type_synonym pipe_writer = "nat \<Rightarrow> bytes \<Rightarrow> (blob_world, string, unit) op"

definition write_stream :: "'t blob_table \<Rightarrow> pipe_writer \<Rightarrow> nat \<Rightarrow> bytes \<Rightarrow> ((blob_world, 't) ctx_view, string, unit) op" where
  "write_stream T write stream body v = (case t_get T stream (cv_table v) of
      Inr (BOutput p) \<Rightarrow> on_ctx (write p body) v
    | _ \<Rightarrow> (Inl ''closed'', v))"

definition blob_read_back ::
  "'t blob_table \<Rightarrow> (bytes \<Rightarrow> anyhow + 'j) \<Rightarrow> bytes \<Rightarrow> nat \<Rightarrow> nat \<Rightarrow> ((blob_world, 't) ctx_view, anyhow example_fault, 'j) op" where
  "blob_read_back T parse body outgoing container =
     op_bind (on_failure (blob_drop T outgoing)
         (op_map_err (ExErr ''failed to write data'') (blob_write_data T container ''request'' outgoing))) (\<lambda>_.
     op_bind (op_map_err (ExErr ''issue finishing'') (outgoing_finish outgoing)) (\<lambda>_.
     op_bind (op_map_err (ExErr ''failed to read data'') (blob_get_data T container ''request'' 0 0)) (\<lambda>incoming.
     op_bind (op_map_err (ExErr ''failed to create incoming value'') (consume_sync T incoming)) (\<lambda>data.
     if data \<noteq> body then op_fail ExPanic
     else op_lift (res_map_err (\<lambda>e. ExOther (Context ''deserializing data'' e)) (parse data))))))"

definition blob_store_back ::
  "'t blob_table \<Rightarrow> pipe_writer \<Rightarrow> (bytes \<Rightarrow> anyhow + 'j) \<Rightarrow> int \<Rightarrow> bytes \<Rightarrow> nat \<Rightarrow> nat \<Rightarrow>
   ((blob_world, 't) ctx_view, anyhow example_fault, 'j) op" where
  "blob_store_back T write parse now body outgoing stream =
     op_bind (on_failure (blob_drop T outgoing)
         (op_map_err (\<lambda>e. ExOther (Anyhow (''writing body: '' @ e))) (write_stream T write stream body))) (\<lambda>_.
     op_bind (on_failure (blob_drop T outgoing)
         (op_map_err (ExErr ''failed to create container'') (blob_create_container T ''container'' now))) (\<lambda>container.
     scoped (blob_drop T container) (blob_read_back T parse body outgoing container)))"

definition blobstore_example ::
  "'t blob_table \<Rightarrow> pipe_writer \<Rightarrow> (bytes \<Rightarrow> anyhow + 'j) \<Rightarrow> int \<Rightarrow> bytes \<Rightarrow>
   ((blob_world, 't) ctx_view, anyhow example_fault, 'j) op" where
  "blobstore_example T write parse now body =
     op_bind (op_map_err ExTrap (new_outgoing_value T)) (\<lambda>outgoing.
     op_bind (op_map_err ExTrap (outgoing_write_body T outgoing)) (\<lambda>made.
     op_bind (on_failure (blob_drop T outgoing)
         (op_lift (res_map_err (\<lambda>_. ExOther (Anyhow ''failed to create stream'')) made))) (\<lambda>stream.
     scoped (blob_drop T stream) (blob_store_back T write parse now body outgoing stream))))"

text \<open>Messaging: \<open>pub_sub\<close>, with \<open>text\<close> the JSON text of the request, and \<open>request_reply_handler\<close>.\<close>

definition pub_sub ::
  "'t msg_table \<Rightarrow> 'w sender \<Rightarrow> bytes \<Rightarrow> (('w, 't) ctx_view, msg_error example_fault, string) op" where
  "pub_sub T sender json_text =
     op_bind (op_map_err (\<lambda>_. ExPanic) (msg_connect T)) (\<lambda>client.
     op_bind (op_map_err ExTrap (msg_new T json_text)) (\<lambda>message.
     op_bind (op_map_err ExTrap (msg_set_content_type T message ''application/json'')) (\<lambda>_.
     op_bind (op_map_err ExTrap (msg_add_metadata T message ''key'' ''example_key'')) (\<lambda>_.
     scoped (msg_drop T client)
       (op_try (producer_send T sender client ''a'' message) (\<lambda>_.
        op_return ''message published''))))))"

definition request_reply_handler ::
  "'t msg_table \<Rightarrow> 'w sender \<Rightarrow> (bytes \<Rightarrow> string) \<Rightarrow> bytes \<Rightarrow> (('w, 't) ctx_view, msg_error example_fault, string) op" where
  "request_reply_handler T sender lossy body =
     op_bind (op_map_err (\<lambda>_. ExPanic) (msg_connect T)) (\<lambda>client.
     op_bind (op_map_err ExTrap (msg_new T body)) (\<lambda>message.
     op_bind (op_map_err (\<lambda>_. ExPanic) (scoped (msg_drop T client) (scoped (msg_drop T message)
         (op_map_err (ExErr []) (msg_request T sender client ''a'' message None))))) (\<lambda>reply.
     case reply of
       [] \<Rightarrow> op_fail ExPanic
     | h # _ \<Rightarrow> scoped (op_for (msg_drop T) reply)
         (op_bind (op_map_err ExTrap (msg_data T h)) (\<lambda>data. op_return (lossy data))))))"

text \<open>The reply of \<open>handle\<close> to a message on topic \<open>c\<close>.\<close>

definition handle_topic_c ::
  "'t msg_table \<Rightarrow> 'w sender \<Rightarrow> (bytes \<Rightarrow> bool) \<Rightarrow> nat \<Rightarrow> (('w, 't) ctx_view, msg_error example_fault, unit) op" where
  "handle_topic_c T sender utf8 message =
     scoped (msg_drop T message)
       (op_bind (op_map_err ExTrap (msg_data T message)) (\<lambda>data.
        if \<not> utf8 data then op_fail (ExOther (Anyhow ''not utf8''))
        else op_bind (op_map_err ExTrap (msg_new T (string_bytes ''Hello from topic c: '' @ data))) (\<lambda>reply.
          op_map_err (ExErr []) (msg_reply T sender message reply))))"

text \<open>Websockets: the body of \<open>POST /socket\<close> goes to the peers that are listed.\<close>

definition post_socket ::
  "'a ws_env \<Rightarrow> ('t, ws_entry) table_ops \<Rightarrow> string \<Rightarrow> (('a ws_state, 't) ctx_view, anyhow example_fault, string) op" where
  "post_socket E T body =
     op_bind (op_map_err (ExErr ''getting websocket server'') (host_get_server T)) (\<lambda>server.
     scoped (host_drop_server server)
       (op_bind (op_map_err (ExErr ''getting websocket peers'') (host_get_peers E T server)) (\<lambda>client_peers.
        op_bind (op_map_err (ExErr ''sending websocket message'')
            (host_send_peers E T server body (map wp_address client_peers))) (\<lambda>_.
        op_return ''message received''))))"

section \<open>Lemmas\<close>

text \<open>An entry without children can be deleted.\<close>

definition deletes :: "('t, 'e) table_ops \<Rightarrow> bool" where
  "deletes T \<longleftrightarrow> (\<forall>h t e. t_get T h t = Inr e \<longrightarrow> (\<exists>t'. t_delete T h t = Inr (Some e, t')))"

lemma slot_table_deletes: "deletes slot_table"
  by (auto simp: deletes_def slot_table_def slot_get_def split: if_splits option.splits)

lemma deletes_entry:
  assumes "table_laws T" and "deletes T" and "t_get T h (cv_table v) = Inr e"
  shows "\<exists>t. delete_entry T h v = (Inr (), v\<lparr>cv_table := t\<rparr>) \<and>
    (\<forall>k. t_get T k t = (if k = h then Inl NotPresent else t_get T k (cv_table v)))"
proof -
  obtain t where t: "t_delete T h (cv_table v) = Inr (Some e, t)" using assms(2,3) unfolding deletes_def by blast
  from table_delete_get(2,3) [OF assms(1) t] show ?thesis
    by (intro exI [of _ t]) (simp add: delete_entry_def t)
qed

lemma scoped_run:
  assumes "m s = (r, s1)" and "\<not> ends_instance r" and "release s1 = (x, s2)"
  shows "scoped release m s = (r, s2)"
  using assms by (simp add: scoped_def)

lemma parse_goes_on [simp]: "\<not> ends_instance (res_map_err (\<lambda>e. ExOther (f e)) x)"
  by (cases x) simp_all

lemma op_bind_Inl:
  "op_bind m f s = (Inl e, t) \<longleftrightarrow> m s = (Inl e, t) \<or> (\<exists>a s'. m s = (Inr a, s') \<and> f a s' = (Inl e, t))"
  by (auto simp: op_bind_def split: prod.splits sum.splits)

lemma keyvalue_example_run:
  assumes "table_laws T" and "deletes T" and "kv_wf (cv_ctx v)" and "keyvalue_example T body v = (r, v')"
  shows "((\<exists>e. r = Inl (ExErr ''opening bucket'' e)) \<and> kv_view (cv_ctx v') = kv_view (cv_ctx v) \<or>
      r = Inr ''Hello, World!'' \<and> kv_view (cv_ctx v') = (kv_view (cv_ctx v))
        (''credibil_bucket'' := (kv_view (cv_ctx v) ''credibil_bucket'')(''my_key'' \<mapsto> body))) \<and>
    (\<forall>k. t_get T k (cv_table v') = t_get T k (cv_table v))"
proof -
  let ?name = "''credibil_bucket''"
  let ?v = "v\<lparr>cv_ctx := snd (open_bucket ?name (cv_ctx v))\<rparr>" and ?b = "\<lparr>bk_name = ?name\<rparr>"
  have run: "host_open T open_bucket ?name v = op_map_err kv_from_table (push_entry T (EBucket ?b)) ?v"
    using on_ctx_run [of "open_bucket ?name" v, OF open_bucket_ok] by (simp add: host_open_def kv_call_def)
  have view: "kv_view (cv_ctx ?v) = kv_view (cv_ctx v)" "kv_wf (cv_ctx ?v)"
    using assms(3) by (simp_all add: kv_view_open kv_wf_open)
  show ?thesis
  proof (rule push_entry_cases [of T "EBucket ?b" ?v])
    fix e assume "push_entry T (EBucket ?b) ?v = (Inl e, ?v)"
    then have "r = Inl (ExErr ''opening bucket'' (kv_from_table e))" "v' = ?v"
      using assms(4) run by (simp_all add: keyvalue_example_def)
    then show ?thesis using view(1) by simp
  next
    fix h t assume t: "t_push T (EBucket ?b) (cv_table ?v) = Inr (h, t)" "push_entry T (EBucket ?b) ?v = (Inr h, ?v\<lparr>cv_table := t\<rparr>)"
    let ?v1 = "?v\<lparr>cv_table := t\<rparr>"
    note push = table_push_get [OF assms(1) t(1)]
    obtain w where w: "so_set in_mem_ops ?b ''my_key'' body (cv_ctx ?v) = (Inr (), w)" "kv_wf w"
        "kv_view w = (kv_view (cv_ctx ?v))(?name := (kv_view (cv_ctx ?v) ?name)(''my_key'' \<mapsto> body))"
      using kv.set_ok [OF view(2), of ?b "''my_key''" body] by auto
    let ?v2 = "?v1\<lparr>cv_ctx := w\<rparr>"
    have bucket: "get_bucket T h ?v1 = (Inr ?b, ?v1)" "get_bucket T h ?v2 = (Inr ?b, ?v2)"
      using push(1) by (simp_all add: get_bucket_ok)
    have set_run: "host_set T in_mem_ops h ''my_key'' body ?v1 = (Inr (), ?v2)"
      using bucket(1) w(1) by (simp add: host_set_def kv_call_ctx_def)
    have get_run: "host_get T in_mem_ops h ''my_key'' ?v2 = (Inr (kv_view w ?name ''my_key''), ?v2)"
      using bucket(2) kv.get_ok [OF w(2), of ?b "''my_key''"] by (simp add: host_get_def kv_call_ctx_def)
    have present: "t_get T h (cv_table ?v2) = Inr (EBucket ?b)" using push(1) by simp
    obtain t2 where t2: "delete_entry T h ?v2 = (Inr (), ?v2\<lparr>cv_table := t2\<rparr>)"
        "\<And>k. t_get T k t2 = (if k = h then Inl NotPresent else t_get T k t)"
      using deletes_entry [OF assms(1,2) present] by auto
    have "keyvalue_example T body v = (Inr ''Hello, World!'', ?v2\<lparr>cv_table := t2\<rparr>)"
      using run t(2) set_run get_run t2(1) by (simp add: keyvalue_example_def scoped_def host_drop_bucket_def)
    then have "r = Inr ''Hello, World!''" "v' = ?v2\<lparr>cv_table := t2\<rparr>" using assms(4) by simp_all
    moreover have "t_get T k t2 = t_get T k (cv_table v)" for k using t2(2) push(2) push(3) [of k] by simp
    ultimately show ?thesis using w(3) view(1) by simp
  qed
qed

lemma vault_example_run:
  assumes "table_laws T" and "deletes T" and "vault_wf (cv_ctx v)" and "vault_example T parse body v = (r, v')"
  shows "((\<exists>e. r = Inl (ExErr ''failed to open vault locker'' e)) \<and> vault_view (cv_ctx v') = vault_view (cv_ctx v) \<or>
      r = res_map_err (\<lambda>e. ExOther (Context ''deserializing data'' e)) (parse body) \<and> vault_view (cv_ctx v') = (vault_view (cv_ctx v))
        (''credibil-locker'' := (vault_view (cv_ctx v) ''credibil-locker'')(''secret-id'' \<mapsto> body))) \<and>
    (\<forall>k. t_get T k (cv_table v') = t_get T k (cv_table v))"
proof -
  let ?name = "''credibil-locker''"
  let ?v = "v\<lparr>cv_ctx := snd (open_locker ?name (cv_ctx v))\<rparr>" and ?b = "\<lparr>lk_identifier = ?name\<rparr>"
  note ok = open_locker_ok [OF assms(3), of ?name]
  have run: "vault_open T open_locker ?name v = op_map_err vault_from_table (push_entry T (ELocker ?b)) ?v"
    using on_ctx_run [of "open_locker ?name" v, OF ok(1)] by (simp add: vault_open_def)
  show ?thesis
  proof (rule push_entry_cases [of T "ELocker ?b" ?v])
    fix e assume "push_entry T (ELocker ?b) ?v = (Inl e, ?v)"
    then have "r = Inl (ExErr ''failed to open vault locker'' (vault_from_table e))" "v' = ?v"
      using assms(4) run by (simp_all add: vault_example_def)
    then show ?thesis using ok(2) by simp
  next
    fix h t assume t: "t_push T (ELocker ?b) (cv_table ?v) = Inr (h, t)" "push_entry T (ELocker ?b) ?v = (Inr h, ?v\<lparr>cv_table := t\<rparr>)"
    let ?v1 = "?v\<lparr>cv_table := t\<rparr>"
    note push = table_push_get [OF assms(1) t(1)]
    have wf: "vault_wf (cv_ctx ?v)" using ok(3) by simp
    obtain w where w: "so_set locker_ops ?b ''secret-id'' body (cv_ctx ?v) = (Inr (), w)" "vault_wf w"
        "vault_view w = (vault_view (cv_ctx ?v))(?name := (vault_view (cv_ctx ?v) ?name)(''secret-id'' \<mapsto> body))"
      using vault.set_ok [OF wf, of ?b "''secret-id''" body] by auto
    let ?v2 = "?v1\<lparr>cv_ctx := w\<rparr>"
    have locker: "get_locker T h ?v1 = (Inr ?b, ?v1)" "get_locker T h ?v2 = (Inr ?b, ?v2)"
      using push(1) by (simp_all add: get_locker_def get_entry_def)
    have set_run: "vault_set T locker_ops h ''secret-id'' body ?v1 = (Inr (), ?v2)"
      using locker(1) w(1) by (simp add: vault_set_def locker_call_def)
    have get_run: "vault_get T locker_ops h ''secret-id'' ?v2 = (Inr (Some body), ?v2)"
      using locker(2) vault.get_ok [OF w(2), of ?b "''secret-id''"] w(3) by (simp add: vault_get_def locker_call_def)
    have present: "t_get T h (cv_table ?v2) = Inr (ELocker ?b)" using push(1) by simp
    obtain t2 where t2: "delete_entry T h ?v2 = (Inr (), ?v2\<lparr>cv_table := t2\<rparr>)"
        "\<And>k. t_get T k t2 = (if k = h then Inl NotPresent else t_get T k t)"
      using deletes_entry [OF assms(1,2) present] by auto
    let ?r = "res_map_err (\<lambda>e. ExOther (Context ''deserializing data'' e)) (parse body)"
    have "vault_example T parse body v = (?r, ?v2\<lparr>cv_table := t2\<rparr>)"
      using run t(2) set_run get_run t2(1) by (simp add: vault_example_def scoped_def vault_drop_def)
    then have "r = ?r" "v' = ?v2\<lparr>cv_table := t2\<rparr>" using assms(4) by simp_all
    moreover have "t_get T k t2 = t_get T k (cv_table v)" for k using t2(2) push(2) push(3) [of k] by simp
    ultimately show ?thesis using w(3) ok(2) by simp
  qed
qed

text \<open>
  The blobstore example.  A write that succeeds adds to the pipe and stays within its capacity; one
  that fails may have written a part.
\<close>

definition pipe_laws :: "pipe_writer \<Rightarrow> bool" where
  "pipe_laws write \<longleftrightarrow> (\<forall>p b w r w'. write p b w = (r, w') \<longrightarrow> (case r of
      Inr _ \<Rightarrow> w' = w\<lparr>bw_pipes := (bw_pipes w)(p := bw_pipes w p @ b)\<rparr> \<and> length (bw_pipes w p @ b) \<le> outgoing_capacity
    | Inl _ \<Rightarrow> \<exists>c. w' = w\<lparr>bw_pipes := (bw_pipes w)(p := c)\<rparr>))"

lemma on_failure_Inr [simp]: "m s = (Inr a, s1) \<Longrightarrow> on_failure release m s = (Inr a, s1)"
  by (simp add: on_failure_def)

lemma on_failure_Inl: "m s = (Inl e, s1) \<Longrightarrow> \<exists>s2. on_failure release m s = (Inl e, s2)"
  by (simp add: on_failure_def)

lemma scoped_result: "scoped release m s = (r, s2) \<Longrightarrow> \<exists>s1. m s = (r, s1) \<and> (\<not> ends_instance r \<longrightarrow> s2 = snd (release s1))"
  by (auto simp: scoped_def split: prod.splits if_splits)

lemma read_back_run:
  assumes "table_laws T" and "t_get T container (cv_table v) = Inr (BContainer c)" and "t_get T outgoing (cv_table v) = Inr (BOutgoing p)"
    and "bw_pipes (cv_ctx v) p = body" and "blob_read_back T parse body outgoing container v = (r, v')"
  shows "r \<noteq> Inl ExPanic \<and> (\<forall>j. r = Inr j \<longrightarrow> parse body = Inr j \<and> (\<exists>i t. t_push T (BIncoming body) (cv_table v) = Inr (i, t) \<and>
    v' = \<lparr>cv_ctx = snd (write_data c ''request'' body (cv_ctx v)), cv_table = t\<rparr>))"
proof -
  let ?v1 = "v\<lparr>cv_ctx := snd (write_data c ''request'' body (cv_ctx v))\<rparr>"
  have put: "blob_write_data T container ''request'' outgoing v = (Inr (), ?v1)"
    using blob_write_run [OF assms(2,3), of "''request''"] assms(4) by simp
  have data: "get_data c ''request'' 0 0 (cv_ctx ?v1) = (Inr (Some body), cv_ctx ?v1)"
    by (simp add: get_data_def write_data_def)
  have read: "blob_get_data T container ''request'' 0 0 ?v1 = blob_push T (BIncoming body) ?v1"
    using data assms(2) by (simp add: blob_get_data_def find_container_ok in_ctx_def)
  show ?thesis
  proof (rule push_entry_cases [of T "BIncoming body" ?v1])
    fix e assume "push_entry T (BIncoming body) ?v1 = (Inl e, ?v1)"
    then have "blob_read_back T parse body outgoing container v = (Inl (ExErr ''failed to read data'' (table_anyhow e)), ?v1)"
      using put read by (simp add: blob_read_back_def outgoing_finish_def blob_push_def)
    then show ?thesis using assms(5) by auto
  next
    fix i t assume t: "t_push T (BIncoming body) (cv_table ?v1) = Inr (i, t)" "push_entry T (BIncoming body) ?v1 = (Inr i, ?v1\<lparr>cv_table := t\<rparr>)"
    have "t_get T i t = Inr (BIncoming body)" using table_push_get(1) [OF assms(1) t(1)] .
    then have "consume_sync T i (?v1\<lparr>cv_table := t\<rparr>) = (Inr body, ?v1\<lparr>cv_table := t\<rparr>)"
      by (simp add: consume_sync_def find_incoming_def get_entry_def)
    then have "blob_read_back T parse body outgoing container v =
        (res_map_err (\<lambda>e. ExOther (Context ''deserializing data'' e)) (parse body), ?v1\<lparr>cv_table := t\<rparr>)"
      using put read t(2) by (simp add: blob_read_back_def outgoing_finish_def blob_push_def)
    then show ?thesis using assms(5) t(1) by (cases "parse body") auto
  qed
qed

lemma container_read_run:
  assumes T: "table_laws T" "deletes T" and at: "t_get T h (cv_table v) = Inr (BContainer c)" "t_get T outgoing (cv_table v) = Inr (BOutgoing p)"
    and pipe: "bw_pipes (cv_ctx v) p = body" and run: "scoped (blob_drop T h) (blob_read_back T parse body outgoing h) v = (r, v')"
  shows "r \<noteq> Inl ExPanic \<and> (\<forall>j. r = Inr j \<longrightarrow> parse body = Inr j \<and> cv_ctx v' = snd (write_data c ''request'' body (cv_ctx v)) \<and>
    (\<exists>i. i \<noteq> h \<and> t_get T i (cv_table v) = Inl NotPresent \<and> (\<forall>k. t_get T k (cv_table v') =
      (if k = h then Inl NotPresent else if k = i then Inr (BIncoming body) else t_get T k (cv_table v)))))"
proof -
  from scoped_result [OF run] obtain v1 where v1: "blob_read_back T parse body outgoing h v = (r, v1)"
      "\<not> ends_instance r \<longrightarrow> v' = snd (blob_drop T h v1)" by blast
  note inner = read_back_run [OF T(1) at pipe v1(1)]
  show ?thesis
  proof (intro conjI allI impI)
    show "r \<noteq> Inl ExPanic" using inner by blast
    fix j assume j: "r = Inr j"
    then obtain i t where i: "parse body = Inr j" "t_push T (BIncoming body) (cv_table v) = Inr (i, t)"
        "v1 = \<lparr>cv_ctx = snd (write_data c ''request'' body (cv_ctx v)), cv_table = t\<rparr>" using inner by auto
    note pushed = table_push_get [OF T(1) i(2)]
    have hi: "h \<noteq> i" using pushed(2) at(1) by auto
    have "t_get T h (cv_table v1) = Inr (BContainer c)" using pushed(3) [OF hi] at(1) i(3) by simp
    from deletes_entry [OF T this] obtain t' where t': "delete_entry T h v1 = (Inr (), v1\<lparr>cv_table := t'\<rparr>)"
        "\<forall>k. t_get T k t' = (if k = h then Inl NotPresent else t_get T k t)" using i(3) by auto
    have v': "v' = v1\<lparr>cv_table := t'\<rparr>" using v1(2) j t'(1) by (simp add: blob_drop_def)
    then have "t_get T k (cv_table v') = (if k = h then Inl NotPresent else if k = i then Inr (BIncoming body) else t_get T k (cv_table v))" for k
      using t'(2) pushed(1) pushed(3) [of k] by simp
    with hi pushed(2) show "\<exists>i. i \<noteq> h \<and> t_get T i (cv_table v) = Inl NotPresent \<and> (\<forall>k. t_get T k (cv_table v') =
        (if k = h then Inl NotPresent else if k = i then Inr (BIncoming body) else t_get T k (cv_table v)))"
      by (intro exI [of _ i]) simp
    show "parse body = Inr j" "cv_ctx v' = snd (write_data c ''request'' body (cv_ctx v))" using i(1,3) v' by simp_all
  qed
qed

text \<open>From the written pipe on: the container is made, and the object goes through it.\<close>

definition stores_object ::
  "'t blob_table \<Rightarrow> (bytes \<Rightarrow> anyhow + 'j) \<Rightarrow> bytes \<Rightarrow> 't \<Rightarrow> anyhow example_fault + 'j \<Rightarrow> (blob_world, 't) ctx_view \<Rightarrow> bool" where
  "stores_object T parse body t r v' \<longleftrightarrow> r \<noteq> Inl ExPanic \<and> (\<forall>j. r = Inr j \<longrightarrow> parse body = Inr j \<and>
    (\<exists>c i. fst (get_container ''container'' (cv_ctx v')) = Inr c \<and> blob_view (cv_ctx v') (ic_objects c) = [''request'' \<mapsto> body] \<and>
      t_get T i t = Inl NotPresent \<and>
      (\<forall>k. t_get T k (cv_table v') = (if k = i then Inr (BIncoming body) else t_get T k t))))"

lemma on_failure_stops:
  assumes "m s = (Inl e, s1)" and "op_bind (on_failure release m) f s = (r, s2)"
  shows "r = Inl e"
  using assms by (auto simp: on_failure_def op_bind_def split: if_splits)

lemma create_read_run:
  assumes T: "table_laws T" "deletes T" and at: "t_get T outgoing (cv_table v) = Inr (BOutgoing p)" "bw_pipes (cv_ctx v) p = body"
    and run: "op_bind (on_failure (blob_drop T outgoing) (op_map_err (ExErr ''failed to create container'')
            (blob_create_container T ''container'' now)))
          (\<lambda>container. scoped (blob_drop T container) (blob_read_back T parse body outgoing container)) v = (r, v')"
  shows "stores_object T parse body (cv_table v) r v'"
proof -
  let ?w = "cv_ctx v"
  let ?c = "\<lparr>ic_name = ''container'', ic_objects = bw_next ?w, ic_created_at = now\<rparr>"
  let ?v2 = "v\<lparr>cv_ctx := ?w\<lparr>bw_heap := (bw_heap ?w)(bw_next ?w := []), bw_next := bw_next ?w + 1,
        bw_store := hm_insert ''container'' ?c (bw_store ?w)\<rparr>\<rparr>"
  have create: "blob_create_container T ''container'' now v = blob_push T (BContainer ?c) ?v2"
    by (simp add: blob_create_container_def create_container_def new_container_def)
  show ?thesis
  proof (rule push_entry_cases [of T "BContainer ?c" ?v2])
    fix e assume "push_entry T (BContainer ?c) ?v2 = (Inl e, ?v2)"
    then have "op_map_err (ExErr ''failed to create container'') (blob_create_container T ''container'' now) v =
        (Inl (ExErr ''failed to create container'' (table_anyhow e)), ?v2)" using create by (simp add: blob_push_def)
    from on_failure_stops [OF this run] show ?thesis by (simp add: stores_object_def)
  next
    fix h t assume t: "t_push T (BContainer ?c) (cv_table ?v2) = Inr (h, t)" "push_entry T (BContainer ?c) ?v2 = (Inr h, ?v2\<lparr>cv_table := t\<rparr>)"
    let ?v3 = "?v2\<lparr>cv_table := t\<rparr>"
    note push = table_push_get [OF T(1) t(1)]
    have here: "t_get T h (cv_table ?v3) = Inr (BContainer ?c)" "t_get T outgoing (cv_table ?v3) = Inr (BOutgoing p)"
        "bw_pipes (cv_ctx ?v3) p = body"
      using push(1) table_push_keeps(2) [OF T(1) t(1), of outgoing] at by simp_all
    have inner: "scoped (blob_drop T h) (blob_read_back T parse body outgoing h) ?v3 = (r, v')"
      using run create t(2) by (simp add: blob_push_def)
    note outcome = container_read_run [OF T here inner]
    have "\<exists>c i. fst (get_container ''container'' (cv_ctx v')) = Inr c \<and> blob_view (cv_ctx v') (ic_objects c) = [''request'' \<mapsto> body] \<and>
        t_get T i (cv_table v) = Inl NotPresent \<and>
        (\<forall>k. t_get T k (cv_table v') = (if k = i then Inr (BIncoming body) else t_get T k (cv_table v)))" if j: "r = Inr j" for j
    proof -
      obtain i where i: "i \<noteq> h" "t_get T i t = Inl NotPresent" "\<forall>k. t_get T k (cv_table v') =
          (if k = h then Inl NotPresent else if k = i then Inr (BIncoming body) else t_get T k t)"
        and ctx: "cv_ctx v' = snd (write_data ?c ''request'' body (cv_ctx ?v3))" using outcome j by auto
      have "t_get T i (cv_table v) = Inl NotPresent" "t_get T k (cv_table v') = (if k = i then Inr (BIncoming body) else t_get T k (cv_table v))" for k
        using i push(2) push(3) [of i] push(3) [of k] by simp_all
      moreover have "fst (get_container ''container'' (cv_ctx v')) = Inr ?c" "blob_view (cv_ctx v') (ic_objects ?c) = [''request'' \<mapsto> body]"
        by (simp_all add: ctx get_container_def write_data_def blob_view_def)
      ultimately show ?thesis by blast
    qed
    with outcome show ?thesis by (simp add: stores_object_def)
  qed
qed

lemma store_back_run:
  assumes T: "table_laws T" "deletes T" and W: "pipe_laws write"
    and at: "t_get T outgoing (cv_table v) = Inr (BOutgoing p)" "t_get T stream (cv_table v) = Inr (BOutput p)" "bw_pipes (cv_ctx v) p = []"
    and run: "blob_store_back T write parse now body outgoing stream v = (r, v')"
  shows "stores_object T parse body (cv_table v) r v' \<and> (\<forall>j. r = Inr j \<longrightarrow> length body \<le> outgoing_capacity)"
proof -
  obtain x w1 where x: "write p body (cv_ctx v) = (x, w1)" by (rule prod.exhaust)
  let ?v1 = "v\<lparr>cv_ctx := w1\<rparr>"
  have stream: "write_stream T write stream body v = (x, ?v1)" using at(2) x by (simp add: write_stream_def)
  show ?thesis
  proof (cases x)
    case (Inl e)
    then have "op_map_err (\<lambda>e. ExOther (Anyhow (''writing body: '' @ e))) (write_stream T write stream body) v =
        (Inl (ExOther (Anyhow (''writing body: '' @ e))), ?v1)" using stream by simp
    from on_failure_stops [OF this run [unfolded blob_store_back_def]] show ?thesis by (simp add: stores_object_def)
  next
    case (Inr u)
    have w1: "w1 = (cv_ctx v)\<lparr>bw_pipes := (bw_pipes (cv_ctx v))(p := body)\<rparr>" "length body \<le> outgoing_capacity"
      using W [unfolded pipe_laws_def, rule_format, OF x] Inr at(3) by simp_all
    have here: "t_get T outgoing (cv_table ?v1) = Inr (BOutgoing p)" "bw_pipes (cv_ctx ?v1) p = body" using at(1) w1(1) by simp_all
    have "stores_object T parse body (cv_table ?v1) r v'"
      by (rule create_read_run [OF T here]) (use run stream Inr in \<open>simp add: blob_store_back_def\<close>)
    with w1(2) show ?thesis by simp
  qed
qed

lemma streamed_run:
  assumes T: "table_laws T" "deletes T" and W: "pipe_laws write"
    and at: "t_get T h (cv_table v) = Inr (BOutgoing p)" "t_get T s (cv_table v) = Inr (BOutput p)" "bw_pipes (cv_ctx v) p = []"
    and run: "scoped (blob_drop T s) (blob_store_back T write parse now body h s) v = (r, v')"
  shows "r \<noteq> Inl ExPanic \<and> (\<forall>j. r = Inr j \<longrightarrow> parse body = Inr j \<and> length body \<le> outgoing_capacity \<and>
    (\<exists>c. fst (get_container ''container'' (cv_ctx v')) = Inr c \<and> blob_view (cv_ctx v') (ic_objects c) = [''request'' \<mapsto> body]) \<and>
    (\<exists>i. t_get T i (cv_table v) = Inl NotPresent \<and> (\<forall>k. t_get T k (cv_table v') =
      (if k = s then Inl NotPresent else if k = i then Inr (BIncoming body) else t_get T k (cv_table v)))))"
proof -
  from scoped_result [OF run] obtain v1 where v1: "blob_store_back T write parse now body h s v = (r, v1)"
      "\<not> ends_instance r \<longrightarrow> v' = snd (blob_drop T s v1)" by blast
  note inner = store_back_run [OF T W at v1(1)]
  show ?thesis
  proof (intro conjI allI impI)
    show "r \<noteq> Inl ExPanic" using inner by (simp add: stores_object_def)
    fix j assume j: "r = Inr j"
    then obtain c i where i: "fst (get_container ''container'' (cv_ctx v1)) = Inr c" "blob_view (cv_ctx v1) (ic_objects c) = [''request'' \<mapsto> body]"
        "t_get T i (cv_table v) = Inl NotPresent" "\<forall>k. t_get T k (cv_table v1) = (if k = i then Inr (BIncoming body) else t_get T k (cv_table v))"
      and ok: "parse body = Inr j" "length body \<le> outgoing_capacity" using inner by (auto simp: stores_object_def)
    have "s \<noteq> i" using i(3) at(2) by auto
    then have "t_get T s (cv_table v1) = Inr (BOutput p)" using i(4) at(2) by simp
    from deletes_entry [OF T this] obtain t' where t': "delete_entry T s v1 = (Inr (), v1\<lparr>cv_table := t'\<rparr>)"
        "\<forall>k. t_get T k t' = (if k = s then Inl NotPresent else t_get T k (cv_table v1))" by blast
    have v': "v' = v1\<lparr>cv_table := t'\<rparr>" using v1(2) j t'(1) by (simp add: blob_drop_def)
    show "parse body = Inr j" "length body \<le> outgoing_capacity" by (fact ok)+
    show "\<exists>c. fst (get_container ''container'' (cv_ctx v')) = Inr c \<and> blob_view (cv_ctx v') (ic_objects c) = [''request'' \<mapsto> body]"
      using i(1,2) by (simp add: v')
    show "\<exists>i. t_get T i (cv_table v) = Inl NotPresent \<and> (\<forall>k. t_get T k (cv_table v') =
        (if k = s then Inl NotPresent else if k = i then Inr (BIncoming body) else t_get T k (cv_table v)))"
      using i(3,4) t'(2) by (intro exI [of _ i]) (simp add: v')
  qed
qed

text \<open>The messaging examples.\<close>

lemma msg_drop_ctx [simp]: "cv_ctx (snd (msg_drop T h v)) = cv_ctx v"
  by (simp add: msg_drop_def op_map_err_def split: prod.splits) (metis delete_entry_ctx snd_conv)

lemma drops_ctx: "cv_ctx (snd (op_for (msg_drop T) hs v)) = cv_ctx v"
proof (induction hs arbitrary: v)
  case (Cons h hs)
  obtain r v1 where d: "msg_drop T h v = (r, v1)" by (rule prod.exhaust)
  with msg_drop_ctx [of T h v] have "cv_ctx v1 = cv_ctx v" by simp
  with d Cons.IH [of v1] show ?case by (cases r) simp_all
qed simp

lemma msg_drop_others:
  assumes "table_laws T" and "k \<noteq> h"
  shows "t_get T k (cv_table (snd (msg_drop T h v))) = t_get T k (cv_table v)"
proof (rule delete_entry_cases [of T h v])
  fix e t assume t: "t_delete T h (cv_table v) = Inr (Some e, t)" "delete_entry T h v = (Inr (), v\<lparr>cv_table := t\<rparr>)"
  from table_delete_get(3) [OF assms(1) t(1) assms(2)] t(2) show ?thesis by (simp add: msg_drop_def)
next
  fix t assume t: "t_delete T h (cv_table v) = Inr (None, t)" "delete_entry T h v = (Inl WrongType, v\<lparr>cv_table := t\<rparr>)"
  from table_delete_get(3) [OF assms(1) t(1) assms(2)] t(2) show ?thesis by (simp add: msg_drop_def)
qed (simp add: msg_drop_def)

lemma msg_new_Inr:
  "msg_new T data v = (Inr m, v') \<longleftrightarrow>
    (\<exists>t. t_push T (MProxy (InMem (message_from data))) (cv_table v) = Inr (m, t) \<and> v' = v\<lparr>cv_table := t\<rparr>)"
  by (auto simp: msg_new_def new_message_def op_bind_Inr msg_push_def push_entry_Inr)

lemma connect_Inr: "msg_connect T v = (Inr c, v') \<longleftrightarrow> (\<exists>t. t_push T MClient (cv_table v) = Inr (c, t) \<and> v' = v\<lparr>cv_table := t\<rparr>)"
  by (simp add: msg_connect_def push_entry_Inr)

lemma send_run:
  assumes "t_get T c (cv_table v) = Inr MClient" and "t_get T h (cv_table v) = Inr (MProxy (InMem m))"
  shows "cv_ctx (snd (producer_send T sender c topic h v)) = snd (sender (InMem (m\<lparr>mg_topic := topic\<rparr>)) (cv_ctx v))"
  by (simp add: producer_send_def get_client_ok [OF assms(1)] get_message_ok [OF assms(2)] client_send_def
      op_map_err_def on_ctx_def split: prod.splits)

lemma pub_sub_run:
  assumes "table_laws T" and "pub_sub T sender json_text v = (Inr reply, v')"
  shows "cv_ctx v' = snd (sender (InMem ((message_from json_text)\<lparr>mg_topic := ''a''\<rparr>)) (cv_ctx v))"
proof -
  let ?m = "MProxy (InMem (message_from json_text))"
  obtain c v1 h v2 x v3 y v4 where ops: "msg_connect T v = (Inr c, v1)" "msg_new T json_text v1 = (Inr h, v2)"
      "msg_set_content_type T h ''application/json'' v2 = (Inr x, v3)" "msg_add_metadata T h ''key'' ''example_key'' v3 = (Inr y, v4)"
    and rest: "scoped (msg_drop T c) (op_try (producer_send T sender c ''a'' h) (\<lambda>_. op_return ''message published'')) v4 = (Inr reply :: msg_error example_fault + string, v')"
    using assms(2) unfolding pub_sub_def op_bind_Inr op_map_err_Inr by blast
  obtain t0 t1 where push: "t_push T MClient (cv_table v) = Inr (c, t0)" "t_push T ?m t0 = Inr (h, t1)"
      "v2 = v\<lparr>cv_table := t1\<rparr>" using ops(1,2) by (auto simp: connect_Inr msg_new_Inr)
  obtain u1 k1 t2 where edit1: "t_push T (MArc u1) t1 = Inr (k1, t2)" "v3 = v2\<lparr>cv_table := t2\<rparr>"
    using ops(3) push(3) by (auto simp: msg_set_content_type_def push_updated_Inr)
  obtain u2 k2 t3 where edit2: "t_push T (MArc u2) t2 = Inr (k2, t3)" "v4 = v\<lparr>cv_table := t3\<rparr>"
    using ops(4) push(3) edit1(2) by (auto simp: msg_add_metadata_def push_updated_Inr)
  note keeps = table_push_keeps(2) [OF assms(1)]
  have "t_get T c t3 = Inr MClient" "t_get T h t3 = Inr ?m"
    using keeps [OF edit2(1)] keeps [OF edit1(1)] keeps [OF push(2)] table_push_get(1) [OF assms(1) push(1)]
      table_push_get(1) [OF assms(1) push(2)] by simp_all
  then have send: "cv_ctx (snd (producer_send T sender c ''a'' h (v\<lparr>cv_table := t3\<rparr>))) =
      snd (sender (InMem ((message_from json_text)\<lparr>mg_topic := ''a''\<rparr>)) (cv_ctx v))"
    using send_run [of T c "v\<lparr>cv_table := t3\<rparr>" h "message_from json_text" sender "''a''"] by simp
  obtain x v5 where x: "producer_send T sender c ''a'' h (v\<lparr>cv_table := t3\<rparr>) = (x, v5)" by (rule prod.exhaust)
  then have "v' = snd (msg_drop T c v5)" using rest by (simp add: scoped_def edit2(2))
  then show ?thesis using send x by simp
qed

lemma request_reply_run:
  assumes "table_laws T" and "request_reply_handler T sender lossy body v = (Inr reply, v')"
  shows "sender (InMem ((message_from body)\<lparr>mg_topic := ''a''\<rparr>)) (cv_ctx v) = (Inr (), cv_ctx v') \<and> reply = lossy (map of_char ''ACK'')"
proof -
  let ?m = "MProxy (InMem (message_from body))"
  obtain c v1 h v2 hs v3 where ops: "msg_connect T v = (Inr c, v1)" "msg_new T body v1 = (Inr h, v2)"
      "scoped (msg_drop T c) (scoped (msg_drop T h) (op_map_err (ExErr []) (msg_request T sender c ''a'' h None))) v2 = (Inr hs :: msg_error example_fault + nat list, v3)"
    and rest: "(case hs of [] \<Rightarrow> op_fail ExPanic | h # _ \<Rightarrow> scoped (op_for (msg_drop T) hs)
         (op_bind (op_map_err ExTrap (msg_data T h)) (\<lambda>data. op_return (lossy data)))) v3 = (Inr reply :: msg_error example_fault + string, v')"
    using assms(2) unfolding request_reply_handler_def op_bind_Inr op_map_err_Inr by blast
  obtain t0 t1 where push: "t_push T MClient (cv_table v) = Inr (c, t0)" "t_push T ?m t0 = Inr (h, t1)"
      "v2 = v\<lparr>cv_table := t1\<rparr>" using ops(1,2) by (auto simp: connect_Inr msg_new_Inr)
  have at: "t_get T c (cv_table v2) = Inr MClient" "t_get T h (cv_table v2) = Inr ?m"
    using table_push_keeps(2) [OF assms(1) push(2)] table_push_get(1) [OF assms(1) push(1)]
      table_push_get(1) [OF assms(1) push(2)] push(3) by simp_all
  obtain v4 where request: "msg_request T sender c ''a'' h None v2 = (Inr hs, v4)" and drops: "v3 = snd (msg_drop T c (snd (msg_drop T h v4)))"
    using scoped_result [OF ops(3)] by (auto dest!: scoped_result)
  obtain k t w where k: "sender (InMem ((message_from body)\<lparr>mg_topic := ''a''\<rparr>)) (cv_ctx v2) = (Inr (), w)"
      "t_push T (MProxy (InMem ack_message)) (cv_table v2) = Inr (k, t)" "hs = [k]" "v4 = v2\<lparr>cv_ctx := w, cv_table := t\<rparr>"
    using request by (auto simp: msg_request_def find_options_def get_client_ok [OF at(1)] get_message_ok [OF at(2)]
        client_request_def op_bind_Inr on_ctx_Inr push_entry_Inr)
  obtain v5 where v5: "op_bind (op_map_err ExTrap (msg_data T k)) (\<lambda>data. op_return (lossy data)) v3 = (Inr reply :: msg_error example_fault + string, v5)"
      "v' = snd (op_for (msg_drop T) hs v5)"
    using rest k(3) by (auto dest!: scoped_result)
  have "cv_ctx v3 = w" by (simp add: drops k(4))
  moreover have "t_get T k (cv_table v3) = Inr (MProxy (InMem ack_message))"
  proof -
    have "k \<noteq> h" "k \<noteq> c" using table_push_get(2) [OF assms(1) k(2)] at by auto
    then have "t_get T k (cv_table v3) = t_get T k (cv_table v4)" by (simp add: drops msg_drop_others [OF assms(1)])
    then show ?thesis using table_push_get(1) [OF assms(1) k(2)] by (simp add: k(4))
  qed
  then have "msg_data T k v3 = (Inr (map of_char ''ACK''), v3)" by (simp add: msg_data_def find_message_ok ack_message_def)
  ultimately show ?thesis using k(1) v5 drops_ctx [of T hs v5] push(3) by (simp add: op_bind_def)
qed

lemma topic_c_run:
  assumes "handle_topic_c T sender utf8 h v = (Inr (), v')" and "table_laws T"
    and "t_get T h (cv_table v) = Inr (MProxy (InMem m))" and "mg_reply m = Some rp"
  shows "utf8 (mg_payload m) \<and>
      sender (InMem ((message_from (string_bytes ''Hello from topic c: '' @ mg_payload m))\<lparr>mg_topic := rp_topic rp\<rparr>)) (cv_ctx v) =
        (Inr (), cv_ctx v')"
proof -
  let ?data = "string_bytes ''Hello from topic c: '' @ mg_payload m"
  have data: "msg_data T h v = (Inr (mg_payload m), v)" by (simp add: msg_data_def find_message_ok [OF assms(3)])
  obtain v1 where v1: "op_bind (op_map_err ExTrap (msg_data T h)) (\<lambda>data.
        if \<not> utf8 data then op_fail (ExOther (Anyhow ''not utf8''))
        else op_bind (op_map_err ExTrap (msg_new T (string_bytes ''Hello from topic c: '' @ data))) (\<lambda>reply.
          op_map_err (ExErr []) (msg_reply T sender h reply))) v = (Inr () :: msg_error example_fault + unit, v1)"
      and v': "v' = snd (msg_drop T h v1)"
    using scoped_result [OF assms(1) [unfolded handle_topic_c_def]] by auto
  then have utf8: "utf8 (mg_payload m)" using data by (auto split: if_splits)
  obtain r v2 where new: "msg_new T ?data v = (Inr r, v2)" and reply: "msg_reply T sender h r v2 = (Inr (), v1)"
    using v1 data utf8 by (auto simp: op_bind_Inr)
  obtain t where t: "t_push T (MProxy (InMem (message_from ?data))) (cv_table v) = Inr (r, t)" "v2 = v\<lparr>cv_table := t\<rparr>"
    using new by (auto simp: msg_new_Inr)
  have at: "t_get T h (cv_table v2) = Inr (MProxy (InMem m))" "t_get T r (cv_table v2) = Inr (MProxy (InMem (message_from ?data)))"
    using table_push_keeps(2) [OF assms(2) t(1) assms(3)] table_push_get(1) [OF assms(2) t(1)] t(2) by simp_all
  have "msg_reply T sender h r v2 = op_map_err msg_from_anyhow (on_ctx (client_send sender (rp_topic rp) (InMem (message_from ?data)))) v2"
    by (simp add: msg_reply_def get_message_ok [OF at(1)] get_message_ok [OF at(2)] assms(4))
  then have "sender (InMem ((message_from ?data)\<lparr>mg_topic := rp_topic rp\<rparr>)) (cv_ctx v) = (Inr (), cv_ctx v1)"
    using reply by (auto simp: client_send_def on_ctx_Inr t(2))
  with utf8 show ?thesis by (simp add: v')
qed

lemma listed_targets:
  assumes "hm_wf peers"
  shows "targets_of (map fst (filter (\<lambda>(a, p). \<not> pi_is_service p) peers)) peers =
    map snd (filter (\<lambda>(a, p). \<not> pi_is_service p) peers)"
proof -
  have "filter (\<lambda>p. \<not> pi_is_service p) (List.map_filter (hm_get peers) (map fst xs)) = map snd xs"
    if "set xs \<subseteq> set (filter (\<lambda>(a, p). \<not> pi_is_service p) peers)" for xs
    using that
  proof (induction xs)
    case (Cons x xs)
    then have "hm_get peers (fst x) = Some (snd x)" "\<not> pi_is_service (snd x)"
      using hm_get_Some_in [OF assms] by auto
    with Cons show ?case by (simp add: map_filter_Cons)
  qed (simp add: map_filter_Nil)
  then show ?thesis unfolding targets_of_def by blast
qed

section \<open>Properties\<close>

text \<open>
  The store examples keep what they are sent.  Unless the table has no room for their handle,
  in which case nothing changes that a guest can see, the key-value example stores the body and
  replies, and the vault example stores it and replies with what it parses to: its assertion never
  fails.  Whatever they reply, no handle is left in the table, and every other one stays.
\<close>

theorem store_examples_keep_body:
  assumes "table_laws T" and "deletes T" and "kv_wf (cv_ctx v)" and "keyvalue_example T body v = (r, v')"
    and "table_laws T2" and "deletes T2" and "vault_wf (cv_ctx u)" and "vault_example T2 parse body u = (q, u')"
  shows "((\<exists>e. r = Inl (ExErr ''opening bucket'' e)) \<and> kv_view (cv_ctx v') = kv_view (cv_ctx v) \<or>
      r = Inr ''Hello, World!'' \<and> kv_view (cv_ctx v') = (kv_view (cv_ctx v))
        (''credibil_bucket'' := (kv_view (cv_ctx v) ''credibil_bucket'')(''my_key'' \<mapsto> body))) \<and>
    (\<forall>k. t_get T k (cv_table v') = t_get T k (cv_table v)) \<and>
    ((\<exists>e. q = Inl (ExErr ''failed to open vault locker'' e)) \<and> vault_view (cv_ctx u') = vault_view (cv_ctx u) \<or>
      q = res_map_err (\<lambda>e. ExOther (Context ''deserializing data'' e)) (parse body) \<and> vault_view (cv_ctx u') = (vault_view (cv_ctx u))
        (''credibil-locker'' := (vault_view (cv_ctx u) ''credibil-locker'')(''secret-id'' \<mapsto> body))) \<and>
    (\<forall>k. t_get T2 k (cv_table u') = t_get T2 k (cv_table u))"
proof -
  have kv: "((\<exists>e. r = Inl (ExErr ''opening bucket'' e)) \<and> kv_view (cv_ctx v') = kv_view (cv_ctx v) \<or>
      r = Inr ''Hello, World!'' \<and> kv_view (cv_ctx v') = (kv_view (cv_ctx v))
        (''credibil_bucket'' := (kv_view (cv_ctx v) ''credibil_bucket'')(''my_key'' \<mapsto> body))) \<and>
    (\<forall>k. t_get T k (cv_table v') = t_get T k (cv_table v))"
    using assms(1-4) by (rule keyvalue_example_run)
  have "((\<exists>e. q = Inl (ExErr ''failed to open vault locker'' e)) \<and> vault_view (cv_ctx u') = vault_view (cv_ctx u) \<or>
      q = res_map_err (\<lambda>e. ExOther (Context ''deserializing data'' e)) (parse body) \<and> vault_view (cv_ctx u') = (vault_view (cv_ctx u))
        (''credibil-locker'' := (vault_view (cv_ctx u) ''credibil-locker'')(''secret-id'' \<mapsto> body))) \<and>
    (\<forall>k. t_get T2 k (cv_table u') = t_get T2 k (cv_table u))"
    using assms(5-8) by (rule vault_example_run)
  with kv show ?thesis by blast
qed

text \<open>
  The worlds of the witnesses: empty stores and tables, a JSON library that accepts every text but
  the empty one, and a pipe that takes what fits.
\<close>

definition demo_json :: "bytes \<Rightarrow> anyhow + bytes" where
  "demo_json b = (if b = [] then Inl (Anyhow ''EOF'') else Inr b)"

theorem store_examples_keep_body_witness:
  "\<exists>v' u'. keyvalue_example slot_table [1] \<lparr>cv_ctx = [], cv_table = []\<rparr> = (Inr ''Hello, World!'', v') \<and>
     kv_view (cv_ctx v') ''credibil_bucket'' ''my_key'' = Some [1] \<and>
     vault_example slot_table demo_json [1] \<lparr>cv_ctx = [], cv_table = []\<rparr> = (Inr [1], u') \<and>
     vault_view (cv_ctx u') ''credibil-locker'' ''secret-id'' = Some [1] \<and> t_get slot_table 0 (cv_table u') = Inl NotPresent"
proof -
  let ?v = "\<lparr>cv_ctx = [], cv_table = []\<rparr> :: (kv_store, in_mem_bucket kv_entry option list) ctx_view"
  let ?u = "\<lparr>cv_ctx = [], cv_table = []\<rparr> :: (vault_store, in_memory_locker locker_entry option list) ctx_view"
  have "\<exists>v'. keyvalue_example slot_table [1] ?v = (Inr ''Hello, World!'', v')" by (rule exI) code_simp
  then obtain v' where v': "keyvalue_example slot_table [1] ?v = (Inr ''Hello, World!'', v')" by blast
  have "\<exists>u'. vault_example slot_table demo_json [1] ?u = (Inr [1], u')" by (rule exI) code_simp
  then obtain u' where u': "vault_example slot_table demo_json [1] ?u = (Inr [1], u')" by blast
  have wf: "kv_wf (cv_ctx ?v)" "vault_wf (cv_ctx ?u)" by (simp_all add: kv_wf_def vault_wf_def)
  have none: "t_get slot_table 0 (cv_table ?u) = Inl NotPresent" by (simp add: slot_table_def slot_get_def)
  from store_examples_keep_body [OF slot_table_laws slot_table_deletes wf(1) v' slot_table_laws slot_table_deletes wf(2) u']
  have "kv_view (cv_ctx v') ''credibil_bucket'' ''my_key'' = Some [1]" "vault_view (cv_ctx u') ''credibil-locker'' ''secret-id'' = Some [1]"
    "t_get slot_table 0 (cv_table u') = t_get slot_table 0 (cv_table ?u)" by auto
  then show ?thesis using v' u' none by auto
qed

text \<open>
  C35: The blobstore example.  A reply is what the body parses to, and its assertion never fails.  By
  then the body, at most 1024 bytes of it or the write would have failed, is the one object of
  the container named \<open>container\<close>, whatever was stored there before; and the two values whose
  ownership the guest gave away are still in the host's table, with every other handle dropped.
\<close>

theorem blob_example_keeps_body:
  assumes "table_laws T" and "deletes T" and "pipe_laws write" and "blobstore_example T write parse now body v = (r, v')"
  shows "r \<noteq> Inl ExPanic \<and> (\<forall>j. r = Inr j \<longrightarrow> parse body = Inr j \<and> length body \<le> outgoing_capacity \<and>
    (\<exists>c. fst (get_container ''container'' (cv_ctx v')) = Inr c \<and> blob_view (cv_ctx v') (ic_objects c) = [''request'' \<mapsto> body]) \<and>
    (\<exists>out i p. out \<noteq> i \<and> t_get T out (cv_table v) = Inl NotPresent \<and> t_get T i (cv_table v) = Inl NotPresent \<and>
      (\<forall>k. t_get T k (cv_table v') =
        (if k = i then Inr (BIncoming body) else if k = out then Inr (BOutgoing p) else t_get T k (cv_table v)))))"
proof -
  let ?p = "bw_next_pipe (cv_ctx v)"
  let ?v1 = "v\<lparr>cv_ctx := (cv_ctx v)\<lparr>bw_pipes := (bw_pipes (cv_ctx v))(?p := []), bw_next_pipe := ?p + 1\<rparr>\<rparr>"
  have new: "new_outgoing_value T v = blob_push T (BOutgoing ?p) ?v1" by (simp add: new_outgoing_value_def new_pipe_def)
  show ?thesis
  proof (rule push_entry_cases [of T "BOutgoing ?p" ?v1])
    fix e assume "push_entry T (BOutgoing ?p) ?v1 = (Inl e, ?v1)"
    then show ?thesis using assms(4) new by (auto simp: blobstore_example_def blob_push_def)
  next
    fix h t assume t: "t_push T (BOutgoing ?p) (cv_table ?v1) = Inr (h, t)" "push_entry T (BOutgoing ?p) ?v1 = (Inr h, ?v1\<lparr>cv_table := t\<rparr>)"
    let ?v2 = "?v1\<lparr>cv_table := t\<rparr>"
    note push = table_push_get [OF assms(1) t(1)]
    have body: "outgoing_write_body T h ?v2 = op_try (push_entry T (BOutput ?p)) (\<lambda>r. op_return (res_map_err (\<lambda>_. ()) r)) ?v2"
      using push(1) by (simp add: outgoing_write_body_def get_entry_def)
    show ?thesis
    proof (rule push_entry_cases [of T "BOutput ?p" ?v2])
      fix e assume "push_entry T (BOutput ?p) ?v2 = (Inl e, ?v2)"
      then have "r = Inl (ExOther (Anyhow ''failed to create stream''))"
        using assms(4) new t(2) body by (auto simp: blobstore_example_def blob_push_def op_bind_def on_failure_def)
      then show ?thesis by simp
    next
      fix s t3 assume s: "t_push T (BOutput ?p) (cv_table ?v2) = Inr (s, t3)" "push_entry T (BOutput ?p) ?v2 = (Inr s, ?v2\<lparr>cv_table := t3\<rparr>)"
      let ?v3 = "?v2\<lparr>cv_table := t3\<rparr>"
      note pushed = table_push_get [OF assms(1) s(1)]
      have run: "scoped (blob_drop T s) (blob_store_back T write parse now body h s) ?v3 = (r, v')"
        using assms(4) new t(2) body s(2) by (simp add: blobstore_example_def blob_push_def)
      have hs: "h \<noteq> s" using pushed(2) push(1) by auto
      have at: "t_get T h (cv_table ?v3) = Inr (BOutgoing ?p)" "t_get T s (cv_table ?v3) = Inr (BOutput ?p)" "bw_pipes (cv_ctx ?v3) ?p = []"
        using pushed(1) pushed(3) [OF hs] push(1) by simp_all
      have "\<exists>out i p. out \<noteq> i \<and> t_get T out (cv_table v) = Inl NotPresent \<and> t_get T i (cv_table v) = Inl NotPresent \<and>
          (\<forall>k. t_get T k (cv_table v') =
            (if k = i then Inr (BIncoming body) else if k = out then Inr (BOutgoing p) else t_get T k (cv_table v)))" if "r = Inr j" for j
      proof -
        obtain i where i: "t_get T i t3 = Inl NotPresent" "\<forall>k. t_get T k (cv_table v') =
            (if k = s then Inl NotPresent else if k = i then Inr (BIncoming body) else t_get T k t3)"
          using streamed_run [OF assms(1-3) at run] \<open>r = Inr j\<close> by auto
        have "h \<noteq> i" "s \<noteq> i" using i(1) at by auto
        then show ?thesis using i hs push(2) pushed(2) push(3) [of i] pushed(3) push(3) at(1)
          by (intro exI [of _ h] exI [of _ i] exI [of _ ?p]) (auto simp: pushed(3))
      qed
      with streamed_run [OF assms(1-3) at run] show ?thesis by blast
    qed
  qed
qed

definition demo_pipe :: pipe_writer where
  "demo_pipe p b w = (if length (bw_pipes w p @ b) \<le> outgoing_capacity
     then (Inr (), w\<lparr>bw_pipes := (bw_pipes w)(p := bw_pipes w p @ b)\<rparr>) else (Inl ''full'', w))"

lemma demo_pipe_laws: "pipe_laws demo_pipe"
proof -
  have "w = w\<lparr>bw_pipes := (bw_pipes w)(p := bw_pipes w p)\<rparr>" for w :: blob_world and p by simp
  then show ?thesis unfolding pipe_laws_def demo_pipe_def by (auto simp del: fun_upd_triv)
qed

theorem blob_example_keeps_body_witness:
  "\<exists>v' c. blobstore_example slot_table demo_pipe demo_json 0 [1] \<lparr>cv_ctx = blob_connect_with, cv_table = []\<rparr> = (Inr [1], v') \<and>
     fst (get_container ''container'' (cv_ctx v')) = Inr c \<and> blob_view (cv_ctx v') (ic_objects c) = [''request'' \<mapsto> [1]]"
proof -
  let ?v = "\<lparr>cv_ctx = blob_connect_with, cv_table = []\<rparr> :: (blob_world, blob_entry option list) ctx_view"
  have "fst (blobstore_example slot_table demo_pipe demo_json 0 [1] ?v) = Inr [1]" by code_simp
  then obtain v' where v': "blobstore_example slot_table demo_pipe demo_json 0 [1] ?v = (Inr [1], v')"
    by (metis prod.collapse)
  from blob_example_keeps_body [OF slot_table_laws slot_table_deletes demo_pipe_laws v'] show ?thesis using v' by auto
qed

text \<open>
  The messaging examples.  What \<open>pub_sub\<close> publishes is the text alone: the content type and the key
  that it set are lost.  \<open>request_reply_handler\<close> replies with the fixed acknowledgment as soon as its
  request was published, and the handler for topic \<open>c\<close> publishes its greeting with the data on the
  reply address of the message.  Each calls the channel exactly once.
\<close>

theorem messaging_examples_publish:
  assumes "table_laws T"
  shows "(\<forall>reply v'. pub_sub T sender json_text v = (Inr reply, v') \<longrightarrow>
      cv_ctx v' = snd (sender (InMem ((message_from json_text)\<lparr>mg_topic := ''a''\<rparr>)) (cv_ctx v))) \<and>
    meta_of (InMem (message_from json_text)) = Map.empty \<and>
    (\<forall>reply v'. request_reply_handler T sender lossy body v = (Inr reply, v') \<longrightarrow>
      sender (InMem ((message_from body)\<lparr>mg_topic := ''a''\<rparr>)) (cv_ctx v) = (Inr (), cv_ctx v') \<and> reply = lossy (map of_char ''ACK'')) \<and>
    (\<forall>v' h m rp. handle_topic_c T sender utf8 h v = (Inr (), v') \<and> t_get T h (cv_table v) = Inr (MProxy (InMem m)) \<and>
        mg_reply m = Some rp \<longrightarrow> utf8 (mg_payload m) \<and>
      sender (InMem ((message_from (string_bytes ''Hello from topic c: '' @ mg_payload m))\<lparr>mg_topic := rp_topic rp\<rparr>)) (cv_ctx v) =
        (Inr (), cv_ctx v'))"
proof (intro conjI allI impI; (elim conjE)?)
  show "cv_ctx v' = snd (sender (InMem ((message_from json_text)\<lparr>mg_topic := ''a''\<rparr>)) (cv_ctx v))"
    if "pub_sub T sender json_text v = (Inr reply, v')" for reply v' using assms that by (rule pub_sub_run)
  show "meta_of (InMem (message_from json_text)) = Map.empty" by (simp add: meta_of_def message_from_def)
  fix reply v' assume "request_reply_handler T sender lossy body v = (Inr reply, v')"
  from request_reply_run [OF assms this]
  show "sender (InMem ((message_from body)\<lparr>mg_topic := ''a''\<rparr>)) (cv_ctx v) = (Inr (), cv_ctx v')" "reply = lossy (map of_char ''ACK'')"
    by blast+
next
  fix v' h m rp assume "handle_topic_c T sender utf8 h v = (Inr (), v')" "t_get T h (cv_table v) = Inr (MProxy (InMem m))" "mg_reply m = Some rp"
  from topic_c_run [OF this(1) assms this(2,3)]
  show "utf8 (mg_payload m)" "sender (InMem ((message_from (string_bytes ''Hello from topic c: '' @ mg_payload m))\<lparr>mg_topic := rp_topic rp\<rparr>)) (cv_ctx v) =
        (Inr (), cv_ctx v')" by blast+
qed

theorem messaging_examples_publish_witness:
  "\<exists>v1 v2 v3. pub_sub slot_table log_sender [1] \<lparr>cv_ctx = [], cv_table = []\<rparr> = (Inr ''message published'', v1) \<and>
     cv_ctx v1 = [InMem ((message_from [1])\<lparr>mg_topic := ''a''\<rparr>)] \<and>
     request_reply_handler slot_table log_sender (map (\<lambda>b. char_of (unat b))) [1] \<lparr>cv_ctx = [], cv_table = []\<rparr> = (Inr ''ACK'', v2) \<and>
     cv_ctx v2 = [InMem ((message_from [1])\<lparr>mg_topic := ''a''\<rparr>)] \<and>
     handle_topic_c slot_table log_sender (list_all (\<lambda>b. unat b < 128)) 1 demo_msg_view = (Inr (), v3) \<and>
     cv_ctx v3 = [InMem ((message_from (string_bytes ''Hello from topic c: '' @ [1]))\<lparr>mg_topic := ''r''\<rparr>)]"
proof -
  let ?v = "\<lparr>cv_ctx = [], cv_table = []\<rparr> :: (dyn_message list, msg_entry option list) ctx_view"
  let ?lossy = "map (\<lambda>b. char_of (unat b)) :: bytes \<Rightarrow> string" and ?utf8 = "list_all (\<lambda>b. unat b < 128) :: bytes \<Rightarrow> bool"
  have "\<exists>v1. pub_sub slot_table log_sender [1] ?v = (Inr ''message published'', v1)" by (rule exI) code_simp
  then obtain v1 where v1: "pub_sub slot_table log_sender [1] ?v = (Inr ''message published'', v1)" by blast
  have "\<exists>v2. request_reply_handler slot_table log_sender ?lossy [1] ?v = (Inr ''ACK'', v2)" by (rule exI) code_simp
  then obtain v2 where v2: "request_reply_handler slot_table log_sender ?lossy [1] ?v = (Inr ''ACK'', v2)" by blast
  have "\<exists>v3. handle_topic_c slot_table log_sender ?utf8 1 demo_msg_view = (Inr (), v3)" by (rule exI) code_simp
  then obtain v3 where v3: "handle_topic_c slot_table log_sender ?utf8 1 demo_msg_view = (Inr (), v3)" by blast
  have at: "t_get slot_table 1 (cv_table demo_msg_view) = Inr (MProxy (InMem demo_message))" "mg_payload demo_message = [1]"
    "mg_reply demo_message = Some \<lparr>rp_client_name = ''c'', rp_topic = ''r''\<rparr>" "cv_ctx demo_msg_view = []"
    by (simp_all add: demo_msg_view_def demo_message_def slot_table_def slot_get_def)
  note law = messaging_examples_publish [where T = slot_table and sender = log_sender and body = "[1]" and json_text = "[1]" and v = ?v,
      OF slot_table_laws]
  have 1: "cv_ctx v1 = snd (log_sender (InMem ((message_from [1])\<lparr>mg_topic := ''a''\<rparr>)) (cv_ctx ?v))" using law v1 by blast
  have 2: "log_sender (InMem ((message_from [1])\<lparr>mg_topic := ''a''\<rparr>)) (cv_ctx ?v) = (Inr (), cv_ctx v2)" using law v2 by blast
  have 3: "log_sender (InMem ((message_from (string_bytes ''Hello from topic c: '' @ mg_payload demo_message))\<lparr>mg_topic :=
      rp_topic \<lparr>rp_client_name = ''c'', rp_topic = ''r''\<rparr>\<rparr>)) (cv_ctx demo_msg_view) = (Inr (), cv_ctx v3)"
    using messaging_examples_publish [where T = slot_table and sender = log_sender and v = demo_msg_view, OF slot_table_laws]
      v3 at(1,3) by blast
  show ?thesis using v1 v2 v3 1 2 3 at(2,4) by (auto simp: log_sender_def)
qed

text \<open>
  The websockets example broadcasts.  While the server runs, a body posted to \<open>/socket\<close> is sent once
  to every connected peer that is not a service peer, and to nobody else, although the handler
  lists the peers first and addresses each by its printed address.
\<close>

theorem post_socket_broadcasts:
  assumes "table_laws T" and "ws_env_laws E" and "ws_peers (cv_ctx v) = Some peers" and "hm_wf peers"
    and "post_socket E T body v = (Inr reply, v')"
  shows "cv_ctx v' = (cv_ctx v)\<lparr>ws_sent := ws_sent (cv_ctx v) @
      map (\<lambda>(a, p). (pi_sender p, body)) (filter (\<lambda>(a, p). \<not> pi_is_service p) peers)\<rparr>"
proof -
  let ?listed = "filter (\<lambda>(a, p). \<not> pi_is_service p) peers"
  obtain h t where t: "t_push T WsServer (cv_table v) = Inr (h, t)"
      "host_get_server T v = (Inr h, v\<lparr>cv_table := t\<rparr>)"
    using assms(5) by (auto simp: post_socket_def op_bind_Inr host_get_server_def push_entry_Inr)
  let ?v1 = "v\<lparr>cv_table := t\<rparr>"
  have use_ok: "use_server T h ?v1 = (Inr (), ?v1)"
    using table_push_get(1) [OF assms(1) t(1)] by (simp add: use_server_def get_entry_def)
  have peers: "host_get_peers E T h ?v1 = (Inr (ws_get_peers E (cv_ctx v)), ?v1)"
    using use_ok by (simp add: host_get_peers_def on_ctx_def)
  have addresses: "map wp_address (ws_get_peers E (cv_ctx v)) = map (we_show E) (map fst ?listed)"
    using assms(3) by (simp add: ws_get_peers_def get_peer_map_def comp_def split_def)
  have "targets_of (map fst ?listed) peers = map snd ?listed"
    by (rule listed_targets [OF assms(4)])
  moreover have "map (\<lambda>p. (pi_sender p, body)) (map snd ?listed) = map (\<lambda>(a, p). (pi_sender p, body)) ?listed"
    by (simp add: split_def)
  ultimately have sent: "ws_send_peers E body (map wp_address (ws_get_peers E (cv_ctx v))) (cv_ctx v) =
      (Inr (), (cv_ctx v)\<lparr>ws_sent := ws_sent (cv_ctx v) @ map (\<lambda>(a, p). (pi_sender p, body)) ?listed\<rparr>)"
    using send_peers_run [OF assms(2,3), of body "map fst ?listed"] by (simp only: addresses)
  have "host_send_peers E T h body (map wp_address (ws_get_peers E (cv_ctx v))) ?v1 =
      (Inr (), ?v1\<lparr>cv_ctx := (cv_ctx v)\<lparr>ws_sent := ws_sent (cv_ctx v) @ map (\<lambda>(a, p). (pi_sender p, body)) ?listed\<rparr>\<rparr>)"
    using use_ok sent by (simp add: host_send_peers_def)
  then have "post_socket E T body v = (Inr ''message received'',
      ?v1\<lparr>cv_ctx := (cv_ctx v)\<lparr>ws_sent := ws_sent (cv_ctx v) @ map (\<lambda>(a, p). (pi_sender p, body)) ?listed\<rparr>\<rparr>)"
    using t(2) peers by (simp add: post_socket_def scoped_def host_drop_server_def)
  then show ?thesis using assms(5) by auto
qed

theorem post_socket_broadcasts_witness:
  "\<exists>v'. post_socket demo_ws_env slot_table ''hi'' \<lparr>cv_ctx = demo_ws, cv_table = []\<rparr> = (Inr ''message received'', v') \<and>
     ws_sent (cv_ctx v') = [(11, ''hi''), (12, ''hi'')]"
proof -
  let ?v = "\<lparr>cv_ctx = demo_ws, cv_table = []\<rparr> :: (nat ws_state, ws_entry option list) ctx_view"
  have "\<exists>v'. post_socket demo_ws_env slot_table ''hi'' ?v = (Inr ''message received'', v')" by (rule exI) code_simp
  then obtain v' where v': "post_socket demo_ws_env slot_table ''hi'' ?v = (Inr ''message received'', v')" by blast
  have peers: "ws_peers (cv_ctx ?v) = Some (the (ws_peers demo_ws))" "hm_wf (the (ws_peers demo_ws))"
    by (simp_all add: demo_ws_def hm_wf_def)
  from post_socket_broadcasts [OF slot_table_laws demo_ws_env_laws peers v'] show ?thesis using v' by (auto simp: demo_ws_def)
qed

end
