(* ===== verification/ExamplesData.thy ===== *)
theory ExamplesData
  imports Examples
begin

text \<open>
  The guests of \<open>examples/sql/guest.rs\<close> and \<open>examples/identity/guest.rs\<close> on the modelled hosts, in the manner
  of theory Examples: host calls, drops and reply of each handler, with what they leave behind.
\<close>

section \<open>Handlers\<close>

text \<open>
  An error of the SQL interface is a handle: the guest prints the handle itself, and drops it.
\<close>

definition or_sql_error ::
  "('t, ('c, 'f, 'd) sql_entry) table_ops \<Rightarrow> string \<Rightarrow> ('w, 't, nat + 'a) sql_call
    \<Rightarrow> (('w, 't) ctx_view, nat example_fault, 'a) op" where
  "or_sql_error T what m = op_bind (op_map_err ExTrap m) (\<lambda>r. case r of
      Inr x \<Rightarrow> op_return x
    | Inl e \<Rightarrow> op_bind (op_map_err ExTrap (sql_drop T e)) (\<lambda>_. op_fail (ExErr what e)))"

text \<open>What the two handlers have in common: open, prepare, run, and drop what was opened.\<close>

definition with_statement ::
  "('t, ('c, 'f, 'd) sql_entry) table_ops \<Rightarrow> ('w, 'd, 'c) sqlite_ops \<Rightarrow> string \<Rightarrow> string \<Rightarrow> string \<Rightarrow> ('f, 'd) data_type list
    \<Rightarrow> (nat \<Rightarrow> nat \<Rightarrow> ('w, 't, nat + 'a) sql_call) \<Rightarrow> (('w, 't) ctx_view, nat example_fault, 'a) op" where
  "with_statement T Q path name query params run =
     op_bind (or_sql_error T ''failed to open connection'' (host_sql_open T Q path name)) (\<lambda>pool.
     scoped (sql_drop T pool)
       (op_bind (or_sql_error T ''failed to prepare statement'' (host_prepare T query params)) (\<lambda>stmt.
        scoped (sql_drop T stmt) (or_sql_error T ''query failed'' (run pool stmt)))))"

definition sql_query_example ::
  "('t, ('c, 'f, 'd) sql_entry) table_ops \<Rightarrow> ('w, 'd, 'c) sqlite_ops \<Rightarrow> ('f \<Rightarrow> 'd) \<Rightarrow> ('d \<Rightarrow> bool)
    \<Rightarrow> (bytes \<Rightarrow> string) \<Rightarrow> string \<Rightarrow> (('w, 't) ctx_view, nat example_fault, 'd json_value) op" where
  "sql_query_example T Q widen fin b64 path =
     op_bind (with_statement T Q path ''postgres'' ''SELECT * from mytable;'' [] (host_query T Q widen))
       (\<lambda>res. op_return (into_json fin widen b64 res))"

definition insert_sql :: string where
  "insert_sql = ''insert into mytable (feed_id, agency_id, agency_name, agency_url, agency_timezone, created_at) values ($1, $2, $3, $4, $5, $6);''"

definition insert_params :: "('f, 'd) data_type list" where
  "insert_params = [Int32 (Some 1224), Str (Some ''test1''), Str (Some ''name1''), Str (Some ''url1''), Str (Some ''NZL''),
     Timestamp (Some \<lparr>fv_value = ''2025-11-06T00:05:30'', fv_format = ''%Y-%m-%dT%H:%M:%S''\<rparr>)]"

definition sql_insert_example ::
  "('t, ('c, 'f, 'd) sql_entry) table_ops \<Rightarrow> ('w, 'd, 'c) sqlite_ops \<Rightarrow> ('f \<Rightarrow> 'd) \<Rightarrow> string
    \<Rightarrow> (('w, 't) ctx_view, nat example_fault, u32) op" where
  "sql_insert_example T Q widen path = with_statement T Q path ''db'' insert_sql insert_params (host_exec T Q widen)"

text \<open>The identity example: a token for one scope, which is printed.\<close>

definition identity_scope :: string where
  "identity_scope = ''https://management.azure.com/.default''"

definition identity_example ::
  "('t, identity_entry) table_ops \<Rightarrow> (string list \<Rightarrow> anyhow + token_response) \<Rightarrow> int \<Rightarrow> int
    \<Rightarrow> ((cached_token, 't) ctx_view, identity_error example_fault, string) op" where
  "identity_example T request now now2 =
     op_bind (op_map_err (ExErr ''getting identity'') (host_get_identity T ''identity'')) (\<lambda>self.
     op_bind (scoped (host_drop_identity T self)
         (op_map_err (ExErr ''getting access token'') (host_get_token T request now now2 self [identity_scope]))) (\<lambda>access_token.
     op_return ''Hello, World!''))"

section \<open>Lemmas\<close>

definition same_table :: "('t, 'e) table_ops \<Rightarrow> ('w, 't) ctx_view \<Rightarrow> ('w, 't) ctx_view \<Rightarrow> bool" where
  "same_table T v v' \<longleftrightarrow> (\<forall>k. t_get T k (cv_table v') = t_get T k (cv_table v))"

lemma same_table_ctx [simp]: "same_table T v (v\<lparr>cv_ctx := w\<rparr>)"
  by (simp add: same_table_def)

lemma same_table_trans: "same_table T u v \<Longrightarrow> same_table T v w \<Longrightarrow> same_table T u w"
  by (simp add: same_table_def)

text \<open>What was pushed is dropped again.\<close>

lemma pushed_dropped:
  assumes "table_laws T" and "deletes T" and "t_push T e (cv_table v) = Inr (h, t)" and "same_table T (v\<lparr>cv_table := t\<rparr>) v2"
  shows "\<exists>t'. delete_entry T h v2 = (Inr (), v2\<lparr>cv_table := t'\<rparr>) \<and> same_table T v (v2\<lparr>cv_table := t'\<rparr>)"
proof -
  note push = table_push_get [OF assms(1,3)]
  have "t_get T h (cv_table v2) = Inr e" using assms(4) push(1) by (simp add: same_table_def)
  from deletes_entry [OF assms(1,2) this] obtain t' where t': "delete_entry T h v2 = (Inr (), v2\<lparr>cv_table := t'\<rparr>)"
      "\<forall>k. t_get T k t' = (if k = h then Inl NotPresent else t_get T k (cv_table v2))" by blast
  have "t_get T k t' = t_get T k (cv_table v)" for k
    using t'(2) push(2) push(3) [of k] assms(4) by (simp add: same_table_def)
  with t'(1) show ?thesis by (auto simp: same_table_def)
qed

lemma or_sql_error_run:
  assumes "table_laws T" and "deletes T" and "or_sql_error T what (or_error_handle T m) v = (r, v')" and "\<not> ends_instance r"
  shows "same_table T v v' \<and> (\<forall>x. r = Inr x \<longrightarrow> m (cv_ctx v) = (Inr x, cv_ctx v') \<and> v' = v\<lparr>cv_ctx := cv_ctx v'\<rparr>)"
proof -
  obtain q w where m: "m (cv_ctx v) = (q, w)" by (rule prod.exhaust)
  then have run: "on_ctx m v = (q, v\<lparr>cv_ctx := w\<rparr>)" by (simp add: on_ctx_def)
  show ?thesis
  proof (cases q)
    case (Inr x)
    then have "or_sql_error T what (or_error_handle T m) v = (Inr x, v\<lparr>cv_ctx := w\<rparr>)"
      using run by (simp add: or_sql_error_def or_error_handle_def)
    with assms(3) m Inr show ?thesis by auto
  next
    case (Inl err)
    let ?v = "v\<lparr>cv_ctx := w\<rparr>"
    show ?thesis
    proof (rule push_entry_cases [of T "SErr err" ?v])
      fix e assume "push_entry T (SErr err) ?v = (Inl e, ?v)"
      then have "or_sql_error T what (or_error_handle T m) v = (Inl (ExTrap (table_anyhow e)), ?v)"
        using run Inl by (simp add: or_sql_error_def or_error_handle_def sql_push_def)
      with assms(3,4) show ?thesis by auto
    next
      fix h t assume t: "t_push T (SErr err) (cv_table ?v) = Inr (h, t)" "push_entry T (SErr err) ?v = (Inr h, ?v\<lparr>cv_table := t\<rparr>)"
      have "same_table T (?v\<lparr>cv_table := t\<rparr>) (?v\<lparr>cv_table := t\<rparr>)" by (simp add: same_table_def)
      from pushed_dropped [OF assms(1,2) t(1) this] obtain t' where t':
        "delete_entry T h (?v\<lparr>cv_table := t\<rparr>) = (Inr (), ?v\<lparr>cv_table := t'\<rparr>)" "same_table T ?v (?v\<lparr>cv_table := t'\<rparr>)" by auto
      then have "or_sql_error T what (or_error_handle T m) v = (Inl (ExErr what h), ?v\<lparr>cv_table := t'\<rparr>)"
        using run Inl t(2) by (simp add: or_sql_error_def or_error_handle_def sql_push_def sql_drop_def)
      with assms(3) t'(2) show ?thesis by (auto simp: same_table_def)
    qed
  qed
qed

lemma or_sql_error_open:
  "or_sql_error T what (host_sql_open T Q path name) =
     op_bind (or_sql_error T what (or_error_handle T (sql_open Q path name))) (\<lambda>conn. op_map_err ExTrap (sql_push T (SConn conn)))"
  by (auto simp: fun_eq_iff or_sql_error_def host_sql_open_def op_bind_def op_map_err_def op_return_def op_fail_def
      split: prod.splits sum.splits)

lemma or_sql_error_prepare:
  "or_sql_error T what (host_prepare T query params) =
     op_map_err ExTrap (sql_push T (SStmt \<lparr>sm_query = query, sm_params = params\<rparr>))"
  by (auto simp: fun_eq_iff or_sql_error_def host_prepare_def op_bind_def op_map_err_def op_return_def
      split: prod.splits sum.splits)

text \<open>A query or an execution, for any way \<open>m\<close> of running a statement on a connection.\<close>

definition runs_statement ::
  "('t, ('c, 'f, 'd) sql_entry) table_ops \<Rightarrow> (nat \<Rightarrow> nat \<Rightarrow> ('w, 't, nat + 'a) sql_call)
    \<Rightarrow> ('c \<Rightarrow> ('f, 'd) statement \<Rightarrow> ('w, anyhow, 'a) op) \<Rightarrow> bool" where
  "runs_statement T run m \<longleftrightarrow> (\<forall>c q conn s v. t_get T c (cv_table v) = Inr (SConn conn) \<and> t_get T q (cv_table v) = Inr (SStmt s)
     \<longrightarrow> run c q v = or_error_handle T (m conn s) v)"

lemma host_query_runs: "runs_statement T (host_query T Q widen) (\<lambda>c s. conn_query Q widen c (sm_query s) (sm_params s))"
  by (simp add: runs_statement_def host_query_def sql_find_def get_entry_def)

lemma host_exec_runs: "runs_statement T (host_exec T Q widen) (\<lambda>c s. conn_exec Q widen c (sm_query s) (sm_params s))"
  by (simp add: runs_statement_def host_exec_def sql_find_def get_entry_def)

lemma or_sql_error_cong: "m v = m' v \<Longrightarrow> or_sql_error T what m v = or_sql_error T what m' v"
  by (simp add: or_sql_error_def op_bind_def op_map_err_def)

lemma prepared_run:
  assumes T: "table_laws T" "deletes T" and R: "runs_statement T run m" and conn: "t_get T c (cv_table v) = Inr (SConn conn)"
    and run: "op_bind (or_sql_error T what (host_prepare T query params)) (\<lambda>stmt. scoped (sql_drop T stmt) (or_sql_error T what2 (run c stmt))) v = (r, v')"
      "\<not> ends_instance r"
  shows "same_table T v v' \<and> (\<forall>x. r = Inr x \<longrightarrow> m conn \<lparr>sm_query = query, sm_params = params\<rparr> (cv_ctx v) = (Inr x, cv_ctx v'))"
proof -
  let ?s = "\<lparr>sm_query = query, sm_params = params\<rparr>"
  show ?thesis
  proof (rule push_entry_cases [of T "SStmt ?s" v])
    fix e assume "push_entry T (SStmt ?s) v = (Inl e, v)"
    with run show ?thesis by (auto simp: or_sql_error_prepare sql_push_def)
  next
    fix q t assume q: "t_push T (SStmt ?s) (cv_table v) = Inr (q, t)" "push_entry T (SStmt ?s) v = (Inr q, v\<lparr>cv_table := t\<rparr>)"
    let ?v1 = "v\<lparr>cv_table := t\<rparr>"
    have "scoped (sql_drop T q) (or_sql_error T what2 (run c q)) ?v1 = (r, v')"
      using run(1) q(2) by (simp add: or_sql_error_prepare sql_push_def)
    from scoped_result [OF this] run(2) obtain v2 where v2: "or_sql_error T what2 (run c q) ?v1 = (r, v2)"
        "v' = snd (sql_drop T q v2)" by blast
    have "t_get T c (cv_table ?v1) = Inr (SConn conn)" "t_get T q (cv_table ?v1) = Inr (SStmt ?s)"
      using table_push_keeps(2) [OF T(1) q(1) conn] table_push_get(1) [OF T(1) q(1)] by simp_all
    then have "run c q ?v1 = or_error_handle T (m conn ?s) ?v1" using R unfolding runs_statement_def by blast
    then have "or_sql_error T what2 (or_error_handle T (m conn ?s)) ?v1 = (r, v2)"
      using v2(1) or_sql_error_cong [of "run c q" ?v1] by metis
    note body = or_sql_error_run [OF T this run(2)]
    from pushed_dropped [OF T q(1), of v2] body obtain t2 where
      "delete_entry T q v2 = (Inr (), v2\<lparr>cv_table := t2\<rparr>)" "same_table T v (v2\<lparr>cv_table := t2\<rparr>)" by blast
    with body v2(2) show ?thesis by (simp add: sql_drop_def)
  qed
qed

lemma with_statement_run:
  assumes T: "table_laws T" "deletes T" and R: "runs_statement T run m"
    and run: "with_statement T Q path name query params run v = (r, v')" "\<not> ends_instance r"
  shows "same_table T v v' \<and> (\<forall>x. r = Inr x \<longrightarrow> (\<exists>conn w. sq_open Q path (cv_ctx v) = (Inr conn, w) \<and>
    m conn \<lparr>sm_query = query, sm_params = params\<rparr> w = (Inr x, cv_ctx v')))"
proof -
  obtain o1 v1 where o1: "or_sql_error T ''failed to open connection'' (or_error_handle T (sql_open Q path name)) v = (o1, v1)"
    by (rule prod.exhaust)
  show ?thesis
  proof (cases o1)
    case (Inl e)
    then have r: "r = Inl e" "v' = v1" using run(1) o1 by (simp_all add: with_statement_def or_sql_error_open)
    then have "\<not> ends_instance (o1 :: nat example_fault + 'b)" using run(2) Inl by (cases e) simp_all
    from or_sql_error_run [OF T o1 this] r show ?thesis by simp
  next
    case (Inr conn)
    have o2: "same_table T v v1" "sql_open Q path name (cv_ctx v) = (Inr conn, cv_ctx v1)"
      using or_sql_error_run [OF T o1] Inr by simp_all
    have opened: "sq_open Q path (cv_ctx v) = (Inr conn, cv_ctx v1)" using o2(2) by (simp add: sql_open_def)
    show ?thesis
    proof (rule push_entry_cases [of T "SConn conn" v1])
      fix e assume "push_entry T (SConn conn) v1 = (Inl e, v1)"
      with run o1 Inr show ?thesis by (auto simp: with_statement_def or_sql_error_open sql_push_def)
    next
      fix c t assume t: "t_push T (SConn conn) (cv_table v1) = Inr (c, t)" "push_entry T (SConn conn) v1 = (Inr c, v1\<lparr>cv_table := t\<rparr>)"
      let ?v2 = "v1\<lparr>cv_table := t\<rparr>"
      let ?inner = "op_bind (or_sql_error T ''failed to prepare statement'' (host_prepare T query params)) (\<lambda>stmt.
        scoped (sql_drop T stmt) (or_sql_error T ''query failed'' (run c stmt)))"
      have "scoped (sql_drop T c) ?inner ?v2 = (r, v')"
        using run(1) o1 Inr t(2) by (simp add: with_statement_def or_sql_error_open sql_push_def)
      from scoped_result [OF this] run(2) obtain v3 where v3: "?inner ?v2 = (r, v3)" "v' = snd (sql_drop T c v3)" by blast
      have "t_get T c (cv_table ?v2) = Inr (SConn conn)" using table_push_get(1) [OF T(1) t(1)] by simp
      note inner = prepared_run [OF T R this v3(1) run(2)]
      from pushed_dropped [OF T t(1), of v3] inner obtain t6 where
        "delete_entry T c v3 = (Inr (), v3\<lparr>cv_table := t6\<rparr>)" "same_table T v1 (v3\<lparr>cv_table := t6\<rparr>)" by blast
      with v3(2) have v': "v' = v3\<lparr>cv_table := t6\<rparr>" "same_table T v1 v'" by (simp_all add: sql_drop_def)
      have "same_table T v v'" using o2(1) v'(2) by (rule same_table_trans)
      with inner opened v'(1) show ?thesis by simp
    qed
  qed
qed

lemma identity_example_run:
  assumes "table_laws T" and "deletes T" and "identity_example T request now now2 v = (r, v')"
  shows "same_table T v v' \<and> (r = Inr ''Hello, World!'' \<and>
       (\<exists>t. manager_token request now now2 [identity_scope] (cv_ctx v) = (Inr t, cv_ctx v')) \<or>
     (\<exists>what e. r = Inl (ExErr what e)) \<and> cv_ctx v' = cv_ctx v)"
proof (rule push_entry_cases [of T IdManager v])
  fix e assume "push_entry T IdManager v = (Inl e, v)"
  then have "identity_example T request now now2 v = (Inl (ExErr ''getting identity'' (InternalFailure (Of_table e))), v)"
    by (simp add: identity_example_def host_get_identity_def)
  with assms(3) show ?thesis by (auto simp: same_table_def)
next
  fix h t assume t: "t_push T IdManager (cv_table v) = Inr (h, t)" "push_entry T IdManager v = (Inr h, v\<lparr>cv_table := t\<rparr>)"
  obtain q w where q: "manager_token request now now2 [identity_scope] (cv_ctx v) = (q, w)" by (rule prod.exhaust)
  let ?v = "v\<lparr>cv_table := t\<rparr>" and ?err = "\<lambda>e. InternalFailure (Of_anyhow (Context ''issue getting access token'' e))"
  have get: "host_get_token T request now now2 h [identity_scope] ?v = (res_map_err ?err q, ?v\<lparr>cv_ctx := w\<rparr>)"
    using table_push_get(1) [OF assms(1) t(1)] q
    by (simp add: host_get_token_def find_identity_def get_entry_def on_ctx_def)
  have "same_table T ?v (?v\<lparr>cv_ctx := w\<rparr>)" by simp
  from pushed_dropped [OF assms(1,2) t(1) this] obtain t' where t':
    "delete_entry T h (?v\<lparr>cv_ctx := w\<rparr>) = (Inr (), v\<lparr>cv_ctx := w, cv_table := t'\<rparr>)" "same_table T v (v\<lparr>cv_ctx := w, cv_table := t'\<rparr>)"
    by auto
  show ?thesis
  proof (cases q)
    case (Inl e)
    then have "identity_example T request now now2 v = (Inl (ExErr ''getting access token'' (?err e)), v\<lparr>cv_ctx := w, cv_table := t'\<rparr>)"
      using t(2) get t'(1) by (simp add: identity_example_def host_get_identity_def scoped_def host_drop_identity_def)
    moreover have "w = cv_ctx v" using q Inl by (simp add: manager_token_def split: option.splits sum.splits prod.splits)
    ultimately show ?thesis using assms(3) t'(2) by auto
  next
    case (Inr tok)
    then have "identity_example T request now now2 v = (Inr ''Hello, World!'', v\<lparr>cv_ctx := w, cv_table := t'\<rparr>)"
      using t(2) get t'(1) by (simp add: identity_example_def host_get_identity_def scoped_def host_drop_identity_def)
    with assms(3) t'(2) q Inr show ?thesis by auto
  qed
qed

section \<open>Properties\<close>

text \<open>
  The SQL examples.  A reply of the insert example is the number of rows, modulo \<open>2 ^ 32\<close>, that SQLite
  reported for the statement; it was executed with the row's texts and, where the guest passed a
  timestamp, with NULL.  A reply of the query example is the JSON of what the backend's query
  returned, from the one configured database whatever name is opened.  Unless the host traps, the
  table is as before: connection, statement and error handles are all dropped.
\<close>

theorem sql_examples_run:
  assumes "table_laws T" and "deletes T"
  shows "(\<forall>r v'. sql_insert_example T Q widen path v = (r, v') \<and> \<not> ends_instance r \<longrightarrow>
      same_table T v v' \<and> (\<forall>n. r = Inr n \<longrightarrow> (\<exists>conn stmt w w1 k. sq_open Q path (cv_ctx v) = (Inr conn, w) \<and>
        sq_prepare Q conn insert_sql w = (Inr stmt, w1) \<and>
        st_execute stmt [SqInteger 1224, SqText (string_bytes ''test1''), SqText (string_bytes ''name1''),
          SqText (string_bytes ''url1''), SqText (string_bytes ''NZL''), SqNull] w1 = (Inr k, cv_ctx v') \<and> n = of_nat k))) \<and>
    (\<forall>r v'. sql_query_example T Q widen fin b64 path v = (r, v') \<and> \<not> ends_instance r \<longrightarrow>
      same_table T v v' \<and> (\<forall>j. r = Inr j \<longrightarrow> (\<exists>conn rows w. sq_open Q path (cv_ctx v) = (Inr conn, w) \<and>
        conn_query Q widen conn ''SELECT * from mytable;'' [] w = (Inr rows, cv_ctx v') \<and>
        j = into_json fin widen b64 rows)))"
proof (intro conjI allI impI; elim conjE)
  fix r v' assume "sql_insert_example T Q widen path v = (r, v')" "\<not> ends_instance r"
  from with_statement_run [OF assms host_exec_runs this [unfolded sql_insert_example_def]]
  show "same_table T v v'" "\<And>n. r = Inr n \<Longrightarrow> \<exists>conn stmt w w1 k. sq_open Q path (cv_ctx v) = (Inr conn, w) \<and>
        sq_prepare Q conn insert_sql w = (Inr stmt, w1) \<and>
        st_execute stmt [SqInteger 1224, SqText (string_bytes ''test1''), SqText (string_bytes ''name1''),
          SqText (string_bytes ''url1''), SqText (string_bytes ''NZL''), SqNull] w1 = (Inr k, cv_ctx v') \<and> n = of_nat k"
    by (fastforce simp: conn_exec_def op_bind_Inr insert_params_def)+
next
  fix r v' assume run: "sql_query_example T Q widen fin b64 path v = (r, v')" "\<not> ends_instance r"
  let ?m = "with_statement T Q path ''postgres'' ''SELECT * from mytable;'' [] (host_query T Q widen)"
  obtain q where q: "?m v = (q, v')" "r = res_bind q (\<lambda>res. Inr (into_json fin widen b64 res))"
    using run(1) by (cases "?m v"; cases "fst (?m v)") (auto simp: sql_query_example_def op_bind_def op_return_def)
  have "\<not> ends_instance q"
  proof (cases q)
    case (Inl e)
    then show ?thesis using run(2) q(2) by (cases e) simp_all
  qed simp
  from with_statement_run [OF assms host_query_runs q(1) this] q(2)
  show "same_table T v v'" "\<And>j. r = Inr j \<Longrightarrow> \<exists>conn rows w. sq_open Q path (cv_ctx v) = (Inr conn, w) \<and>
        conn_query Q widen conn ''SELECT * from mytable;'' [] w = (Inr rows, cv_ctx v') \<and>
        j = into_json fin widen b64 rows"
    by (auto simp: res_bind_Inr_iff)
qed

definition table_sqlite :: "(unit, int, unit) sqlite_ops" where
  "table_sqlite = \<lparr>sq_open = (\<lambda>_. op_return ()),
     sq_prepare = (\<lambda>_ q. op_return \<lparr>st_columns = [''feed_id''], st_query = (\<lambda>ps. op_return [Inr [SqInteger 1224]]),
         st_execute = (\<lambda>ps. op_return 1)\<rparr>)\<rparr>"

theorem sql_examples_run_witness:
  "\<exists>v' v2 j. sql_insert_example slot_table table_sqlite (\<lambda>f. f) ''db'' \<lparr>cv_ctx = (), cv_table = []\<rparr> = (Inr 1, v') \<and>
     same_table slot_table \<lparr>cv_ctx = (), cv_table = []\<rparr> v' \<and>
     sql_query_example slot_table table_sqlite (\<lambda>f. f) (\<lambda>_. True) bytes_string ''db'' v' = (Inr j, v2) \<and>
     same_table slot_table v' v2"
proof -
  let ?v = "\<lparr>cv_ctx = (), cv_table = []\<rparr> :: (unit, (unit, int, int) sql_entry option list) ctx_view"
  have "\<exists>v'. sql_insert_example slot_table table_sqlite (\<lambda>f. f) ''db'' ?v = (Inr 1, v') \<and> v' = \<lparr>cv_ctx = (), cv_table = [None, None]\<rparr>"
    by (intro exI conjI [OF _ refl]) code_simp
  then obtain v' where v': "sql_insert_example slot_table table_sqlite (\<lambda>f. f) ''db'' ?v = (Inr 1, v')"
      "v' = \<lparr>cv_ctx = (), cv_table = [None, None]\<rparr>" by blast
  have "\<exists>j v2. sql_query_example slot_table table_sqlite (\<lambda>f. f) (\<lambda>_. True) bytes_string ''db'' v' = (Inr j, v2)"
    unfolding v'(2) by (intro exI) code_simp
  then obtain j v2 where v2: "sql_query_example slot_table table_sqlite (\<lambda>f. f) (\<lambda>_. True) bytes_string ''db'' v' = (Inr j, v2)"
    by blast
  have ok: "\<not> ends_instance (Inr x)" for x by simp
  note law = sql_examples_run [OF slot_table_laws slot_table_deletes, THEN conjunct1, rule_format]
    sql_examples_run [OF slot_table_laws slot_table_deletes, THEN conjunct2, rule_format]
  from law(1) [OF conjI [OF v'(1) ok]] law(2) [OF conjI [OF v2 ok]] show ?thesis using v'(1) v2 by blast
qed

text \<open>
  The identity example.  It answers its greeting exactly when the token manager had or obtained a token
  for its scope; otherwise it answers an error and the manager's cache is untouched.  No handle is left.
\<close>

theorem identity_example_outcome:
  assumes "table_laws T" and "deletes T" and "identity_example T request now now2 v = (r, v')"
  shows "same_table T v v' \<and> (r = Inr ''Hello, World!'' \<and>
       (\<exists>t. manager_token request now now2 [identity_scope] (cv_ctx v) = (Inr t, cv_ctx v')) \<or>
     (\<exists>what e. r = Inl (ExErr what e)) \<and> cv_ctx v' = cv_ctx v)"
  using assms by (rule identity_example_run)

theorem identity_example_outcome_witness:
  "\<exists>v'. identity_example slot_table (\<lambda>_. Inr \<lparr>tr_access_token = ''t'', tr_expires_in = None\<rparr>) 5 6
       \<lparr>cv_ctx = token_manager_new 5, cv_table = []\<rparr> = (Inr ''Hello, World!'', v') \<and> t_get slot_table 0 (cv_table v') = Inl NotPresent"
proof -
  let ?v = "\<lparr>cv_ctx = token_manager_new 5, cv_table = []\<rparr> :: (cached_token, identity_entry option list) ctx_view"
    and ?r = "\<lambda>_ :: string list. Inr \<lparr>tr_access_token = ''t'', tr_expires_in = None\<rparr> :: anyhow + token_response"
  have "\<exists>v'. identity_example slot_table ?r 5 6 ?v = (Inr ''Hello, World!'', v')" by (rule exI) code_simp
  then obtain v' where v': "identity_example slot_table ?r 5 6 ?v = (Inr ''Hello, World!'', v')" by blast
  from identity_example_outcome [OF slot_table_laws slot_table_deletes v'] have "same_table slot_table ?v v'" by blast
  then have "t_get slot_table 0 (cv_table v') = t_get slot_table 0 (cv_table ?v)" by (simp add: same_table_def)
  then show ?thesis using v' by (auto simp: slot_table_def slot_get_def)
qed

end
