(* ===== verification/ExamplesFanout.thy ===== *)
theory ExamplesFanout
  imports Examples "HOL-Library.Sublist"
begin

text \<open>
  The message handler of \<open>examples/messaging/guest.rs\<close>: its dispatch on the topic, and topic \<open>a\<close>, whose
  arm spawns a thousand tasks.  A task runs from its connection to its end; they share the handle
  table and the channel, so their order is that of their sends.  Nothing awaits them: which of them
  run, and in what order, is up to the runtime.
\<close>

section \<open>Handlers\<close>

text \<open>One spawned task: it gives up when it cannot connect, and logs an error of its send.\<close>

definition fanout_task ::
  "'t msg_table \<Rightarrow> 'w sender \<Rightarrow> nat \<Rightarrow> (('w, 't) ctx_view, msg_error example_fault, unit) op" where
  "fanout_task T sender i =
     op_try (msg_connect T) (\<lambda>connected. case connected of
         Inl e \<Rightarrow> op_return ()
       | Inr client \<Rightarrow>
           op_bind (op_map_err ExTrap (msg_new T (string_bytes (''topic a iteration '' @ nat_str i)))) (\<lambda>message.
           op_bind (op_map_err ExTrap (msg_add_metadata T message ''key'' (''key-'' @ nat_str i))) (\<lambda>_.
           scoped (msg_drop T client)
             (op_try (producer_send T sender client ''b'' message) (\<lambda>_. op_return ())))))"

text \<open>The arms answer with the tasks they spawned; the message is dropped at the end.\<close>

definition handle_topic_a ::
  "'t msg_table \<Rightarrow> nat \<Rightarrow> (('w, 't) ctx_view, msg_error example_fault, nat list) op" where
  "handle_topic_a T message =
     scoped (msg_drop T message)
       (op_bind (op_map_err ExTrap (msg_data T message)) (\<lambda>data.
        op_bind (op_map_err ExTrap (msg_new T (string_bytes ''topic a says: '' @ data))) (\<lambda>pubmsg.
        scoped (msg_drop T pubmsg)
          (op_bind (op_map_err ExTrap (msg_metadata T message)) (\<lambda>md.
           op_bind (case md of None \<Rightarrow> op_return () | Some md \<Rightarrow> op_map_err ExTrap (msg_set_metadata T pubmsg md)) (\<lambda>_.
           op_bind (op_map_err ExTrap (msg_content_type T message)) (\<lambda>format.
           op_bind (case format of None \<Rightarrow> op_return () | Some format \<Rightarrow> op_map_err ExTrap (msg_set_content_type T pubmsg format)) (\<lambda>_.
           op_return [0..<1000]))))))))"

definition example_message_handle ::
  "'t msg_table \<Rightarrow> 'w sender \<Rightarrow> (bytes \<Rightarrow> bool) \<Rightarrow> nat \<Rightarrow> (('w, 't) ctx_view, msg_error example_fault, nat list) op" where
  "example_message_handle T sender utf8 message =
     op_bind (op_map_err ExTrap (msg_topic T message)) (\<lambda>topic.
       let topic = (case topic of None \<Rightarrow> [] | Some t \<Rightarrow> t) in
       if topic = ''a'' then handle_topic_a T message
       else if topic = ''b'' then scoped (msg_drop T message) (op_return [])
       else if topic = ''c'' then op_bind (handle_topic_c T sender utf8 message) (\<lambda>_. op_return [])
       else scoped (msg_drop T message) (op_return []))"

section \<open>Lemmas\<close>

definition fanout_message :: "nat \<Rightarrow> dyn_message" where
  "fanout_message i = InMem ((message_from (string_bytes (''topic a iteration '' @ nat_str i)))\<lparr>mg_topic := ''b''\<rparr>)"

lemma set_and_get_ctx:
  "msg_data T h v = (r1, v') \<Longrightarrow> v' = v" "msg_metadata T h v = (r2, v') \<Longrightarrow> v' = v"
  "msg_content_type T h v = (r3, v') \<Longrightarrow> v' = v" "msg_topic T h v = (r4, v') \<Longrightarrow> v' = v"
  by (auto simp: msg_data_def msg_metadata_def msg_content_type_def msg_topic_def find_message_def get_entry_def
      op_bind_def op_map_err_def Let_def split: sum.splits option.splits if_splits)

lemma edit_ctx:
  assumes "push_updated T h f v = (Inr (), v')"
  shows "cv_ctx v' = cv_ctx v"
  using assms by (auto simp: push_updated_Inr)

lemma fanout_task_run:
  assumes "table_laws T" and "fanout_task T sender i v = (Inr (), v')"
  shows "cv_ctx v' = cv_ctx v \<or> cv_ctx v' = snd (sender (fanout_message i) (cv_ctx v))"
proof -
  obtain c v1 where connect: "msg_connect T v = (c, v1)" by (rule prod.exhaust)
  show ?thesis
  proof (cases c)
    case (Inl e)
    then have "v' = v1" using connect assms(2) by (simp add: fanout_task_def op_try_def)
    moreover have "cv_ctx v1 = cv_ctx v" using connect
      by (auto simp: msg_connect_def push_entry_def op_map_err_def split: sum.splits)
    ultimately show ?thesis by simp
  next
    case (Inr client)
    let ?text = "string_bytes (''topic a iteration '' @ nat_str i)"
    obtain h v2 y v3 where ops: "msg_new T ?text v1 = (Inr h, v2)" "msg_add_metadata T h ''key'' (''key-'' @ nat_str i) v2 = (Inr y, v3)"
      and rest: "scoped (msg_drop T client) (op_try (producer_send T sender client ''b'' h) (\<lambda>_. op_return ())) v3 =
        (Inr () :: msg_error example_fault + unit, v')"
      using assms(2) connect Inr by (auto simp: fanout_task_def op_try_def op_bind_Inr)
    obtain t0 t1 where push: "t_push T MClient (cv_table v) = Inr (client, t0)"
        "t_push T (MProxy (InMem (message_from ?text))) t0 = Inr (h, t1)" "v2 = v\<lparr>cv_table := t1\<rparr>"
      using ops(1) connect Inr by (auto simp: connect_Inr msg_new_Inr)
    obtain u k t2 where edit: "t_push T (MArc u) t1 = Inr (k, t2)" "v3 = v\<lparr>cv_table := t2\<rparr>"
      using ops(2) push(3) by (auto simp: msg_add_metadata_def push_updated_Inr)
    note keeps = table_push_keeps(2) [OF assms(1)]
    have "t_get T client t2 = Inr MClient" "t_get T h t2 = Inr (MProxy (InMem (message_from ?text)))"
      using keeps [OF edit(1)] keeps [OF push(2)] table_push_get(1) [OF assms(1) push(1)]
        table_push_get(1) [OF assms(1) push(2)] by simp_all
    then have send: "cv_ctx (snd (producer_send T sender client ''b'' h v3)) = snd (sender (fanout_message i) (cv_ctx v))"
      using send_run [of T client v3 h "message_from ?text" sender "''b''"] by (simp add: edit(2) fanout_message_def)
    obtain x v4 where x: "producer_send T sender client ''b'' h v3 = (x, v4)" by (rule prod.exhaust)
    then have "v' = snd (msg_drop T client v4)" using rest by (simp add: scoped_def)
    then show ?thesis using send x by simp
  qed
qed

lemma fanout_tasks_run:
  assumes "table_laws T" and "op_for (fanout_task T sender) order v = (Inr (), v')"
  shows "\<exists>sent. subseq sent order \<and> cv_ctx v' = fold (\<lambda>i w. snd (sender (fanout_message i) w)) sent (cv_ctx v)"
  using assms(2)
proof (induction order arbitrary: v)
  case Nil
  then show ?case by auto
next
  case (Cons i order)
  then obtain v1 where v1: "fanout_task T sender i v = (Inr (), v1)" "op_for (fanout_task T sender) order v1 = (Inr (), v')"
    by (auto simp: op_bind_Inr)
  then obtain sent where sent: "subseq sent order" "cv_ctx v' = fold (\<lambda>i w. snd (sender (fanout_message i) w)) sent (cv_ctx v1)"
    using Cons.IH by blast
  from fanout_task_run [OF assms(1) v1(1)] show ?case
  proof
    assume "cv_ctx v1 = cv_ctx v"
    with sent show ?thesis by (intro exI [of _ sent]) auto
  next
    assume "cv_ctx v1 = snd (sender (fanout_message i) (cv_ctx v))"
    with sent show ?thesis by (intro exI [of _ "i # sent"]) auto
  qed
qed

lemma topic_a_run:
  assumes "handle_topic_a T h v = (Inr spawned, v')"
  shows "spawned = [0..<1000] \<and> cv_ctx v' = cv_ctx v"
proof -
  let ?edit = "\<lambda>edit arg. case arg of None \<Rightarrow> op_return () | Some x \<Rightarrow> op_map_err ExTrap (edit x)"
  obtain v1 data v2 p v3 v4 where at: "msg_data T h v = (Inr data, v1)" "msg_new T (string_bytes ''topic a says: '' @ data) v1 = (Inr p, v2)"
      "op_bind (op_map_err ExTrap (msg_metadata T h)) (\<lambda>md. op_bind (?edit (msg_set_metadata T p) md) (\<lambda>_.
         op_bind (op_map_err ExTrap (msg_content_type T h)) (\<lambda>format. op_bind (?edit (msg_set_content_type T p) format) (\<lambda>_.
         op_return [0..<1000])))) v2 = (Inr spawned :: msg_error example_fault + nat list, v3)"
      and drops: "v4 = snd (msg_drop T p v3)" "v' = snd (msg_drop T h v4)"
    using scoped_result [OF assms [unfolded handle_topic_a_def]] by (auto simp: op_bind_Inr dest!: scoped_result)
  obtain md v5 y v6 format v7 x where run: "msg_metadata T h v2 = (Inr md, v5)" "?edit (msg_set_metadata T p) md v5 = (Inr y :: msg_error example_fault + unit, v6)"
      "msg_content_type T h v6 = (Inr format, v7)" "?edit (msg_set_content_type T p) format v7 = (Inr x :: msg_error example_fault + unit, v3)" "spawned = [0..<1000]"
    using at(3) unfolding op_bind_Inr op_map_err_Inr by (auto simp: op_return_def)
  have edits: "cv_ctx v6 = cv_ctx v5" "cv_ctx v3 = cv_ctx v7"
    using run(2,4) by (auto simp: msg_set_metadata_def msg_set_content_type_def dest!: edit_ctx split: option.splits)
  have "v1 = v" "v5 = v2" "v7 = v6" using set_and_get_ctx at(1) run(1,3) by blast+
  moreover have "cv_ctx v2 = cv_ctx v1" using at(2) by (auto simp: msg_new_Inr)
  ultimately show ?thesis using edits run(5) by (simp add: drops)
qed

text \<open>
  Topic \<open>a\<close>.  The handler publishes nothing itself: the reply it prepares is dropped, and a thousand
  tasks are left behind.  Of the tasks that run, each publishes at most once on topic \<open>b\<close>, in the
  order in which they run, and without the key that it set.
\<close>

theorem messaging_fanout:
  assumes "table_laws T" and "t_get T h (cv_table v) = Inr (MProxy (InMem m))" and "mg_topic m = ''a''"
    and "example_message_handle T sender utf8 h v = (Inr spawned, v1)"
  shows "spawned = [0..<1000] \<and> cv_ctx v1 = cv_ctx v \<and>
    (\<forall>order v2. set order \<subseteq> set spawned \<and> distinct order \<and> op_for (fanout_task T sender) order v1 = (Inr (), v2) \<longrightarrow>
      (\<exists>sent. subseq sent order \<and> cv_ctx v2 = fold (\<lambda>i w. snd (sender (fanout_message i) w)) sent (cv_ctx v))) \<and>
    (\<forall>i. meta_of (fanout_message i) = Map.empty)"
proof -
  have "msg_topic T h v = (Inr (Some ''a''), v)"
    using assms(3) by (simp add: msg_topic_def find_message_ok [OF assms(2)])
  then have run: "handle_topic_a T h v = (Inr spawned, v1)"
    using assms(4) by (simp add: example_message_handle_def op_bind_def)
  have "meta_of (fanout_message i) = Map.empty" for i by (simp add: meta_of_def fanout_message_def message_from_def)
  then show ?thesis using topic_a_run [OF run] fanout_tasks_run [OF assms(1)] by metis
qed

theorem messaging_fanout_witness:
  "\<exists>v1 v2. example_message_handle slot_table log_sender (\<lambda>_. True) 1
       (demo_msg_view\<lparr>cv_table := [Some MClient, Some (MProxy (InMem (demo_message\<lparr>mg_topic := ''a''\<rparr>)))]\<rparr>) = (Inr [0..<1000], v1) \<and>
     op_for (fanout_task slot_table log_sender) [3, 1] v1 = (Inr (), v2) \<and> cv_ctx v1 = [] \<and>
     cv_ctx v2 = [fanout_message 3, fanout_message 1]"
proof -
  let ?v = "demo_msg_view\<lparr>cv_table := [Some MClient, Some (MProxy (InMem (demo_message\<lparr>mg_topic := ''a''\<rparr>)))]\<rparr>"
  have at: "t_get slot_table 1 (cv_table ?v) = Inr (MProxy (InMem (demo_message\<lparr>mg_topic := ''a''\<rparr>)))"
    by (simp add: slot_table_def slot_get_def)
  let ?v1 = "\<lparr>cv_ctx = [], cv_table = [Some MClient, None, None]\<rparr> :: (dyn_message list, msg_entry option list) ctx_view"
  have run: "example_message_handle slot_table log_sender (\<lambda>_. True) 1 ?v = (Inr [0..<1000], ?v1)"
    by (simp add: example_message_handle_def handle_topic_a_def scoped_def msg_topic_def msg_data_def msg_metadata_def
        msg_content_type_def find_message_def get_entry_def msg_new_def new_message_def msg_push_def push_entry_def
        msg_drop_def delete_entry_def slot_table_def slot_get_def demo_msg_view_def demo_message_def
        del: upt_rec_numeral)
  note law = messaging_fanout [OF slot_table_laws at _ run]
  have "cv_ctx ?v1 = []" using law by (simp add: demo_msg_view_def)
  moreover have "fst (op_for (fanout_task slot_table log_sender) [3, 1] ?v1) = Inr () \<and>
      cv_ctx (snd (op_for (fanout_task slot_table log_sender) [3, 1] ?v1)) = [fanout_message 3, fanout_message 1]" by code_simp
  ultimately show ?thesis using run by (metis prod.collapse)
qed

end
