(* ===== verification/OtelIds.thy ===== *)
theory OtelIds
  imports OtelTracing BigEndian
begin

text \<open>
  wasi-otel: the ids of traces and spans, from the SDK of the guest through the strings of the
  interface to the bytes of the protocol, and the conversion of span contexts back to the SDK
  (\<open>src/guest/tracing.rs\<close>, \<open>src/host/tracing_impl.rs\<close>).

  The guest prints an id with \<open>{:x}\<close>, which does not pad, the host decodes it with the \<open>hex\<close> crate,
  which takes two digits for a byte.
\<close>

section \<open>Hexadecimal text\<close>

definition hex_digit :: "nat \<Rightarrow> char" where
  "hex_digit d = (if d < 10 then char_of (48 + d) else char_of (87 + d))"

text \<open>\<open>format!("{:x}", n)\<close> and \<open>format!("{:0w$x}", n)\<close>\<close>

fun lower_hex :: "nat \<Rightarrow> string" where
  "lower_hex n = (if n < 16 then [hex_digit n] else lower_hex (n div 16) @ [hex_digit (n mod 16)])"

declare lower_hex.simps [simp del]

definition padded_hex :: "nat \<Rightarrow> nat \<Rightarrow> string" where
  "padded_hex w n = replicate (w - length (lower_hex n)) (CHR ''0'') @ lower_hex n"

definition byte_hex :: "byte \<Rightarrow> string" where
  "byte_hex b = [hex_digit (unat b div 16), hex_digit (unat b mod 16)]"

text \<open>
  The SDK formats an id with \<open>{:x}\<close> as its number, and displays it padded to its width of 16 and 8
  bytes.  The \<open>hex\<close> crate decodes pairs of digits and refuses a text of odd length.
\<close>

definition id_text_laws :: "id_text \<Rightarrow> bool" where
  "id_text_laws I \<longleftrightarrow> it_trace_hex I = lower_hex \<and> it_span_hex I = lower_hex \<and>
     it_trace_string I = padded_hex 32 \<and> it_span_string I = padded_hex 16"

definition hex_laws :: "'f otel_env \<Rightarrow> bool" where
  "hex_laws X \<longleftrightarrow> (\<forall>bs. oe_hex X (concat (map byte_hex bs)) = Some bs) \<and> (\<forall>s. odd (length s) \<longrightarrow> oe_hex X s = None)"

section \<open>Span contexts back to the SDK\<close>

text \<open>\<open>TraceId::from_hex\<close>, \<open>SpanId::from_hex\<close> and the header of \<open>TraceState::from_key_value\<close>\<close>

record id_parse =
  ip_trace :: "string \<Rightarrow> nat option"
  ip_span :: "string \<Rightarrow> nat option"
  ip_state :: "(string \<times> string) list \<Rightarrow> string option"

text \<open>The invalid ids are zero, the default trace state is empty, and flags have the one bit.\<close>

definition context_to_sdk :: "id_parse \<Rightarrow> wasi_span_context \<Rightarrow> sdk_span_context" where
  "context_to_sdk P c = \<lparr>sx_trace_id = unwrap_or_default 0 (ip_trace P (wc_trace_id c)),
     sx_span_id = unwrap_or_default 0 (ip_span P (wc_span_id c)), sx_sampled = wc_sampled c,
     sx_is_remote = wc_is_remote c, sx_trace_state = unwrap_or_default [] (ip_state P (wc_trace_state c))\<rparr>"

text \<open>The host prints the ids of its span context padded.\<close>

definition context_from_host :: "id_text \<Rightarrow> sdk_span_context \<Rightarrow> wasi_span_context" where
  "context_from_host I ctx = \<lparr>wc_trace_id = it_trace_string I (sx_trace_id ctx),
     wc_span_id = it_span_string I (sx_span_id ctx), wc_sampled = sx_sampled ctx,
     wc_is_remote = sx_is_remote ctx, wc_trace_state = parse_trace_state (sx_trace_state ctx)\<rparr>"

section \<open>Lemmas\<close>

text \<open>Exactly \<open>w\<close> digits.\<close>

fun hex_fixed :: "nat \<Rightarrow> nat \<Rightarrow> string" where
  "hex_fixed 0 n = []"
| "hex_fixed (Suc w) n = hex_fixed w (n div 16) @ [hex_digit (n mod 16)]"

lemma length_hex_fixed [simp]: "length (hex_fixed w n) = w"
  by (induction w arbitrary: n) auto

lemma hex_digit_0 [simp]: "hex_digit 0 = CHR ''0''"
  by code_simp

lemma hex_fixed_0: "hex_fixed w 0 = replicate w (CHR ''0'')"
  by (induction w) (simp_all add: replicate_append_same)

lemma lower_hex_fixed: "lower_hex n = hex_fixed (length (lower_hex n)) n"
proof (induction n rule: lower_hex.induct)
  case (1 n)
  show ?case using 1 by (subst (1 2) lower_hex.simps) auto
qed

lemma length_lower_hex: "length (lower_hex n) \<le> Suc w \<longleftrightarrow> n < 16 ^ Suc w"
proof (induction w arbitrary: n)
  case 0
  have "lower_hex m \<noteq> []" for m by (subst lower_hex.simps) simp
  then show ?case by (subst lower_hex.simps) auto
next
  case (Suc w)
  show ?case
  proof (cases "n < 16")
    case True
    have "(16 :: nat) \<le> 16 ^ Suc (Suc w)" by (rule self_le_power) simp_all
    with True have "n < 16 ^ Suc (Suc w)" by (rule less_le_trans)
    with True show ?thesis by (subst lower_hex.simps) simp
  next
    case False
    then have "length (lower_hex n) = Suc (length (lower_hex (n div 16)))" by (subst lower_hex.simps) simp
    then have "length (lower_hex n) \<le> Suc (Suc w) \<longleftrightarrow> n div 16 < 16 ^ Suc w" using Suc.IH [of "n div 16"] by simp
    then show ?thesis by (simp add: div_less_iff_less_mult mult.commute)
  qed
qed

lemma hex_fixed_split: "hex_fixed (a + b) n = hex_fixed a (n div 16 ^ b) @ hex_fixed b n"
  by (induction b arbitrary: n) (simp_all add: div_mult2_eq)

lemma padded_hex_fixed:
  assumes "n < 16 ^ Suc w"
  shows "padded_hex (Suc w) n = hex_fixed (Suc w) n"
proof -
  let ?l = "length (lower_hex n)"
  have l: "?l \<le> Suc w" using assms length_lower_hex by blast
  have "n div 16 ^ ?l = 0"
  proof (cases ?l)
    case 0
    then show ?thesis by (subst (asm) lower_hex.simps) (auto split: if_splits)
  next
    case (Suc k)
    then show ?thesis using length_lower_hex [of n k] by simp
  qed
  then have "hex_fixed (Suc w) n = replicate (Suc w - ?l) (CHR ''0'') @ hex_fixed ?l n"
    using hex_fixed_split [of "Suc w - ?l" ?l n] l by (simp add: hex_fixed_0)
  then show ?thesis using lower_hex_fixed [of n] by (simp add: padded_hex_def)
qed

lemma hex_fixed_bytes: "hex_fixed (2 * k) n = concat (map byte_hex (be_digits k n))"
proof (induction k arbitrary: n)
  case (Suc k)
  have "hex_fixed (2 * Suc k) n = hex_fixed (2 * k) (n div 256) @ [hex_digit (n div 16 mod 16), hex_digit (n mod 16)]"
    by (simp add: div_mult2_eq flip: div_mult2_eq)
  moreover have "byte_hex (of_nat (n mod 256)) = [hex_digit (n div 16 mod 16), hex_digit (n mod 16)]"
  proof -
    have "n mod 256 = 16 * (n div 16 mod 16) + n mod 16" using mod_mult2_eq [of n 16 16] by simp
    then have "n mod 256 div 16 = n div 16 mod 16" "n mod 256 mod 16 = n mod 16" by simp_all
    then show ?thesis by (simp add: byte_hex_def unat_of_nat)
  qed
  ultimately show ?case using Suc.IH by simp
qed simp

lemma hex_padded:
  assumes "hex_laws X" and "n < 16 ^ (2 * Suc k)"
  shows "hex_or_empty X (padded_hex (2 * Suc k) n) = be_digits (Suc k) n"
proof -
  have "padded_hex (2 * Suc k) n = concat (map byte_hex (be_digits (Suc k) n))"
    using padded_hex_fixed [of n "Suc (2 * k)"] hex_fixed_bytes [of "Suc k" n] assms(2) by simp
  then show ?thesis using assms(1) by (simp only: hex_or_empty_def hex_laws_def unwrap_or_default_def option.case)
qed

lemma hex_unpadded:
  assumes "hex_laws X"
  shows "hex_or_empty X (lower_hex n) =
    (let l = length (lower_hex n) in if even l then be_digits (l div 2) n else [])"
  using assms lower_hex_fixed [of n] hex_fixed_bytes [of "length (lower_hex n) div 2" n]
  by (auto simp: hex_or_empty_def hex_laws_def unwrap_or_default_def Let_def)

text \<open>An id keeps its bytes exactly when its first digit is not zero.\<close>

lemma hex_unpadded_whole:
  assumes "hex_laws X" and "n < 16 ^ (2 * Suc k)"
  shows "hex_or_empty X (lower_hex n) = be_digits (Suc k) n \<longleftrightarrow> 16 ^ Suc (2 * k) \<le> n"
proof -
  let ?l = "length (lower_hex n)"
  have l: "?l \<le> 2 * Suc k" "?l \<le> Suc (2 * k) \<longleftrightarrow> n < 16 ^ Suc (2 * k)"
    using assms(2) length_lower_hex [of n "Suc (2 * k)"] length_lower_hex [of n "2 * k"] by simp_all
  then have whole: "16 ^ Suc (2 * k) \<le> n \<longleftrightarrow> ?l = 2 * Suc k" using not_less [of n "16 ^ Suc (2 * k)"] by auto
  show ?thesis
  proof
    assume "hex_or_empty X (lower_hex n) = be_digits (Suc k) n"
    then have "length (let l = ?l in if even l then be_digits (l div 2) n else []) = Suc k"
      using hex_unpadded [OF assms(1), of n] by simp
    then have "even ?l" "?l div 2 = Suc k" by (auto simp: Let_def split: if_splits)
    then show "16 ^ Suc (2 * k) \<le> n" using whole by auto
  next
    assume "16 ^ Suc (2 * k) \<le> n"
    then have "?l = 2 * Suc k" using whole by blast
    then show "hex_or_empty X (lower_hex n) = be_digits (Suc k) n" using hex_unpadded [OF assms(1), of n] by simp
  qed
qed

text \<open>
  What the SDK reads: an id from its digits, with or without leading zeros, and a trace state whose
  entries are valid, which makes them free of the separators.
\<close>

definition parse_laws :: "(string \<times> string \<Rightarrow> bool) \<Rightarrow> id_parse \<Rightarrow> bool" where
  "parse_laws valid P \<longleftrightarrow>
     (\<forall>n < 16 ^ 32. ip_trace P (lower_hex n) = Some n \<and> ip_trace P (padded_hex 32 n) = Some n) \<and>
     (\<forall>n < 16 ^ 16. ip_span P (lower_hex n) = Some n \<and> ip_span P (padded_hex 16 n) = Some n) \<and>
     (\<forall>k v. valid (k, v) \<longrightarrow> CHR ''='' \<notin> set k \<and> CHR '','' \<notin> set k \<and> CHR '','' \<notin> set v) \<and>
     (\<forall>ts. (\<forall>e \<in> set ts. valid e) \<longrightarrow> ip_state P ts = Some (print_trace_state ts))"

lemma parse_print_state:
  assumes "\<forall>(k, v) \<in> set ts. CHR ''='' \<notin> set k \<and> CHR '','' \<notin> set k \<and> CHR '','' \<notin> set v"
  shows "parse_trace_state (print_trace_state ts) = ts"
proof (cases "ts = []")
  case True
  then show ?thesis by (simp add: parse_trace_state_def print_trace_state_def split_on_def List.map_filter_def)
next
  case False
  then show ?thesis using assms by (rule trace_state_roundtrip)
qed

definition sdk_context_ok :: "(string \<times> string \<Rightarrow> bool) \<Rightarrow> sdk_span_context \<Rightarrow> bool" where
  "sdk_context_ok valid c \<longleftrightarrow> sx_trace_id c < 16 ^ 32 \<and> sx_span_id c < 16 ^ 16 \<and>
     (\<exists>ts. sx_trace_state c = print_trace_state ts \<and> (\<forall>e \<in> set ts. valid e))"

text \<open>Either side's context comes back whole when the SDK reads it.\<close>

lemma context_roundtrip:
  assumes "parse_laws valid P" and "id_text_laws I" and "sdk_context_ok valid c"
  shows "context_to_sdk P (context_from_sdk I c) = c" and "context_to_sdk P (context_from_host I c) = c"
proof -
  obtain ts where ts: "sx_trace_state c = print_trace_state ts" "\<forall>e \<in> set ts. valid e"
    using assms(3) by (auto simp: sdk_context_ok_def)
  have "\<forall>(k, v) \<in> set ts. CHR ''='' \<notin> set k \<and> CHR '','' \<notin> set k \<and> CHR '','' \<notin> set v"
    using ts(2) assms(1) by (force simp: parse_laws_def)
  then have "parse_trace_state (sx_trace_state c) = ts" by (simp add: ts(1) parse_print_state)
  moreover have "ip_state P ts = Some (sx_trace_state c)" using assms(1) ts by (simp add: parse_laws_def)
  ultimately show "context_to_sdk P (context_from_sdk I c) = c" "context_to_sdk P (context_from_host I c) = c"
    using assms by (simp_all add: context_to_sdk_def context_from_sdk_def context_from_host_def
        unwrap_or_default_def parse_laws_def id_text_laws_def sdk_context_ok_def)
qed

section \<open>Properties\<close>

text \<open>
  C30: Ids on the wire.  The trace and the parent of an exported span are those of the host, with all
  their bytes.  The span's own id, and the ids of the contexts it links to, have lost their leading
  zeros in the guest: an id arrives exactly when its first hexadecimal digit is not zero; of the
  others, one with an odd number of digits left arrives empty and one with an even number short.
\<close>

theorem span_ids_on_the_wire:
  assumes "id_text_laws I" and "hex_laws X" and "sx_trace_id parent < 16 ^ 32" and "sx_span_id parent < 16 ^ 16"
    and "sx_span_id (ss_context sd) < 16 ^ 16"
  shows "let sent = span_to_proto X (set_parent I parent (span_from_sdk I sd)); own = sx_span_id (ss_context sd);
        digits = length (lower_hex own)
     in sp_trace_id sent = be_digits 16 (sx_trace_id parent) \<and> sp_parent_span_id sent = be_digits 8 (sx_span_id parent) \<and>
        (sp_span_id sent = be_digits 8 own \<longleftrightarrow> 16 ^ 15 \<le> own) \<and>
        sp_span_id sent = (if even digits then be_digits (digits div 2) own else []) \<and>
        map pl_span_id (sp_links sent) = map (\<lambda>l. hex_or_empty X (lower_hex (sx_span_id (sl_context l)))) (ss_links sd) \<and>
        (\<forall>l \<in> set (ss_links sd). sx_span_id (sl_context l) < 16 ^ 16 \<and> sx_trace_id (sl_context l) < 16 ^ 32 \<longrightarrow>
          (let pl = link_to_proto X (link_from_sdk I l) in
             (pl_span_id pl = be_digits 8 (sx_span_id (sl_context l)) \<longleftrightarrow> 16 ^ 15 \<le> sx_span_id (sl_context l)) \<and>
             (pl_trace_id pl = be_digits 16 (sx_trace_id (sl_context l)) \<longleftrightarrow> 16 ^ 31 \<le> sx_trace_id (sl_context l))))"
proof -
  note laws = assms(1) [unfolded id_text_laws_def]
  have span: "hex_or_empty X (lower_hex n) = be_digits 8 n \<longleftrightarrow> 16 ^ 15 \<le> n" if "n < 16 ^ 16" for n
    using hex_unpadded_whole [OF assms(2), of n 7] that by simp
  have trace: "hex_or_empty X (lower_hex n) = be_digits 16 n \<longleftrightarrow> 16 ^ 31 \<le> n" if "n < 16 ^ 32" for n
    using hex_unpadded_whole [OF assms(2), of n 15] that by simp
  have whole: "hex_or_empty X (padded_hex 32 (sx_trace_id parent)) = be_digits 16 (sx_trace_id parent)"
      "hex_or_empty X (padded_hex 16 (sx_span_id parent)) = be_digits 8 (sx_span_id parent)"
    using hex_padded [OF assms(2), of "sx_trace_id parent" 15] hex_padded [OF assms(2), of "sx_span_id parent" 7] assms(3,4) by simp_all
  show ?thesis
    using laws whole span [OF assms(5)] hex_unpadded [OF assms(2), of "sx_span_id (ss_context sd)"] span trace
    by (simp add: Let_def span_to_proto_def set_parent_def span_from_sdk_def context_from_sdk_def link_from_sdk_def
        link_to_proto_def comp_def)
qed

text \<open>The formats and the decoder of the witness, and a span whose id is 300.\<close>

definition hex_ids :: id_text where
  "hex_ids = \<lparr>it_trace_hex = lower_hex, it_span_hex = lower_hex, it_trace_string = padded_hex 32, it_span_string = padded_hex 16\<rparr>"

definition hex_value :: "char \<Rightarrow> nat" where
  "hex_value c = (let n = of_char c in if n < 58 then n - 48 else n - 87)"

fun hex_decode :: "string \<Rightarrow> bytes option" where
  "hex_decode [] = Some []"
| "hex_decode [c] = None"
| "hex_decode (a # b # s) = map_option ((#) (of_nat (16 * hex_value a + hex_value b))) (hex_decode s)"

definition hex_env :: "nat otel_env" where
  "hex_env = \<lparr>oe_hex = hex_decode, oe_of_u64 = unat, oe_of_i64 = unat\<rparr>"

lemma hex_value_digit: "d < 16 \<Longrightarrow> hex_value (hex_digit d) = d"
  by (auto simp: hex_value_def hex_digit_def Let_def of_char_of)

lemma hex_env_laws: "hex_laws hex_env"
proof -
  have "hex_decode (concat (map byte_hex bs)) = Some bs" for bs
  proof (induction bs)
    case (Cons b bs)
    have "unat b < 256" using unsigned_less [where 'a = nat and w = b] by simp
    then have "unat b div 16 < 16" by linarith
    then have "hex_value (hex_digit (unat b div 16)) = unat b div 16" "hex_value (hex_digit (unat b mod 16)) = unat b mod 16"
      by (simp_all add: hex_value_digit)
    then show ?case using Cons by (simp add: byte_hex_def)
  qed simp
  moreover have "hex_decode s = None" if "odd (length s)" for s
    using that by (induction s rule: hex_decode.induct) auto
  ultimately show ?thesis by (simp add: hex_laws_def hex_env_def)
qed

definition hex_span :: "nat sdk_span" where
  "hex_span = \<lparr>ss_context = \<lparr>sx_trace_id = 5, sx_span_id = 300, sx_sampled = True, sx_is_remote = False, sx_trace_state = []\<rparr>,
     ss_parent = 0, ss_kind = Server, ss_name = ''x'', ss_start = 0, ss_end = 1, ss_attributes = [], ss_events = [],
     ss_links = [], ss_status = SOk, ss_scope = \<lparr>os_name = [], os_version = None, os_schema_url = None, os_attributes = []\<rparr>,
     ss_dropped_attributes = 0, ss_dropped_events = 0, ss_dropped_links = 0\<rparr>"

theorem span_ids_on_the_wire_witness:
  "let sent = span_to_proto hex_env (set_parent hex_ids demo_parent (span_from_sdk hex_ids hex_span))
   in sp_trace_id sent = [0, 0, 0, 0, 0, 0, 0, 0, 0, 0, 0, 0, 0, 0, 0, 7] \<and>
      sp_parent_span_id sent = [0, 0, 0, 0, 0, 0, 0, 8] \<and> sp_span_id sent = []"
proof -
  have ids: "id_text_laws hex_ids" by (simp add: id_text_laws_def hex_ids_def)
  have "length (lower_hex 300) = 3" "be_digits 16 7 = [0, 0, 0, 0, 0, 0, 0, 0, 0, 0, 0, 0, 0, 0, 0, 7]"
    "be_digits 8 8 = [0, 0, 0, 0, 0, 0, 0, 8]" by code_simp+
  moreover have "sx_trace_id demo_parent = 7" "sx_span_id demo_parent = 8" "sx_span_id (ss_context hex_span) = 300"
    by (simp_all add: demo_parent_def hex_span_def)
  ultimately show ?thesis
    using span_ids_on_the_wire [OF ids hex_env_laws, of demo_parent hex_span] by (simp add: Let_def)
qed

end
