(* ===== verification/Spec2Isabelle.thy ===== *)
theory Spec2Isabelle
  imports KeyValueRace KeyValueCache Capabilities HttpCache HttpHost Vault Blobstore MessagingFlow Sql Identity
    WebSockets Sdk GuestMacro RuntimeMacro MacroSyntax Runtime OtelRetry OtelMetrics OtelGuestMetrics OtelTracing OtelGuestInit
    Instances Linking Backends HttpFlow HttpServing GuestProgram ExamplesData ExamplesFanout OtelIds
begin

text \<open>
  \<^bold>\<open>A verified model of the qwasr WASI runtime\<close>

  The repository builds hosts that run WebAssembly guests.  Every \<open>crates/wasi-*\<close> crate is one WASI
  interface: host handlers that a guest calls, a default backend for development, and sometimes
  code that is compiled into the guest.  \<open>crates/qwasr\<close> prepares a component, the \<open>runtime!\<close> macro
  (\<open>crates/runtime-macro\<close>) generates the host around it, the \<open>guest!\<close> macro (\<open>crates/guest-macro\<close>)
  generates a guest from a configuration, and \<open>crates/qwasr-sdk\<close> is what such a guest is written
  against.  \<open>crates/otel\<close> is the telemetry of the host process.

  \<^bold>\<open>How the parts meet.\<close>  A handler sees a context view: the backend's context and a resource
  table, which maps handles to what they stand for.  It looks its resource up, calls the backend,
  pushes what the guest may refer to, and turns errors into those of the interface.  The guest
  cache of key-value, the HTTP cache above it, the state store of the SDK and the message flow are
  compositions of such handlers, and are modelled and verified as compositions.

  \<^bold>\<open>Conventions\<close> (theory Prelude).  A fallible operation is a function from a state to a result and
  the state it leaves, also on errors, since nothing in the source is rolled back; results are
  sums with the error on the left.  A struct is a record, an enum a datatype, a machine integer a
  word of its width, a string a list of characters that stand for bytes, a hash map an association
  list with distinct keys (no theorem depends on its order).  What \<open>anyhow\<close> and \<open>.context(\<dots>)\<close> build
  is kept as a term.  Logging has no effect and is left out.

  \<^bold>\<open>Theories\<close>, with the files under \<open>crates/\<close> they model.
  \<^item> Prelude, StrOps, BigEndian: results, operations, hash maps; \<open>str\<close> operations; \<open>i64\<close> bytes.
  \<^item> ResourceTable: wasmtime's table as the record \<open>table_ops\<close> with \<open>table_laws\<close> (a pushed entry is
    found under a handle that was free, other handles keep theirs), and a concrete table for it.
  \<^item> KeyedStore: the locale \<open>keyed_store\<close>, what a backend of named byte-string maps promises, with
    the refinement of any command sequence proved inside it.  It is interpreted on the buckets of
    KeyValueStore (\<open>wasi-keyvalue/src/host/default_impl.rs\<close>), the lockers of Vault
    (\<open>wasi-vault/src/host\<close>) and the containers of Blobstore (\<open>wasi-blobstore/src/host\<close>).
  \<^item> KeyValueHost: the store, atomics and batch handlers (\<open>wasi-keyvalue/src/host\<close>); KeyValueRace:
    concurrent increments as a step relation over the suspension points of the handler.
  \<^item> KeyValueCache: \<open>wasi-keyvalue/src/guest/cache.rs\<close> linked to those handlers, with the locale
    \<open>ttl_cache\<close>; HttpHeaders, HttpCache: \<open>wasi-http/src/guest/cache.rs\<close> and \<open>outgoing.rs\<close> above it.
  \<^item> HttpHost: the proxy and the server of \<open>wasi-http/src/host\<close>.
  \<^item> Messaging, MessagingServer: backend, handlers and the server loop of \<open>wasi-messaging/src/host\<close>.
  \<^item> Sql: \<open>wasi-sql\<close>; Identity: the token manager of \<open>wasi-identity\<close>, its concurrent calls as a step
    relation; WebSockets: peers, delivery, connections and health check of \<open>wasi-websockets\<close>.
  \<^item> Sdk: errors, replies and the request builder of \<open>qwasr-sdk\<close>, whose type states are types here;
    Capabilities: its state store, publisher, identity and configuration on the modelled hosts.
  \<^item> GuestMacro: what \<open>guest!\<close> accepts and what its endpoints and message handler do; MessagingFlow: a
    message from a publisher through broker and server into that handler.
  \<^item> RuntimeMacro: what \<open>runtime!\<close> accepts, the names it derives and the context it generates; Runtime:
    \<open>qwasr/src/create.rs\<close>, \<open>compile.rs\<close> and \<open>traits.rs\<close>, composed with that context and the telemetry,
    and the start of the servers.  MacroSyntax: how both macros read their tokens before the checks;
    GuestProgram: the macros from their text to a guest that answers requests and messages.
  \<^item> SharedStore: the generated \<open>StoreCtx\<close>, one table behind the views that the \<open>host.rs\<close> files give their
    handlers, and sessions that mix the calls of seven hosts; HostSessions: what key-value and vault
    promise in such a session; Instances: many instances, each with a store of its own, on shared backends.
  \<^item> Linking: what each \<open>host.rs\<close> adds to the linker, and the three servers (\<open>server.rs\<close>) under the runtime;
    Backends: the options of the default backends and how they connect.
  \<^item> HttpFlow: the guest's HTTP cache over the host's proxy, and \<open>examples/http-proxy\<close>; HttpServing: the other
    direction, from the server over the guest's \<open>serve\<close> (\<open>wasi-http/src/guest/incoming.rs\<close>) and the generated
    router (\<open>guest-macro/src/http.rs\<close>) to an endpoint; Examples, ExamplesData, ExamplesFanout: the guests of
    \<open>examples/\<close> for key-value, vault, blobstore, messaging, websockets, sql and identity.
  \<^item> Telemetry: \<open>otel/src/init.rs\<close> and \<open>tracing.rs\<close>; OtelRetry: \<open>otel/src/retry.rs\<close>; OtelTypes, OtelMetrics,
    OtelTracing, OtelIds, OtelGuestMetrics: both sides of \<open>wasi-otel\<close>; OtelGuestInit: how a guest starts and
    ends its telemetry, and the attribute of \<open>wasi-otel-attr\<close>.

  \<^bold>\<open>What is shown.\<close>  Each component has its properties at the end of its theory, each after a
  statement in words; the lemmas before them say how single operations run.
  \<^item> Refinement: key-value and vault calls through any handles behave as partial maps per handle;
    a session of the state store behaves as a map of values with deadlines.
  \<^item> Round trips and equivalence: the HTTP cache, SQL values, blob objects, the telemetry resource,
    metrics from the SDK to the wire, and the syntax of the macros.
  \<^item> Functional behaviour, errors included: cache control, counters, proxying and serving requests,
    message dispatch, web-socket delivery, endpoints, traces, the prepared runtime.
  \<^item> Concurrency: what interleaved increments, token calls, connections and message tasks keep,
    that increments can be lost, that the message server handles every message, and what a running
    runtime waits for.
  \<^item> Types: a handle keeps the kind it was pushed with, whatever the other hosts do to the table.
  \<^item> Composition: instances share the backends' data and no handle; a runtime links what its component
    imports, starts on what the environment allows and lives as long as its servers; a certificate
    goes from a guest's header to the TLS client; a request from the network reaches the handler of
    its route; the text of a guest becomes a program that does what it says;
    example guests from their request to the stores.
  \<^item> Termination and bounds: the retry loop, numbers, times and ids on the wire.
  \<^item> Where the code falls short of its intent the theorem states what it does: edits of a message
    that are lost, headers that are not sent, tokens that ignore scopes, dates that become NULL,
    span ids that lose their leading zeros, a second runtime in one process that fails.

  \<^bold>\<open>Parameters.\<close>  Code outside the repository is an argument: wasmtime's resource table and linker,
  reqwest, hyper and axum, rusqlite, tokio's channels and mutexes (as what they deliver and as the
  granularity of the step relations), serde and base64, hex and the address parser, the
  OpenTelemetry SDK, syn and quote.  What a theorem needs of one is a named predicate on it
  (\<open>table_laws\<close>, \<open>cache_env_laws\<close>, \<open>rkyv_laws\<close>, \<open>header_laws\<close>, \<open>ws_env_laws\<close>, \<open>rng_law\<close>,
  \<open>resource_laws\<close>, \<open>token_text_laws\<close>, \<open>path_syntax_laws\<close>, \<open>linker_laws\<close>, \<open>from_env_laws\<close>, \<open>boundary_laws\<close>,
  \<open>pipe_laws\<close>, \<open>router_laws\<close>, \<open>id_text_laws\<close>, \<open>hex_laws\<close>, \<open>parse_laws\<close>, \<open>deletes\<close> and the laws of number
  conversion), which states documented behaviour; every theorem with such a hypothesis has a
  witness with concrete functions.  Floating point numbers are an abstract type.

  \<^bold>\<open>Bounds and fuel.\<close>  The retry loop may not end: it has fuel
  for the number of attempts, and the theorem says for which fuel it returns (one more than the
  number of failures) and that it does not return before.  Server loops are step
  relations, or a list of the servers that have ended.  Every other recursion is structural or
  has a measure.  Counters, times and lengths have the width of the source, and the theorems say
  where they wrap.

  \<^bold>\<open>Not modelled\<close>: how syn reads a path and where it reports an error; the text of
  generated code that only declares names; the bindings that wasmtime and wit-bindgen generate, and the
  trait declarations they are implemented for; socket I/O and the HTTP framing of a connection; log
  output; how clap reads the command line; the operations that the code leaves \<open>unimplemented!()\<close>; the
  routers of the examples and their echo handlers.
\<close>

end
